(* ===== verification/Prelude.thy ===== *)
theory Prelude
  imports Complex_Main "HOL-Library.Word" "HOL-Library.Multiset"
begin

text \<open>
  Shared vocabulary of the development.

  \<^item> \<open>exn\<close>: what the C++ code throws, plus the two ways a C++ call can end without an exception
    and without returning: terminating the process (\<open>std::exit\<close>) and undefined behaviour.
  \<^item> \<open>'s outcome\<close>: the result of a stateful C++ operation. An exception does not undo what the
    operation already did, so \<open>Throw\<close> carries the state at the moment of the throw.
  \<^item> \<open>for_each\<close>: the range-based \<open>for\<close> loop, left as soon as its body throws.
  \<^item> \<open>fp_add\<close>: the floating point addition \<open>a + b\<close>. How a sum is rounded is a property of the
    platform, so the rounding function is an argument; comparisons are exact.
\<close>

named_theorems outcome_simps
  \<open>equations that run the outcome combinators\<close>

section \<open>Outcomes of C++ calls\<close>

datatype exn =
    SolverException
  | UnsupportedSolverException
  | SystemError string
  | OverrunException "64 word"
  | InvalidAttributeException
  | LengthError
  | OutOfRange
  | InvalidArgument string
  | CpsException
  | StdException
  | AssertionFailure
  | ProcessExit int
  | UndefinedBehaviour string

datatype 's outcome = Ok 's | Throw exn 's

primrec final_state :: "'s outcome \<Rightarrow> 's" where
  "final_state (Ok s) = s"
| "final_state (Throw e s) = s"

primrec returned :: "'s outcome \<Rightarrow> bool" where
  "returned (Ok s) = True"
| "returned (Throw e s) = False"

text \<open>Sequencing: the second part runs only if the first one returned.\<close>

primrec and_then :: "'s outcome \<Rightarrow> ('s \<Rightarrow> 's outcome) \<Rightarrow> 's outcome" where
  "and_then (Ok s) f = f s"
| "and_then (Throw e s) f = Throw e s"

text \<open>The range-based loop \<open>for (auto x : xs) body(x)\<close>.\<close>

primrec for_each :: "('a \<Rightarrow> 's \<Rightarrow> 's outcome) \<Rightarrow> 'a list \<Rightarrow> 's \<Rightarrow> 's outcome" where
  "for_each f [] s = Ok s"
| "for_each f (x # xs) s = and_then (f x s) (for_each f xs)"

text \<open>A call on a part of the state: \<open>get\<close> reads the part, \<open>put\<close> writes it back, also when
  the call throws.\<close>

definition on_part :: "('s \<Rightarrow> 't) \<Rightarrow> ('t \<Rightarrow> 's \<Rightarrow> 's) \<Rightarrow> ('t \<Rightarrow> 't outcome) \<Rightarrow> 's \<Rightarrow> 's outcome" where
  "on_part get put f s = map_outcome (\<lambda>t. put t s) (f (get s))"

lemma and_then_Ok_iff:
  "and_then r f = Ok t \<longleftrightarrow> (\<exists>s. r = Ok s \<and> f s = Ok t)"
  by (cases r) auto

lemma and_then_Throw_iff:
  "and_then r f = Throw e t \<longleftrightarrow> r = Throw e t \<or> (\<exists>s. r = Ok s \<and> f s = Throw e t)"
  by (cases r) auto

lemma and_then_assoc: "and_then (and_then r f) g = and_then r (\<lambda>s. and_then (f s) g)"
  by (cases r) auto

lemma and_then_Ok_right [simp]: "and_then r Ok = r"
  by (cases r) auto

lemma for_each_Nil_fun [simp]: "for_each f [] = Ok"
  by (simp add: fun_eq_iff)

lemma for_each_append: "for_each f (xs @ ys) s = and_then (for_each f xs s) (for_each f ys)"
proof (induction xs arbitrary: s)
  case (Cons x xs)
  then have "for_each f (xs @ ys) = (\<lambda>s. and_then (for_each f xs s) (for_each f ys))"
    by blast
  then show ?case by (simp add: and_then_assoc)
qed simp

text \<open>A body that never throws makes the loop a \<open>fold\<close>.\<close>

lemma for_each_pure:
  assumes "\<And>x s. x \<in> set xs \<Longrightarrow> f x s = Ok (g x s)"
  shows "for_each f xs s = Ok (fold g xs s)"
  using assms by (induction xs arbitrary: s) auto

text \<open>Whatever the body keeps, the loop keeps, whether it returns or throws.\<close>

lemma and_then_invariant:
  assumes "I (final_state r)" and "\<And>s. I s \<Longrightarrow> I (final_state (f s))"
  shows "I (final_state (and_then r f))"
  using assms by (cases r) auto

lemma for_each_invariant:
  assumes "I s" and "\<And>x s. x \<in> set xs \<Longrightarrow> I s \<Longrightarrow> I (final_state (f x s))"
  shows "I (final_state (for_each f xs s))"
  using assms
proof (induction xs arbitrary: s)
  case (Cons x xs)
  have "I (final_state (f x s))" using Cons.prems by simp
  then show ?case using Cons by (cases "f x s") auto
qed simp

lemma final_on_part [simp]:
  "final_state (on_part get put f s) = put (final_state (f (get s))) s"
  by (cases "f (get s)") (simp_all add: on_part_def)

lemma on_part_Ok: "f (get s) = Ok t \<Longrightarrow> on_part get put f s = Ok (put t s)"
  by (simp add: on_part_def)

lemma on_part_Throw: "f (get s) = Throw e t \<Longrightarrow> on_part get put f s = Throw e (put t s)"
  by (simp add: on_part_def)

lemmas outcome_eqs = and_then.simps for_each.simps on_part_def
declare outcome_eqs [outcome_simps]

text \<open>\<open>n++\<close> on a 32 bit \<open>int\<close>: overflow is undefined.\<close>

definition int32_inc :: "int \<Rightarrow> int option" where
  "int32_inc n = (if n < 2147483647 then Some (n + 1) else None)"

section \<open>Retry loops\<close>

text \<open>\<open>while (ret == 0) ret = attempt();\<close> entered with \<open>ret\<close> 0. \<open>None\<close>: every attempt returns
  0 and the loop does not end.\<close>

definition retried :: "('s \<Rightarrow> int \<times> 's) \<Rightarrow> 's \<Rightarrow> 's" where
  "retried attempt s = snd (attempt s)"

partial_function (option) retry :: "('s \<Rightarrow> int \<times> 's) \<Rightarrow> 's \<Rightarrow> (int \<times> 's) option" where
  "retry attempt s =
     (if fst (attempt s) = 0 then retry attempt (retried attempt s) else Some (attempt s))"

lemma retry_at:
  assumes "\<forall>i < n. fst (attempt ((retried attempt ^^ i) s)) = 0"
    and "fst (attempt ((retried attempt ^^ n) s)) \<noteq> 0"
  shows "retry attempt s = Some (attempt ((retried attempt ^^ n) s))"
  using assms
proof (induction n arbitrary: s)
  case 0
  then show ?case by (simp add: retry.simps[of attempt s])
next
  case (Suc n)
  have "fst (attempt s) = 0" using Suc.prems(1) by (auto dest: spec[of _ 0])
  moreover have "retry attempt (retried attempt s)
      = Some (attempt ((retried attempt ^^ n) (retried attempt s)))"
  proof (rule Suc.IH)
    show "\<forall>i<n. fst (attempt ((retried attempt ^^ i) (retried attempt s))) = 0"
      using Suc.prems(1) by (auto simp: funpow_swap1 dest: spec[of _ "Suc _"])
    show "fst (attempt ((retried attempt ^^ n) (retried attempt s))) \<noteq> 0"
      using Suc.prems(2) by (simp add: funpow_swap1)
  qed
  ultimately show ?case
    by (simp add: retry.simps[of attempt s] funpow_swap1)
qed

lemma retry_Some_nonzero:
  assumes ret: "retry attempt s = Some r"
  shows "fst r \<noteq> 0 \<and> (\<exists>n. r = attempt ((retried attempt ^^ n) s))"
proof (rule retry.raw_induct[where P = "\<lambda>attempt s r. fst r \<noteq> 0 \<and>
    (\<exists>n. r = attempt ((retried attempt ^^ n) s))", OF _ ret])
  fix f attempt and s :: 'a and r
  assume IH: "\<And>attempt (s :: 'a) r. f attempt s = Some r \<Longrightarrow> fst r \<noteq> 0 \<and>
      (\<exists>n. r = attempt ((retried attempt ^^ n) s))"
    and eq: "(if fst (attempt s) = 0 then f attempt (retried attempt s) else Some (attempt s)) = Some r"
  show "fst r \<noteq> 0 \<and> (\<exists>n. r = attempt ((retried attempt ^^ n) s))"
  proof (cases "fst (attempt s) = 0")
    case True
    then have "f attempt (retried attempt s) = Some r" using eq by simp
    from IH[OF this] obtain n where "fst r \<noteq> 0"
        "r = attempt ((retried attempt ^^ n) (retried attempt s))" by blast
    then show ?thesis by (auto simp: funpow_swap1 intro!: exI[of _ "Suc n"])
  next
    case False
    then show ?thesis using eq by (auto intro: exI[of _ 0])
  qed
qed

text \<open>The loop ends exactly when some attempt gives a result other than 0.\<close>

lemma retry_returns_iff:
  "retry attempt s \<noteq> None \<longleftrightarrow> (\<exists>n. fst (attempt ((retried attempt ^^ n) s)) \<noteq> 0)"
proof
  assume "retry attempt s \<noteq> None"
  then show "\<exists>n. fst (attempt ((retried attempt ^^ n) s)) \<noteq> 0"
    using retry_Some_nonzero[of attempt s] by fastforce
next
  assume "\<exists>n. fst (attempt ((retried attempt ^^ n) s)) \<noteq> 0"
  then obtain n where "fst (attempt ((retried attempt ^^ n) s)) \<noteq> 0"
      "\<forall>i < n. fst (attempt ((retried attempt ^^ i) s)) = 0"
    using exists_least_iff[of "\<lambda>n. fst (attempt ((retried attempt ^^ n) s)) \<noteq> 0"] by auto
  then show "retry attempt s \<noteq> None" using retry_at[of n attempt s] by simp
qed

section \<open>Calls that may not return\<close>

text \<open>A call whose loops may run forever has the type \<open>'s outcome option\<close>; \<open>None\<close> means that it
  does not return. \<open>then_run\<close> and \<open>for_each_run\<close> are sequencing and the range-based loop for
  such calls.\<close>

definition then_run :: "'s outcome option \<Rightarrow> ('s \<Rightarrow> 's outcome option) \<Rightarrow> 's outcome option" where
  "then_run r f = (case r of None \<Rightarrow> None | Some (Ok s) \<Rightarrow> f s | Some (Throw e s) \<Rightarrow> Some (Throw e s))"

primrec for_each_run :: "('a \<Rightarrow> 's \<Rightarrow> 's outcome option) \<Rightarrow> 'a list \<Rightarrow> 's \<Rightarrow> 's outcome option" where
  "for_each_run f [] s = Some (Ok s)"
| "for_each_run f (x # xs) s = then_run (f x s) (for_each_run f xs)"

lemma then_run_simps [simp]:
  "then_run (Some (Ok s)) f = f s" "then_run None f = None"
  "then_run (Some (Throw e s)) f = Some (Throw e s)"
  by (simp_all add: then_run_def)

lemma then_run_Some_Ok: "then_run r f = Some (Ok t) \<longleftrightarrow> (\<exists>s. r = Some (Ok s) \<and> f s = Some (Ok t))"
  by (auto simp: then_run_def split: option.splits outcome.splits)

text \<open>A property of the state that every pass of the loop keeps, and what every pass returns.\<close>

lemma for_each_run_invariant:
  assumes "for_each_run f xs s = Some (Ok t)" and "P s"
    and "\<And>x u v. x \<in> set xs \<Longrightarrow> f x u = Some (Ok v) \<Longrightarrow> P u \<Longrightarrow> P v"
  shows "P t"
  using assms
proof (induction xs arbitrary: s)
  case (Cons x xs)
  then obtain u where u: "f x s = Some (Ok u)" "for_each_run f xs u = Some (Ok t)"
    by (auto simp: then_run_Some_Ok)
  show ?case
  proof (rule Cons.IH[OF u(2)])
    show "P u" using Cons.prems(3)[OF _ u(1)] Cons.prems(2) by simp
    show "\<And>y v w. y \<in> set xs \<Longrightarrow> f y v = Some (Ok w) \<Longrightarrow> P v \<Longrightarrow> P w"
      using Cons.prems(3) by (meson list.set_intros(2))
  qed
qed simp

lemma for_each_run_total:
  assumes "P s" and "\<And>x u. x \<in> set xs \<Longrightarrow> P u \<Longrightarrow> \<exists>v. f x u = Some (Ok v) \<and> P v"
  shows "\<exists>t. for_each_run f xs s = Some (Ok t) \<and> P t"
  using assms
proof (induction xs arbitrary: s)
  case (Cons x xs)
  obtain v where "f x s = Some (Ok v)" "P v" using Cons.prems by force
  then show ?case using Cons.IH[of v] Cons.prems(2) by simp
qed simp

text \<open>An operation respects a projection \<open>g\<close> of the state if it commutes with it. Sequencing and loops
  keep this.\<close>

abbreviation through :: "('s \<Rightarrow> 't) \<Rightarrow> 's outcome option \<Rightarrow> 't outcome option" where
  "through g \<equiv> map_option (map_outcome g)"

lemma then_run_through:
  assumes "\<And>s. r = Some (Ok s) \<Longrightarrow> f' (g s) = through g (f s)"
  shows "then_run (through g r) f' = through g (then_run r f)"
  using assms by (auto simp: then_run_def split: option.splits outcome.splits)

lemma for_each_run_through:
  assumes "\<And>x s. f' x (g s) = through g (f x s)"
  shows "for_each_run f' xs (g s) = through g (for_each_run f xs s)"
  by (induction xs arbitrary: s) (simp_all add: assms then_run_through)

section \<open>Floating point addition\<close>

definition fp_add :: "(real \<Rightarrow> real) \<Rightarrow> real \<Rightarrow> real \<Rightarrow> real" where
  "fp_add rnd a b = rnd (a + b)"

text \<open>The documented behaviour of a rounding mode: it is monotone and keeps the values that are
  already representable.\<close>

definition rounding :: "(real \<Rightarrow> real) \<Rightarrow> bool" where
  "rounding rnd \<longleftrightarrow> mono rnd \<and> (\<forall>x. rnd (rnd x) = rnd x)"

lemma rounding_id: "rounding (\<lambda>x. x)"
  by (simp add: rounding_def mono_def)

lemma fp_add_mono: "rounding rnd \<Longrightarrow> a \<le> b \<Longrightarrow> fp_add rnd a d \<le> fp_add rnd b d"
  by (auto simp: rounding_def fp_add_def mono_def)

text \<open>Adding a non-negative step to a representable time never goes back in time.\<close>

lemma fp_add_increasing:
  assumes "rounding rnd" and "rnd t = t" and "0 \<le> d"
  shows "t \<le> fp_add rnd t d"
proof -
  have "mono rnd" using assms(1) by (simp add: rounding_def)
  then have "rnd t \<le> rnd (t + d)" using assms(3) by (simp add: monoD)
  then show ?thesis using assms by (simp add: fp_add_def)
qed

section \<open>Lists\<close>

lemma sum_list_map_nth_split:
  "i < length xs \<Longrightarrow> sum_list (map f (take (Suc i) xs)) = sum_list (map f (take i xs)) + f (xs ! i)"
  for f :: "'a \<Rightarrow> nat"
  by (simp add: take_Suc_conv_app_nth)

lemma mset_swap_list:
  "i < length xs \<Longrightarrow> j < length xs \<Longrightarrow> mset (xs[i := xs ! j, j := xs ! i]) = mset xs"
  by (rule mset_swap)

section \<open>Words\<close>

lemma unat_of_nat32 [simp]: "n < 2 ^ 32 \<Longrightarrow> unat (of_nat n :: 32 word) = n"
  by (simp add: unat_of_nat)

lemma of_nat32_inject: "m < 2 ^ 32 \<Longrightarrow> n < 2 ^ 32 \<Longrightarrow> (of_nat m :: 32 word) = of_nat n \<longleftrightarrow> m = n"
  by (metis unat_of_nat32)

lemma of_nat32_eq_0_iff: "n < 2 ^ 32 \<Longrightarrow> (of_nat n :: 32 word) = 0 \<longleftrightarrow> n = 0"
  using of_nat32_inject[of n 0] by simp

end
