(* ===== verification/CpsLib.thy ===== *)
theory CpsLib
  imports Prelude
begin

text \<open>
  The part of the component library CPS (\<open>libcps\<close>, a separate repository) that DPsim calls on
  attributes and switches. Its objects live in an opaque world \<open>'w\<close>; a call is a function of
  that world, collected in the record \<open>cps_attrs\<close>, which every definition that needs it takes
  as an argument. Objects are named by numbers, as the C++ code names them by pointers.
\<close>

type_synonym attr = nat
type_synonym comp = nat

text \<open>The values an attribute can hold: \<open>Attribute<Int>\<close>, \<open><UInt>\<close>, \<open><Real>\<close>, \<open><Bool>\<close>,
  \<open><Complex>\<close>.\<close>

datatype val =
    IntV int
  | UIntV int
  | RealV real
  | BoolV bool
  | ComplexV real real

text \<open>\<open>attr_set\<close> is \<open>Attribute::set\<close> and may throw (a read-only attribute); \<open>attr_get\<close> is
  \<open>Attribute::get\<close>; \<open>sw_open\<close> and \<open>sw_close\<close> are \<open>Base::Ph1::Switch::open\<close> and \<open>close\<close>;
  \<open>cps_exn_std\<close> says whether the exceptions of the library derive from \<open>std::exception\<close>.\<close>

record 'w cps_attrs =
  attr_set :: "attr \<Rightarrow> val \<Rightarrow> 'w \<Rightarrow> 'w outcome"
  attr_get :: "attr \<Rightarrow> 'w \<Rightarrow> val"
  sw_open :: "comp \<Rightarrow> 'w \<Rightarrow> 'w"
  sw_close :: "comp \<Rightarrow> 'w \<Rightarrow> 'w"
  cps_exn_std :: bool

text \<open>What a handler \<open>catch (std::exception&)\<close> catches.\<close>

fun is_std_exception :: "'w cps_attrs \<Rightarrow> exn \<Rightarrow> bool" where
  "is_std_exception cps LengthError = True"
| "is_std_exception cps OutOfRange = True"
| "is_std_exception cps (InvalidArgument _) = True"
| "is_std_exception cps StdException = True"
| "is_std_exception cps CpsException = cps_exn_std cps"
| "is_std_exception cps InvalidAttributeException = cps_exn_std cps"
| "is_std_exception cps (SystemError _) = cps_exn_std cps"
| "is_std_exception cps _ = False"

text \<open>A small concrete library for the examples: attributes and switch states are stored in two
  functions; writing attribute 99 is refused, as a read-only attribute would be.\<close>

record demo_world =
  demo_attrs :: "attr \<Rightarrow> val"
  demo_closed :: "comp \<Rightarrow> bool"

definition demo_attr_set :: "attr \<Rightarrow> val \<Rightarrow> demo_world \<Rightarrow> demo_world outcome" where
  "demo_attr_set a v w = (if a = 99 then Throw CpsException w
     else Ok (w\<lparr>demo_attrs := (demo_attrs w)(a := v)\<rparr>))"

definition demo_cps :: "demo_world cps_attrs" where
  "demo_cps = \<lparr>attr_set = demo_attr_set,
     attr_get = (\<lambda>a w. demo_attrs w a),
     sw_open = (\<lambda>c w. w\<lparr>demo_closed := (demo_closed w)(c := False)\<rparr>),
     sw_close = (\<lambda>c w. w\<lparr>demo_closed := (demo_closed w)(c := True)\<rparr>),
     cps_exn_std = True\<rparr>"

definition demo_start :: demo_world where
  "demo_start = \<lparr>demo_attrs = (\<lambda>_. RealV 0), demo_closed = (\<lambda>_. False)\<rparr>"

lemmas demo_defs = demo_attr_set_def demo_cps_def demo_start_def

end
