(* ===== verification/PriorityQueue.thy ===== *)
theory PriorityQueue
  imports Prelude
begin

text \<open>
  \<open>std::priority_queue\<close> as the event queue uses it: a binary heap in an array (the adapter's
  \<open>deque\<close>), with \<open>push\<close> appending and sifting up and \<open>pop\<close> moving the last element to the
  root and sifting down. The root has the least key, because the comparator of the event queue
  is \<open>>\<close> on times.

  The locale \<open>prio_queue\<close> states what the standard promises of the adapter: the contents as
  a multiset, and that \<open>top\<close> has a least key. It leaves the order of equal keys open, and
  everything proved of the event queue rests on the locale only.
\<close>

section \<open>The contract\<close>

locale prio_queue =
  fixes key :: "'a \<Rightarrow> real"
    and is_empty :: "'q \<Rightarrow> bool"
    and push :: "'a \<Rightarrow> 'q \<Rightarrow> 'q"
    and top :: "'q \<Rightarrow> 'a"
    and pop :: "'q \<Rightarrow> 'q"
    and invar :: "'q \<Rightarrow> bool"
    and items :: "'q \<Rightarrow> 'a multiset"
  assumes empty_iff: "is_empty q \<longleftrightarrow> items q = {#}"
    and invar_push: "invar q \<Longrightarrow> invar (push x q)"
    and items_push: "items (push x q) = add_mset x (items q)"
    and top_mem: "items q \<noteq> {#} \<Longrightarrow> top q \<in># items q"
    and top_least: "invar q \<Longrightarrow> x \<in># items q \<Longrightarrow> key (top q) \<le> key x"
    and invar_pop: "invar q \<Longrightarrow> items q \<noteq> {#} \<Longrightarrow> invar (pop q)"
    and items_pop: "items q \<noteq> {#} \<Longrightarrow> items (pop q) = items q - {#top q#}"
begin

lemma size_pop: "items q \<noteq> {#} \<Longrightarrow> size (items (pop q)) < size (items q)"
  using top_mem[of q] items_pop[of q] by (simp add: size_Diff1_less)

lemma items_split: "items q \<noteq> {#} \<Longrightarrow> items q = add_mset (top q) (items (pop q))"
  using top_mem[of q] items_pop[of q] by simp

end

section \<open>The binary heap\<close>

definition parent :: "nat \<Rightarrow> nat" where
  "parent i = (i - 1) div 2"

lemma parent_less: "0 < i \<Longrightarrow> parent i < i"
  by (simp add: parent_def)

lemma parent_less_trans: "0 < i \<Longrightarrow> i < n \<Longrightarrow> parent i < n"
  using parent_less[of i] by simp

lemma parent_eq_iff: "0 < j \<Longrightarrow> parent j = i \<longleftrightarrow> j = 2 * i + 1 \<or> j = 2 * i + 2"
  by (auto simp: parent_def)

definition swap_at :: "nat \<Rightarrow> nat \<Rightarrow> 'a list \<Rightarrow> 'a list" where
  "swap_at i j xs = xs[i := xs ! j, j := xs ! i]"

lemma length_swap_at [simp]: "length (swap_at i j xs) = length xs"
  by (simp add: swap_at_def)

lemma mset_swap_at: "i < length xs \<Longrightarrow> j < length xs \<Longrightarrow> mset (swap_at i j xs) = mset xs"
  unfolding swap_at_def by (rule mset_swap_list)

lemma nth_swap_at:
  "i < length xs \<Longrightarrow> j < length xs \<Longrightarrow> k < length xs \<Longrightarrow>
   swap_at i j xs ! k = (if k = j then xs ! i else if k = i then xs ! j else xs ! k)"
  by (auto simp: swap_at_def nth_list_update)

function sift_up :: "('a \<Rightarrow> real) \<Rightarrow> nat \<Rightarrow> 'a list \<Rightarrow> 'a list" where
  "sift_up key i xs =
     (if 0 < i \<and> key (xs ! i) < key (xs ! parent i)
      then sift_up key (parent i) (swap_at i (parent i) xs) else xs)"
  by pat_completeness auto
termination
  by (relation "measure (\<lambda>(key, i, xs). i)") (auto simp: parent_less)

function sift_down :: "('a \<Rightarrow> real) \<Rightarrow> nat \<Rightarrow> 'a list \<Rightarrow> 'a list" where
  "sift_down key i xs =
     (let l = 2 * i + 1; r = 2 * i + 2;
          m = (if l < length xs \<and> key (xs ! l) < key (xs ! i) then l else i);
          n = (if r < length xs \<and> key (xs ! r) < key (xs ! m) then r else m)
      in if n = i then xs else sift_down key n (swap_at i n xs))"
  by pat_completeness auto
termination
  by (relation "measure (\<lambda>(key, i, xs). length xs - i)") (auto simp: Let_def split: if_splits)

declare sift_up.simps [simp del] sift_down.simps [simp del]

definition heap_push :: "('a \<Rightarrow> real) \<Rightarrow> 'a \<Rightarrow> 'a list \<Rightarrow> 'a list" where
  "heap_push key x xs = sift_up key (length xs) (xs @ [x])"

definition heap_pop :: "('a \<Rightarrow> real) \<Rightarrow> 'a list \<Rightarrow> 'a list" where
  "heap_pop key xs = (case xs of [] \<Rightarrow> [] | [_] \<Rightarrow> []
     | _ # _ # _ \<Rightarrow> sift_down key 0 (butlast (xs[0 := last xs])))"

definition heap_ok :: "('a \<Rightarrow> real) \<Rightarrow> 'a list \<Rightarrow> bool" where
  "heap_ok key xs \<longleftrightarrow> (\<forall>j < length xs. 0 < j \<longrightarrow> key (xs ! parent j) \<le> key (xs ! j))"

section \<open>Sifting restores the heap order\<close>

lemma sift_up_mset: "i < length xs \<Longrightarrow> mset (sift_up key i xs) = mset xs"
proof (induction key i xs rule: sift_up.induct)
  case (1 key i xs)
  then show ?case
    using parent_less[of i]
    by (auto simp: sift_up.simps[of key i xs] mset_swap_at)
qed

lemma sift_up_heap:
  assumes "i < length xs"
    and "\<And>j. j < length xs \<Longrightarrow> 0 < j \<Longrightarrow> j \<noteq> i \<Longrightarrow> key (xs ! parent j) \<le> key (xs ! j)"
    and "\<And>j. j < length xs \<Longrightarrow> 0 < j \<Longrightarrow> 0 < i \<Longrightarrow> parent j = i \<Longrightarrow> key (xs ! parent i) \<le> key (xs ! j)"
  shows "heap_ok key (sift_up key i xs)"
  using assms
proof (induction key i xs rule: sift_up.induct)
  case (1 key i xs)
  show ?case
  proof (cases "0 < i \<and> key (xs ! i) < key (xs ! parent i)")
    case False
    then have "heap_ok key xs"
      using "1.prems" unfolding heap_ok_def by (metis linorder_not_less order.refl)
    with False show ?thesis by (subst sift_up.simps) auto
  next
    case True
    let ?p = "parent i" and ?ys = "swap_at i (parent i) xs"
    have p: "?p < i" using True by (simp add: parent_less)
    note nth = nth_swap_at[OF "1.prems"(1), of ?p]
    have "heap_ok key (sift_up key ?p ?ys)"
    proof (rule "1.IH"[OF True])
      show "?p < length ?ys" using p "1.prems"(1) by simp
    next
      fix j assume j: "j < length ?ys" "0 < j" "j \<noteq> ?p"
      then have pj: "parent j < j" "parent j < length xs" by (auto simp: parent_less parent_less_trans)
      show "key (?ys ! parent j) \<le> key (?ys ! j)"
        using j pj p "1.prems" True "1.prems"(2)[of ?p] "1.prems"(2)[of j] "1.prems"(3)[of j]
        by (auto simp: nth_swap_at) force+
    next
      fix j assume j: "j < length ?ys" "0 < j" "0 < ?p" "parent j = ?p"
      have pp: "parent ?p < ?p" using j by (simp add: parent_less)
      show "key (?ys ! parent ?p) \<le> key (?ys ! j)"
        using j p pp "1.prems"(1) True "1.prems"(2)[of ?p] "1.prems"(2)[of j]
        by (auto simp: nth_swap_at)
    qed
    with True show ?thesis by (simp add: sift_up.simps[of key i xs])
  qed
qed

lemma sift_down_mset: "i < length xs \<Longrightarrow> mset (sift_down key i xs) = mset xs"
proof (induction key i xs rule: sift_down.induct)
  case (1 key i xs)
  then show ?case
    by (subst sift_down.simps) (auto simp: Let_def mset_swap_at split: if_splits)
qed

text \<open>What sifting down needs: the order holds everywhere except between \<open>i\<close> and its
  children, and the children of \<open>i\<close> are not smaller than the parent of \<open>i\<close>.\<close>

definition hole_ok :: "('a \<Rightarrow> real) \<Rightarrow> nat \<Rightarrow> 'a list \<Rightarrow> bool" where
  "hole_ok key i xs \<longleftrightarrow> i < length xs
     \<and> (\<forall>j < length xs. 0 < j \<longrightarrow> parent j \<noteq> i \<longrightarrow> key (xs ! parent j) \<le> key (xs ! j))
     \<and> (\<forall>j < length xs. 0 < j \<longrightarrow> 0 < i \<longrightarrow> parent j = i \<longrightarrow> key (xs ! parent i) \<le> key (xs ! j))"

lemma hole_ok_swap:
  assumes h: "hole_ok key i xs" and n: "n < length xs" "0 < n" "parent n = i"
    and less: "key (xs ! n) < key (xs ! i)"
    and least: "\<And>j. j < length xs \<Longrightarrow> 0 < j \<Longrightarrow> parent j = i \<Longrightarrow> key (xs ! n) \<le> key (xs ! j)"
  shows "hole_ok key n (swap_at i n xs)"
proof -
  let ?ys = "swap_at i n xs"
  have i: "i < length xs" "i < n" using h n parent_less[of n] by (auto simp: hole_ok_def)
  have order: "key (?ys ! parent j) \<le> key (?ys ! j)"
    if j: "j < length xs" "0 < j" "parent j \<noteq> n" for j
  proof -
    have pj: "parent j < j" "parent j < length xs" using j by (auto simp: parent_less parent_less_trans)
    show ?thesis
      using j pj i n h less least[of j] by (auto simp: nth_swap_at hole_ok_def)
  qed
  have below: "key (?ys ! parent n) \<le> key (?ys ! j)"
    if j: "j < length xs" "0 < j" "parent j = n" for j
  proof -
    have "n < j" using j parent_less[of j] by simp
    then show ?thesis using j i n h by (auto simp: nth_swap_at hole_ok_def)
  qed
  show ?thesis using order below n by (auto simp: hole_ok_def)
qed

lemma sift_down_heap: "hole_ok key i xs \<Longrightarrow> heap_ok key (sift_down key i xs)"
proof (induction key i xs rule: sift_down.induct)
  case (1 key i xs)
  let ?l = "2 * i + 1" and ?r = "2 * i + 2"
  define m where "m = (if ?l < length xs \<and> key (xs ! ?l) < key (xs ! i) then ?l else i)"
  define n where "n = (if ?r < length xs \<and> key (xs ! ?r) < key (xs ! m) then ?r else m)"
  have unf: "sift_down key i xs = (if n = i then xs else sift_down key n (swap_at i n xs))"
    by (subst sift_down.simps) (simp add: Let_def m_def n_def)
  have least: "key (xs ! n) \<le> key (xs ! j)" if "j < length xs" "0 < j" "parent j = i" for j
    using that by (auto simp: n_def m_def parent_eq_iff)
  show ?case
  proof (cases "n = i")
    case True
    then have "heap_ok key xs"
      using "1.prems" least by (auto simp: heap_ok_def hole_ok_def)
    with True unf show ?thesis by simp
  next
    case False
    have n: "n < length xs" "0 < n" "parent n = i" "key (xs ! n) < key (xs ! i)"
      using False by (auto simp: n_def m_def parent_eq_iff split: if_splits)
    have "hole_ok key n (swap_at i n xs)"
      by (rule hole_ok_swap[OF "1.prems" n least])
    then have "heap_ok key (sift_down key n (swap_at i n xs))"
      using "1.IH"[OF refl refl m_def n_def False] by simp
    with False unf show ?thesis by simp
  qed
qed

section \<open>The heap implements the contract\<close>

lemma heap_root_least:
  assumes "heap_ok key xs" and "j < length xs"
  shows "key (xs ! 0) \<le> key (xs ! j)"
  using assms(2)
proof (induction j rule: less_induct)
  case (less j)
  show ?case
  proof (cases "j = 0")
    case False
    then have p: "parent j < j" by (simp add: parent_less)
    with less have "key (xs ! 0) \<le> key (xs ! parent j)" by simp
    also have "\<dots> \<le> key (xs ! j)" using assms(1) less.prems False by (simp add: heap_ok_def)
    finally show ?thesis .
  qed simp
qed

lemma heap_push_ok: "heap_ok key xs \<Longrightarrow> heap_ok key (heap_push key x xs)"
  unfolding heap_push_def
proof (rule sift_up_heap)
  fix j assume "heap_ok key xs" "j < length (xs @ [x])" "0 < j" "j \<noteq> length xs"
  then show "key ((xs @ [x]) ! parent j) \<le> key ((xs @ [x]) ! j)"
    using parent_less[of j] by (auto simp: heap_ok_def nth_append)
next
  fix j assume "j < length (xs @ [x])" "0 < j" "parent j = length xs"
  then show "key ((xs @ [x]) ! parent (length xs)) \<le> key ((xs @ [x]) ! j)"
    using parent_less[of j] by auto
qed simp

lemma mset_heap_push: "mset (heap_push key x xs) = add_mset x (mset xs)"
  by (simp add: heap_push_def sift_up_mset)

text \<open>The array after the root was overwritten by the last element, before sifting.\<close>

lemma pop_array:
  assumes "xs = a # b # ys"
  shows "mset (butlast (xs[0 := last xs])) = mset xs - {#a#}"
    and "heap_ok key xs \<Longrightarrow> hole_ok key 0 (butlast (xs[0 := last xs]))"
proof -
  have split: "b # ys = butlast (b # ys) @ [last (b # ys)]" by simp
  have eq: "butlast (xs[0 := last xs]) = last (b # ys) # butlast (b # ys)"
    using assms by simp
  have "mset (b # ys) = mset (butlast (b # ys)) + {#last (b # ys)#}"
    by (metis split mset_append mset_single_iff_right mset.simps union_mset_add_mset_right)
  then show "mset (butlast (xs[0 := last xs])) = mset xs - {#a#}"
    unfolding eq assms by simp
  show "hole_ok key 0 (butlast (xs[0 := last xs]))" if h: "heap_ok key xs"
  proof -
    let ?ys = "butlast (xs[0 := last xs])"
    have len: "length ?ys = length xs - 1" by simp
    have nth: "?ys ! j = xs ! j" if "0 < j" "j < length ?ys" for j
      using that by (simp add: nth_butlast)
    show ?thesis
      unfolding hole_ok_def
    proof (intro conjI allI impI)
      show "0 < length ?ys" using assms by simp
    next
      fix j assume j: "j < length ?ys" "0 < j" "parent j \<noteq> 0"
      then have "0 < parent j" "parent j < length ?ys" using parent_less[of j] by auto
      then show "key (?ys ! parent j) \<le> key (?ys ! j)"
        using nth j h len by (simp add: heap_ok_def)
    qed simp
  qed
qed

lemma heap_pop_ok: "heap_ok key xs \<Longrightarrow> heap_ok key (heap_pop key xs)"
proof (cases xs rule: remdups_adj.cases)
  case (3 a b ys)
  assume "heap_ok key xs"
  then have "heap_ok key (sift_down key 0 (butlast (xs[0 := last xs])))"
    by (intro sift_down_heap pop_array(2)[OF 3])
  then show ?thesis using 3 by (simp add: heap_pop_def)
qed (simp_all add: heap_pop_def heap_ok_def)

lemma mset_heap_pop: "xs \<noteq> [] \<Longrightarrow> mset (heap_pop key xs) = mset xs - {#hd xs#}"
proof (cases xs rule: remdups_adj.cases)
  case (3 a b ys)
  have "mset (heap_pop key xs) = mset (butlast (xs[0 := last xs]))"
    using 3 by (simp add: heap_pop_def sift_down_mset)
  then show ?thesis using pop_array(1)[OF 3] 3 by simp
qed (simp_all add: heap_pop_def)

interpretation heap_pq: prio_queue key List.null "heap_push key" hd "heap_pop key" "heap_ok key" mset
  for key :: "'a \<Rightarrow> real"
proof (unfold_locales, goal_cases)
  case 1 show ?case by simp
next
  case 2 then show ?case by (rule heap_push_ok)
next
  case 3 show ?case by (rule mset_heap_push)
next
  case 4 then show ?case by simp
next
  case (5 q x)
  then obtain j where "j < length q" "x = q ! j" by (auto simp: in_set_conv_nth)
  moreover from this have "hd q = q ! 0" by (intro hd_conv_nth) auto
  ultimately show ?case using heap_root_least[of key q j] 5 by simp
next
  case 6 then show ?case by (simp add: heap_pop_ok)
next
  case 7 then show ?case by (simp add: mset_heap_pop)
qed

end
