(* ===== verification/Event.thy ===== *)
theory Event
  imports CpsLib PriorityQueue
begin

text \<open>
  The event system (\<open>Source/Event.cpp\<close>, \<open>Include/dpsim/Event.h\<close>).

  An event is an \<open>AttributeEvent\<close> or a \<open>SwitchEvent\<close> with the time it is due; \<open>execute\<close> is
  the virtual method of both. The queue is the priority queue of \<open>PriorityQueue\<close>, ordered by
  \<open>EventComparator\<close>. \<open>handleEvents\<close> is the loop that the simulation runs at the start of every
  step: it executes the event at the top before popping it, so an event whose execution throws
  stays in the queue.
\<close>

section \<open>Events and the queue\<close>

datatype event =
    AttributeEvent (mTime: real) attr val
  | SwitchEvent (mTime: real) comp bool

type_synonym event_queue = "event list"

definition EventComparator :: "event \<Rightarrow> event \<Rightarrow> bool" where
  "EventComparator l r \<longleftrightarrow> mTime l > mTime r"

fun execute :: "'w cps_attrs \<Rightarrow> event \<Rightarrow> 'w \<Rightarrow> 'w outcome" where
  "execute cps (AttributeEvent t attribute newValue) w = attr_set cps attribute newValue w"
| "execute cps (SwitchEvent t sw newState) w =
     Ok (if newState then sw_close cps sw w else sw_open cps sw w)"

definition addEvent :: "event \<Rightarrow> event_queue \<Rightarrow> event_queue" where
  "addEvent e q = heap_push mTime e q"

function handleEvents ::
    "'w cps_attrs \<Rightarrow> real \<Rightarrow> event_queue \<times> 'w \<Rightarrow> (event_queue \<times> 'w) outcome" where
  "handleEvents cps currentTime (q, w) =
     (if List.null q then Ok (q, w)
      else let e = hd q in
        if mTime e > currentTime then Ok (q, w)
        else case execute cps e w of
               Throw x w' \<Rightarrow> Throw x (q, w')
             | Ok w' \<Rightarrow> handleEvents cps currentTime (heap_pop mTime q, w'))"
  by pat_completeness auto
termination
proof (relation "measure (\<lambda>(cps, t, q, w). length q)", goal_cases)
  case (2 cps t q w e x)
  then have "size (mset (heap_pop mTime q)) < size (mset q)"
    by (intro heap_pq.size_pop) simp
  then show ?case by simp
qed simp

declare handleEvents.simps [simp del]

section \<open>The loop over any priority queue\<close>

text \<open>
  \<open>loop\<close> is a loop that follows the text of \<open>handleEvents\<close> over a queue that keeps the
  contract. Its lemmas do not depend on how the queue orders events of the same time.
\<close>

locale event_loop = prio_queue key is_empty push top pop invar items
  for key :: "'a \<Rightarrow> real" and is_empty :: "'q \<Rightarrow> bool" and push top pop invar items +
  fixes exec :: "'a \<Rightarrow> 'w \<Rightarrow> 'w outcome"
    and loop :: "real \<Rightarrow> 'q \<times> 'w \<Rightarrow> ('q \<times> 'w) outcome"
  assumes loop_unfold: "loop t (q, w) =
     (if is_empty q then Ok (q, w)
      else if key (top q) > t then Ok (q, w)
      else case exec (top q) w of
             Throw x w' \<Rightarrow> Throw x (q, w')
           | Ok w' \<Rightarrow> loop t (pop q, w'))"
begin

text \<open>What the loop did: the executed events \<open>es\<close>, in order, and what is left.\<close>

definition handled :: "real \<Rightarrow> 'q \<Rightarrow> 'a list \<Rightarrow> 'q \<Rightarrow> bool" where
  "handled t q es q' \<longleftrightarrow> invar q' \<and> items q = mset es + items q' \<and> sorted (map key es)
     \<and> (\<forall>e \<in> set es. key e \<le> t) \<and> (\<forall>e \<in> set es. \<forall>x \<in># items q'. key e \<le> key x)"

lemma handled_Nil: "invar q \<Longrightarrow> handled t q [] q"
  by (simp add: handled_def)

lemma handled_Cons:
  assumes "invar q" and "items q \<noteq> {#}" and "key (top q) \<le> t" and "handled t (pop q) es q'"
  shows "handled t q (top q # es) q'"
proof -
  have split: "items q = add_mset (top q) (items (pop q))" by (rule items_split[OF assms(2)])
  have rest: "items (pop q) = mset es + items q'" using assms(4) by (simp add: handled_def)
  have "key (top q) \<le> key x" if "x \<in> set es \<or> x \<in># items q'" for x
    using top_least[OF assms(1), of x] that split rest by auto
  then show ?thesis using assms split by (auto simp: handled_def)
qed

lemma loop_stops: "is_empty q \<or> key (top q) > t \<Longrightarrow> loop t (q, w) = Ok (q, w)"
  by (auto simp: loop_unfold[of t q])

lemma loop_continues:
  "\<not> is_empty q \<Longrightarrow> key (top q) \<le> t \<Longrightarrow> exec (top q) w = Ok w' \<Longrightarrow>
   loop t (q, w) = loop t (pop q, w')"
  by (subst loop_unfold) auto

lemma loop_throws:
  "\<not> is_empty q \<Longrightarrow> key (top q) \<le> t \<Longrightarrow> exec (top q) w = Throw x w' \<Longrightarrow>
   loop t (q, w) = Throw x (q, w')"
  by (subst loop_unfold) auto

lemma loop_induct [consumes 1, case_names stop throw cont]:
  assumes "invar q"
    and "\<And>q w. invar q \<Longrightarrow> is_empty q \<or> key (top q) > t \<Longrightarrow> P q w"
    and "\<And>q w x w'. invar q \<Longrightarrow> \<not> is_empty q \<Longrightarrow> key (top q) \<le> t \<Longrightarrow>
            exec (top q) w = Throw x w' \<Longrightarrow> P q w"
    and "\<And>q w w'. invar q \<Longrightarrow> \<not> is_empty q \<Longrightarrow> key (top q) \<le> t \<Longrightarrow>
            exec (top q) w = Ok w' \<Longrightarrow> P (pop q) w' \<Longrightarrow> P q w"
  shows "P q w"
  using assms(1)
proof (induction "size (items q)" arbitrary: q w rule: less_induct)
  case (less q w)
  show ?case
  proof (cases "is_empty q \<or> key (top q) > t")
    case True
    then show ?thesis using assms(2) less.prems by blast
  next
    case False
    then have ne: "items q \<noteq> {#}" by (simp add: empty_iff)
    show ?thesis
    proof (cases "exec (top q) w")
      case (Throw x w')
      then show ?thesis using assms(3) less.prems False by auto
    next
      case (Ok w')
      have "P (pop q) w'"
        using less.hyps[OF size_pop[OF ne]] invar_pop[OF less.prems ne] by blast
      then show ?thesis using assms(4)[OF less.prems] False Ok by auto
    qed
  qed
qed

lemma loop_Ok:
  assumes "invar q" and "loop t (q, w) = Ok (q', w')"
  shows "\<exists>es. handled t q es q' \<and> for_each exec es w = Ok w' \<and> (\<forall>x \<in># items q'. t < key x)"
  using assms
proof (induction q w rule: loop_induct[where t = t])
  case (stop q w)
  then have "q' = q" "w' = w" by (auto simp: loop_stops)
  moreover have "\<forall>x \<in># items q. t < key x"
  proof
    fix x assume x: "x \<in># items q"
    then have "key (top q) > t" using stop(2) by (auto simp: empty_iff)
    also have "key (top q) \<le> key x" using top_least[OF stop(1) x] .
    finally show "t < key x" .
  qed
  ultimately show ?case using handled_Nil[OF stop(1)] by (intro exI[of _ "[]"]) simp
next
  case (throw q w x w'')
  then show ?case by (simp add: loop_throws)
next
  case (cont q w w'')
  then obtain es where es: "handled t (pop q) es q'" "for_each exec es w'' = Ok w'"
      "\<forall>x \<in># items q'. t < key x"
    by (auto simp: loop_continues)
  have ne: "items q \<noteq> {#}" using cont(2) by (simp add: empty_iff)
  have "handled t q (top q # es) q'" by (rule handled_Cons[OF cont(1) ne cont(3) es(1)])
  then show ?case using es cont by (intro exI[of _ "top q # es"]) simp
qed

lemma loop_Throw:
  assumes "invar q" and "loop t (q, w) = Throw x (q', w')"
  shows "\<exists>es v. handled t q es q' \<and> for_each exec es w = Ok v \<and> items q' \<noteq> {#}
     \<and> key (top q') \<le> t \<and> exec (top q') v = Throw x w'"
  using assms
proof (induction q w rule: loop_induct[where t = t])
  case (stop q w)
  then show ?case by (simp add: loop_stops)
next
  case (throw q w x' w'')
  then have "q' = q" "x = x'" "w' = w''" by (auto simp: loop_throws)
  then show ?case using throw handled_Nil[OF throw(1)]
    by (intro exI[of _ "[]"] exI[of _ w]) (simp add: empty_iff)
next
  case (cont q w w'')
  then obtain es v where es: "handled t (pop q) es q'" "for_each exec es w'' = Ok v"
      "items q' \<noteq> {#}" "key (top q') \<le> t" "exec (top q') v = Throw x w'"
    by (auto simp: loop_continues)
  have ne: "items q \<noteq> {#}" using cont(2) by (simp add: empty_iff)
  have "handled t q (top q # es) q'" by (rule handled_Cons[OF cont(1) ne cont(3) es(1)])
  then show ?case using es cont by (intro exI[of _ "top q # es"] exI[of _ v]) simp
qed

text \<open>Handling up to \<open>t\<close> and then up to a later \<open>u\<close> is handling up to \<open>u\<close>.\<close>

lemma loop_compose:
  assumes "invar q" and "t \<le> u"
  shows "and_then (loop t (q, w)) (loop u) = loop u (q, w)"
  using assms(1)
proof (induction q w rule: loop_induct[where t = t])
  case (stop q w)
  then show ?case by (simp add: loop_stops)
next
  case (throw q w x w')
  then show ?case using assms(2) by (simp add: loop_throws)
next
  case (cont q w w')
  then show ?case using assms(2) by (simp add: loop_continues)
qed

end

interpretation evl: event_loop mTime List.null "heap_push mTime" hd "heap_pop mTime"
    "heap_ok mTime" mset "execute cps" "handleEvents cps"
  for cps :: "'w cps_attrs"
  by unfold_locales (subst handleEvents.simps, simp add: Let_def)

section \<open>Properties\<close>

text \<open>C1: \<open>handleEvents\<close> executes exactly the due events, each once and in order of their time.
  From any queue built with \<open>addEvent\<close>, if the call returns there is a list \<open>es\<close> of events such
  that running \<open>es\<close> gives the new world, \<open>es\<close> and what is left in the queue are together the old
  contents, the times of \<open>es\<close> are non-decreasing and at most the current time, and every event
  left is due later.\<close>

theorem handleEvents_executes_due_events:
  assumes "heap_ok mTime q" and "handleEvents cps now (q, w) = Ok (q', w')"
  shows "\<exists>es. for_each (execute cps) es w = Ok w' \<and> mset q = mset es + mset q'
     \<and> sorted (map mTime es) \<and> (\<forall>e \<in> set es. mTime e \<le> now) \<and> (\<forall>e \<in> set q'. now < mTime e)
     \<and> heap_ok mTime q'"
proof -
  obtain es where "evl.handled now q es q'" "for_each (execute cps) es w = Ok w'"
      "\<forall>x \<in># mset q'. now < mTime x"
    using evl.loop_Ok[OF assms] by blast
  then show ?thesis by (intro exI[of _ es]) (simp add: evl.handled_def)
qed

theorem handleEvents_executes_due_events_witness:
  "\<exists>es. for_each (execute demo_cps) es demo_start =
        Ok (demo_start\<lparr>demo_closed := (\<lambda>_. False)(7 := True)\<rparr>)
     \<and> mset [SwitchEvent 1 7 True, AttributeEvent 5 3 (RealV 2)]
         = mset es + mset [AttributeEvent 5 3 (RealV 2)]
     \<and> sorted (map mTime es) \<and> (\<forall>e \<in> set es. mTime e \<le> 2)
     \<and> (\<forall>e \<in> set [AttributeEvent 5 3 (RealV 2)]. 2 < mTime e)
     \<and> heap_ok mTime [AttributeEvent 5 3 (RealV 2)]"
  by (rule handleEvents_executes_due_events)
     (simp_all add: heap_ok_def parent_def less_Suc_eq handleEvents.simps heap_pop_def demo_defs
        sift_down.simps)

text \<open>an event whose execution throws is not lost and not skipped. If \<open>handleEvents\<close> throws,
  the events before it were executed in order of time and removed, the failing event is still at
  the top of the queue, and it is the execution of that event that threw.\<close>

theorem handleEvents_failing_event_stays:
  assumes "heap_ok mTime q" and "handleEvents cps now (q, w) = Throw x (q', w')"
  shows "\<exists>es v. for_each (execute cps) es w = Ok v \<and> mset q = mset es + mset q'
     \<and> sorted (map mTime es) \<and> q' \<noteq> [] \<and> mTime (hd q') \<le> now
     \<and> execute cps (hd q') v = Throw x w'"
proof -
  obtain es v where "evl.handled now q es q'" "for_each (execute cps) es w = Ok v"
      "mset q' \<noteq> {#}" "mTime (hd q') \<le> now" "execute cps (hd q') v = Throw x w'"
    using evl.loop_Throw[OF assms] by blast
  then show ?thesis by (intro exI[of _ es] exI[of _ v]) (simp add: evl.handled_def)
qed

theorem handleEvents_failing_event_stays_witness:
  "\<exists>es v. for_each (execute demo_cps) es demo_start = Ok v
     \<and> mset [SwitchEvent 1 7 True, AttributeEvent 2 99 (RealV 0)]
         = mset es + mset [AttributeEvent 2 99 (RealV 0)]
     \<and> sorted (map mTime es) \<and> [AttributeEvent 2 99 (RealV 0)] \<noteq> []
     \<and> mTime (hd [AttributeEvent 2 99 (RealV 0)]) \<le> 3
     \<and> execute demo_cps (hd [AttributeEvent 2 99 (RealV 0)]) v =
         Throw CpsException (demo_start\<lparr>demo_closed := (\<lambda>_. False)(7 := True)\<rparr>)"
  by (rule handleEvents_failing_event_stays)
     (simp_all add: heap_ok_def parent_def less_Suc_eq handleEvents.simps heap_pop_def demo_defs
        sift_down.simps)

text \<open>calling \<open>handleEvents\<close> at two successive times does what one call at the later time
  does, exceptions included: no event is lost or repeated at a step boundary.\<close>

theorem handleEvents_compose:
  assumes "heap_ok mTime q" and "t \<le> u"
  shows "and_then (handleEvents cps t (q, w)) (handleEvents cps u) = handleEvents cps u (q, w)"
  using evl.loop_compose[OF assms] .

theorem handleEvents_compose_witness:
  "and_then (handleEvents demo_cps 1 ([SwitchEvent 1 7 True], demo_start)) (handleEvents demo_cps 2)
     = handleEvents demo_cps 2 ([SwitchEvent 1 7 True], demo_start)"
  by (rule handleEvents_compose) (simp_all add: heap_ok_def)

text \<open>\<open>addEvent\<close> keeps the queue well formed and adds exactly its event, so a queue filled by
  any sequence of \<open>addEvent\<close> calls holds exactly the added events, and no event in it is earlier
  than the one at the top (in the terms of \<open>EventComparator\<close>).\<close>

theorem addEvent_sequence:
  "heap_ok mTime (fold addEvent es []) \<and> mset (fold addEvent es []) = mset es
   \<and> (\<forall>e \<in> set es. \<not> EventComparator (hd (fold addEvent es [])) e)"
proof -
  have inv: "heap_ok mTime (fold addEvent es q) \<and> mset (fold addEvent es q) = mset es + mset q"
    if "heap_ok mTime q" for q
    using that
    by (induction es arbitrary: q) (simp_all add: addEvent_def heap_push_ok mset_heap_push)
  have ok: "heap_ok mTime (fold addEvent es [])" and items: "mset (fold addEvent es []) = mset es"
    using inv[of "[]"] by (simp_all add: heap_ok_def)
  have "\<not> EventComparator (hd (fold addEvent es [])) e" if "e \<in> set es" for e
    using heap_pq.top_least[OF ok, of e] that items set_mset_mset[of es]
    by (simp add: EventComparator_def)
  with ok items show ?thesis by blast
qed

theorem addEvent_sequence_witness:
  "\<not> EventComparator (hd (fold addEvent [SwitchEvent 2 7 True, SwitchEvent 1 8 True] [])) (SwitchEvent 2 7 True)"
  using addEvent_sequence[of "[SwitchEvent 2 7 True, SwitchEvent 1 8 True]"] by simp

text \<open>The simulation's use of the queue: an empty queue is well formed, and a handled queue is.\<close>

lemma heap_ok_Nil [simp]: "heap_ok key []"
  by (simp add: heap_ok_def)

lemma heap_ok_addEvent: "heap_ok mTime q \<Longrightarrow> heap_ok mTime (addEvent e q)"
  by (simp add: addEvent_def heap_push_ok)

lemma handleEvents_heap_ok:
  assumes "heap_ok mTime q"
  shows "heap_ok mTime (fst (final_state (handleEvents cps now (q, w))))"
proof (cases "handleEvents cps now (q, w)")
  case (Ok s)
  then show ?thesis using evl.loop_Ok[OF assms, of cps now w "fst s" "snd s"]
    by (auto simp: evl.handled_def)
next
  case (Throw x s)
  then show ?thesis using evl.loop_Throw[OF assms, of cps now w x "fst s" "snd s"]
    by (auto simp: evl.handled_def)
qed

end
