(* ===== verification/TextOutput.thy ===== *)
theory TextOutput
  imports Prelude
begin

text \<open>
  The part of \<open>std::ostream\<close> the code formats with: decimal integers, \<open>std::right\<close> with
  \<open>std::setw\<close> and \<open>std::setfill\<close>, and \<open>std::to_string\<close> on integers. A text is a \<open>string\<close>.
\<close>

definition digit_char :: "nat \<Rightarrow> char" where
  "digit_char d = char_of (48 + d)"

fun show_nat :: "nat \<Rightarrow> string" where
  "show_nat n = (if n < 10 then [digit_char n] else show_nat (n div 10) @ [digit_char (n mod 10)])"

declare show_nat.simps [simp del]

definition show_int :: "int \<Rightarrow> string" where
  "show_int i = (if i < 0 then CHR ''-'' # show_nat (nat (- i)) else show_nat (nat i))"

text \<open>\<open>std::right << std::setfill(c) << std::setw(n) << s\<close>.\<close>

definition setw_right :: "char \<Rightarrow> nat \<Rightarrow> string \<Rightarrow> string" where
  "setw_right c n s = replicate (n - length s) c @ s"

lemma length_setw_right: "length (setw_right c n s) = max n (length s)"
  by (auto simp: setw_right_def)

section \<open>Reading back\<close>

definition read_nat :: "string \<Rightarrow> nat" where
  "read_nat s = foldl (\<lambda>a c. 10 * a + (of_char c - 48)) 0 s"

lemma of_digit_char: "d < 10 \<Longrightarrow> (of_char (digit_char d) :: nat) = 48 + d"
  by (simp add: digit_char_def)

lemma read_show_nat [simp]: "read_nat (show_nat n) = n"
proof (induction n rule: show_nat.induct)
  case (1 n)
  show ?case
  proof (cases "n < 10")
    case True
    then show ?thesis by (subst show_nat.simps) (simp add: read_nat_def of_digit_char)
  next
    case False
    then show ?thesis using 1 by (subst show_nat.simps) (simp add: read_nat_def of_digit_char)
  qed
qed

lemma show_nat_inject [simp]: "show_nat m = show_nat n \<longleftrightarrow> m = n"
  by (metis read_show_nat)

lemma show_nat_digits: "set (show_nat n) \<subseteq> {c. 48 \<le> (of_char c :: nat) \<and> (of_char c :: nat) \<le> 57}"
proof (induction n rule: show_nat.induct)
  case (1 n)
  show ?case
  proof (cases "n < 10")
    case True
    then show ?thesis by (subst show_nat.simps) (simp add: of_digit_char)
  next
    case False
    then show ?thesis using 1 by (subst show_nat.simps) (simp add: of_digit_char)
  qed
qed

lemma show_nat_nonempty [simp]: "show_nat n \<noteq> []"
  by (subst show_nat.simps) simp

lemma read_nat_append_zeros: "read_nat (replicate k (CHR ''0'') @ s) = read_nat s"
  by (induction k) (simp_all add: read_nat_def)

text \<open>A number padded with zeros reads back as the number, so padding keeps numbers apart.\<close>

lemma read_nat_padded [simp]: "read_nat (setw_right (CHR ''0'') k (show_nat n)) = n"
  by (simp add: setw_right_def read_nat_append_zeros)

lemma padded_nat_inject [simp]:
  "setw_right (CHR ''0'') k (show_nat m) = setw_right (CHR ''0'') k (show_nat n) \<longleftrightarrow> m = n"
  by (metis read_nat_padded)

lemma no_comma_show_nat: "CHR '','' \<notin> set (show_nat n)"
  using show_nat_digits[of n] by auto

lemma comma_split:
  assumes "CHR '','' \<notin> set xs" and "CHR '','' \<notin> set ys"
  shows "xs @ CHR '','' # u = ys @ CHR '','' # v \<longleftrightarrow> xs = ys \<and> u = v"
proof
  assume eq: "xs @ CHR '','' # u = ys @ CHR '','' # v"
  have "takeWhile (\<lambda>c. c \<noteq> CHR '','') (zs @ CHR '','' # w) = zs" if "CHR '','' \<notin> set zs" for zs w
    using that by (induction zs) auto
  then have "xs = ys" using eq assms by metis
  with eq show "xs = ys \<and> u = v" by simp
qed simp

end
