(* ===== verification/Timer.thy ===== *)
theory Timer
  imports TextOutput "HOL-Library.Signed_Division"
begin

unbundle bit_operations_syntax

text \<open>
  The real-time timer (\<open>Source/Timer.cpp\<close>, \<open>Include/dpsim/Timer.h\<close>).

  Durations and time points are nanosecond counts. The counters \<open>mOverruns\<close> and \<open>mTicks\<close> and
  the local variables of \<open>sleep\<close> keep their 64 bits, because \<open>sleep\<close> subtracts one from an
  unsigned value. What the operating system returns (clock readings, the result of \<open>read\<close> and
  \<open>timerfd_settime\<close>) are arguments. \<open>Timer_sleep_timerfd\<close> and \<open>Timer_sleep_fallback\<close> are the two
  builds of \<open>sleep\<close>, with and without \<open>HAVE_TIMERFD\<close>.
\<close>

section \<open>State\<close>

datatype timer_state = running | stopped

record timespec =
  tv_sec :: int
  tv_nsec :: int

record timer =
  mState :: timer_state
  mStartAt :: int
  mNextTick :: int
  mTickInterval :: int
  mOverruns :: "64 word"
  mTicks :: "64 word"
  mFlags :: "32 word"
  it_interval :: timespec
  it_value :: timespec

definition fail_on_overrun :: "32 word" where
  "fail_on_overrun = 1"

definition ts_zero :: timespec where
  "ts_zero = \<lparr>tv_sec = 0, tv_nsec = 0\<rparr>"

text \<open>The constructor; \<open>fd\<close> is the result of \<open>timerfd_create\<close>. \<open>mStartAt\<close> is value
  initialised (the epoch); \<open>mNextTick\<close> as well; \<open>mTickInterval\<close> has no initial value, here the
  argument \<open>garbage\<close>.\<close>

definition Timer_new :: "int \<Rightarrow> int \<Rightarrow> 32 word \<Rightarrow> timer outcome" where
  "Timer_new fd garbage flags =
     (let t = \<lparr>mState = stopped, mStartAt = 0, mNextTick = 0, mTickInterval = garbage,
               mOverruns = 0, mTicks = 0, mFlags = flags, it_interval = ts_zero, it_value = ts_zero\<rparr>
      in if fd < 0 then Throw (SystemError ''Failed to create timerfd'') t else Ok t)"

text \<open>C++ \<open>/\<close> and \<open>%\<close> on \<open>long long\<close> truncate towards zero.\<close>

definition to_timespec :: "int \<Rightarrow> timespec" where
  "to_timespec ns = \<lparr>tv_sec = ns sdiv 1000000000, tv_nsec = ns smod 1000000000\<rparr>"

section \<open>Operations\<close>

definition setStartTime :: "int \<Rightarrow> timer \<Rightarrow> timer" where
  "setStartTime start t = t\<lparr>mStartAt := start\<rparr>"

definition setInterval :: "int \<Rightarrow> timer \<Rightarrow> timer" where
  "setInterval intv t = t\<lparr>mTickInterval := intv\<rparr>"

text \<open>\<open>Ticks((uintmax_t) (dt * 1e9))\<close>: the product is rounded, the conversion truncates and is
  undefined outside the range of \<open>uintmax_t\<close>; the count is then converted to a signed 64 bit
  value.\<close>

definition setInterval_double :: "(real \<Rightarrow> real) \<Rightarrow> real \<Rightarrow> timer \<Rightarrow> timer outcome" where
  "setInterval_double rnd dt t =
     (let x = rnd (dt * 1000000000)
      in if x \<le> -1 \<or> x \<ge> 2 ^ 64 then Throw (UndefinedBehaviour ''double to uintmax_t'') t
         else Ok (t\<lparr>mTickInterval := sint (word_of_int (if x < 0 then 0 else \<lfloor>x\<rfloor>) :: 64 word)\<rparr>))"

definition start_point :: "int \<Rightarrow> int \<Rightarrow> timer \<Rightarrow> int" where
  "start_point rt steady t = (if mStartAt t > 0 then mStartAt t - rt + steady else steady)"

text \<open>\<open>rt\<close> and \<open>steady\<close> are the readings of the two clocks, \<open>ret\<close> the result of
  \<open>timerfd_settime\<close> (any non-negative value in a build without \<open>timerfd\<close>).\<close>

definition Timer_start :: "int \<Rightarrow> int \<Rightarrow> int \<Rightarrow> timer \<Rightarrow> timer outcome" where
  "Timer_start rt steady ret t =
     (if mState t \<noteq> stopped then Throw AssertionFailure t
      else let t = t\<lparr>mTicks := 0, mOverruns := 0\<rparr>;
               start = start_point rt steady t
           in if ret < 0 then Throw (SystemError ''Failed to arm timerfd'') t
              else Ok (t\<lparr>it_interval := to_timespec (mTickInterval t),
                         it_value := to_timespec start,
                         mNextTick := start + mTickInterval t,
                         mState := running\<rparr>))"

definition Timer_stop :: "int \<Rightarrow> timer \<Rightarrow> timer outcome" where
  "Timer_stop ret t =
     (if mState t \<noteq> running then Throw AssertionFailure t
      else if ret < 0 then Throw (SystemError ''Failed to arm timerfd'') t
      else Ok (t\<lparr>it_interval := ts_zero, it_value := ts_zero, mState := stopped\<rparr>))"

definition Timer_delete :: "int \<Rightarrow> timer \<Rightarrow> timer outcome" where
  "Timer_delete ret t = (if mState t = running then Timer_stop ret t else Ok t)"

text \<open>The common end of both builds of \<open>sleep\<close>: \<open>overruns = ticks - 1\<close> on unsigned values.\<close>

definition count_ticks :: "64 word \<Rightarrow> timer \<Rightarrow> timer outcome" where
  "count_ticks ticks t =
     (let overruns = ticks - 1;
          t = t\<lparr>mOverruns := mOverruns t + overruns, mTicks := mTicks t + ticks\<rparr>
      in if overruns > 0 \<and> mFlags t AND fail_on_overrun \<noteq> 0
         then Throw (OverrunException overruns) t else Ok t)"

definition Timer_sleep_timerfd :: "int \<Rightarrow> 64 word \<Rightarrow> timer \<Rightarrow> timer outcome" where
  "Timer_sleep_timerfd bytes ticks t =
     (if bytes < 0 then Throw (SystemError ''Read from timerfd failed'') t else count_ticks ticks t)"

text \<open>The loop \<open>while (mNextTick < now)\<close>; it does not end when the interval is not positive.\<close>

partial_function (option) catch_up :: "int \<Rightarrow> int \<Rightarrow> int \<Rightarrow> 64 word \<Rightarrow> (int \<times> 64 word) option" where
  "catch_up now interval next_tick ticks =
     (if next_tick < now then catch_up now interval (next_tick + interval) (ticks + 1)
      else Some (next_tick, ticks))"

text \<open>\<open>now\<close> is the clock reading after \<open>sleep_until(mNextTick)\<close>; \<open>None\<close>: the call does not
  return.\<close>

definition Timer_sleep_fallback :: "int \<Rightarrow> timer \<Rightarrow> timer outcome option" where
  "Timer_sleep_fallback now t =
     map_option (\<lambda>(next_tick, ticks). count_ticks ticks (t\<lparr>mNextTick := next_tick\<rparr>))
       (catch_up now (mTickInterval t) (mNextTick t) 0)"

definition overruns :: "timer \<Rightarrow> int" where
  "overruns t = sint (mOverruns t)"

definition ticks :: "timer \<Rightarrow> int" where
  "ticks t = sint (mTicks t)"

text \<open>The output operator for durations: the parts left after each \<open>duration_cast\<close>, then the
  non-zero ones with their unit, a blank before every part but the first.\<close>

definition duration_parts :: "int \<Rightarrow> int list" where
  "duration_parts d =
     (let h = d sdiv 3600000000000; d = d - h * 3600000000000;
          m = d sdiv 60000000000; d = d - m * 60000000000;
          s = d sdiv 1000000000; d = d - s * 1000000000;
          ms = d sdiv 1000000; d = d - ms * 1000000;
          us = d sdiv 1000; ns = d - us * 1000
      in [h, m, s, ms, us, ns])"

definition duration_units :: "string list" where
  "duration_units = [''hrs'', ''mins'', ''secs'', ''msecs'', ''usecs'', ''nsecs'']"

definition show_duration :: "int \<Rightarrow> string" where
  "show_duration dur =
     (if dur = 0 then ''0''
      else concat (map (\<lambda>(i, v, u). (if i > 0 then '' '' else []) @
                          (if v = 0 then [] else show_int v @ '' '' @ u))
                 (zip [0..<6] (zip (duration_parts dur) duration_units))))"

section \<open>The catch-up loop\<close>

lemma catch_up_returns:
  assumes "0 < interval"
  shows "\<exists>k. catch_up now interval n tk = Some (n + int k * interval, tk + of_nat k)
     \<and> now \<le> n + int k * interval \<and> (0 < k \<longrightarrow> n + int (k - 1) * interval < now)"
proof (induction "nat (now - n)" arbitrary: n tk rule: less_induct)
  case less
  show ?case
  proof (cases "n < now")
    case True
    then have "nat (now - (n + interval)) < nat (now - n)" using assms by linarith
    from less[OF this] obtain k where
      k: "catch_up now interval (n + interval) (tk + 1)
            = Some (n + interval + int k * interval, tk + 1 + of_nat k)"
         "now \<le> n + interval + int k * interval"
         "0 < k \<longrightarrow> n + interval + int (k - 1) * interval < now"
      by blast
    have "n + int (Suc k - 1) * interval < now"
      using k(3) True by (cases k) (auto simp: algebra_simps)
    then show ?thesis
      using k(1,2) True
      by (intro exI[of _ "Suc k"]) (simp add: catch_up.simps[of now interval n] algebra_simps)
  next
    case False
    then show ?thesis by (intro exI[of _ 0]) (simp add: catch_up.simps[of now interval n])
  qed
qed

lemma catch_up_diverges:
  assumes "n < now" and "interval \<le> 0"
  shows "catch_up now interval n tk = None"
proof (rule ccontr)
  assume "catch_up now interval n tk \<noteq> None"
  then obtain r where ret: "catch_up now interval n tk = Some r" by auto
  have "\<not> (n < now \<and> interval \<le> 0)"
  proof (rule catch_up.raw_induct[where P = "\<lambda>now i n tk r. \<not> (n < now \<and> i \<le> 0)", OF _ ret])
    fix f and now i n :: int and tk :: "64 word" and r
    assume IH: "\<And>now i n tk r. f now i n tk = Some r \<Longrightarrow> \<not> (n < now \<and> i \<le> 0)"
      and eq: "(if n < now then f now i (n + i) (tk + 1) else Some (n, tk)) = Some r"
    show "\<not> (n < now \<and> i \<le> 0)"
    proof
      assume c: "n < now \<and> i \<le> 0"
      then have "f now i (n + i) (tk + 1) = Some r" using eq by simp
      from IH[OF this] c show False by simp
    qed
  qed
  then show False using assms by simp
qed

section \<open>Accounting\<close>

lemma count_ticks_final:
  "final_state (count_ticks tk t) = t\<lparr>mOverruns := mOverruns t + (tk - 1), mTicks := mTicks t + tk\<rparr>"
  by (simp add: count_ticks_def Let_def)

lemma count_ticks_Ok_iff:
  "returned (count_ticks tk t) \<longleftrightarrow> tk = 1 \<or> mFlags t AND fail_on_overrun = 0"
  by (auto simp: count_ticks_def Let_def word_gt_0)

text \<open>Successive \<open>sleep\<close> calls; an overrun exception is caught and the loop goes on, as the
  simulation thread of the Python module does.\<close>

primrec sleeps_fallback :: "int list \<Rightarrow> timer \<Rightarrow> timer option" where
  "sleeps_fallback [] t = Some t"
| "sleeps_fallback (now # nows) t =
     (case Timer_sleep_fallback now t of
        None \<Rightarrow> None
      | Some r \<Rightarrow> sleeps_fallback nows (final_state r))"

definition sleeps_timerfd :: "64 word list \<Rightarrow> timer \<Rightarrow> timer" where
  "sleeps_timerfd tks t = fold (\<lambda>tk t. final_state (Timer_sleep_timerfd 8 tk t)) tks t"

lemma sleeps_fallback_grid:
  assumes "0 < mTickInterval t"
  shows "\<exists>k t'. sleeps_fallback nows t = Some t'
     \<and> mNextTick t' = mNextTick t + int k * mTickInterval t
     \<and> mTicks t' = mTicks t + of_nat k
     \<and> mOverruns t' = mOverruns t + of_nat k - of_nat (length nows)"
  using assms
proof (induction nows arbitrary: t)
  case (Cons now nows)
  obtain k where k: "catch_up now (mTickInterval t) (mNextTick t) 0
      = Some (mNextTick t + int k * mTickInterval t, of_nat k)"
    using catch_up_returns[OF Cons.prems, of now "mNextTick t" 0] by auto
  define t1 where "t1 = t\<lparr>mNextTick := mNextTick t + int k * mTickInterval t,
      mOverruns := mOverruns t + (of_nat k - 1), mTicks := mTicks t + of_nat k\<rparr>"
  have step: "sleeps_fallback (now # nows) t = sleeps_fallback nows t1"
    by (simp add: Timer_sleep_fallback_def k count_ticks_final t1_def)
  have "0 < mTickInterval t1" using Cons.prems by (simp add: t1_def)
  from Cons.IH[OF this] obtain j t' where
    j: "sleeps_fallback nows t1 = Some t'"
       "mNextTick t' = mNextTick t1 + int j * mTickInterval t1"
       "mTicks t' = mTicks t1 + of_nat j"
       "mOverruns t' = mOverruns t1 + of_nat j - of_nat (length nows)"
    by blast
  then show ?case
    unfolding step by (intro exI[of _ "k + j"] exI[of _ t']) (simp add: t1_def algebra_simps)
qed (auto intro: exI[of _ 0])

lemma Timer_start_Ok_iff:
  "Timer_start rt steady ret t = Ok t' \<longleftrightarrow> mState t = stopped \<and> 0 \<le> ret
     \<and> t' = t\<lparr>mTicks := 0, mOverruns := 0, it_interval := to_timespec (mTickInterval t),
              it_value := to_timespec (start_point rt steady t),
              mNextTick := start_point rt steady t + mTickInterval t, mState := running\<rparr>"
  by (auto simp: Timer_start_def Let_def start_point_def)

section \<open>Properties\<close>


definition demo_timer :: timer where
  "demo_timer = \<lparr>mState = stopped, mStartAt = 500, mNextTick = 0, mTickInterval = 10,
     mOverruns = 0, mTicks = 0, mFlags = fail_on_overrun, it_interval = ts_zero, it_value = ts_zero\<rparr>"


text \<open>\<open>sleep\<close> without \<open>timerfd\<close> returns exactly when the interval is positive or the tick has
  not been missed; with a zero interval (a time step below one nanosecond) a late call loops
  forever.\<close>

theorem fallback_sleep_returns_iff:
  "Timer_sleep_fallback now t \<noteq> None \<longleftrightarrow> 0 < mTickInterval t \<or> now \<le> mNextTick t"
proof (cases "0 < mTickInterval t")
  case True
  then show ?thesis
    using catch_up_returns[OF True, of now "mNextTick t" 0] by (auto simp: Timer_sleep_fallback_def)
next
  case False
  then show ?thesis
    using catch_up_diverges[of "mNextTick t" now "mTickInterval t" 0]
    by (auto simp: Timer_sleep_fallback_def catch_up.simps[of now _ "mNextTick t"])
qed

text \<open>waking up exactly at the tick is counted wrongly by the fallback. When the clock reads
  \<open>mNextTick\<close> exactly, no tick is counted, \<open>ticks - 1\<close> wraps around, the overrun counter goes down
  by one, and with \<open>fail_on_overrun\<close> the call throws an overrun of \<open>2^64 - 1\<close> although nothing was
  missed.\<close>

theorem fallback_exact_wakeup_overrun:
  assumes "mFlags t AND fail_on_overrun \<noteq> 0"
  shows "Timer_sleep_fallback (mNextTick t) t =
     Some (Throw (OverrunException (2 ^ 64 - 1)) (t\<lparr>mOverruns := mOverruns t - 1\<rparr>))"
  using assms
  by (simp add: Timer_sleep_fallback_def catch_up.simps count_ticks_def Let_def word_gt_0)

theorem fallback_exact_wakeup_overrun_witness:
  "Timer_sleep_fallback (mNextTick demo_timer) demo_timer =
     Some (Throw (OverrunException (2 ^ 64 - 1)) (demo_timer\<lparr>mOverruns := mOverruns demo_timer - 1\<rparr>))"
  by (rule fallback_exact_wakeup_overrun) (simp add: demo_timer_def fail_on_overrun_def)

lemma sleeps_timerfd_counts:
  "mTicks (sleeps_timerfd tks t) = mTicks t + sum_list tks
   \<and> mOverruns (sleeps_timerfd tks t) = mOverruns t + sum_list tks - of_nat (length tks)"
  by (induction tks arbitrary: t)
     (simp_all add: sleeps_timerfd_def Timer_sleep_timerfd_def count_ticks_final algebra_simps)

text \<open>with \<open>timerfd\<close>, the counters are exact: after any sequence of successful \<open>read\<close>s,
  \<open>mTicks\<close> has grown by the sum of the expirations and \<open>mOverruns\<close> by that sum minus the number
  of calls; a single call throws exactly when the flag is set and the number of expirations is not
  one, with the number of missed ticks as payload.\<close>

theorem timerfd_accounting:
  "mTicks (sleeps_timerfd tks t) = mTicks t + sum_list tks
   \<and> mOverruns (sleeps_timerfd tks t) = mOverruns t + sum_list tks - of_nat (length tks)
   \<and> (\<forall>tk. returned (Timer_sleep_timerfd 8 tk t) \<longleftrightarrow> tk = 1 \<or> mFlags t AND fail_on_overrun = 0)
   \<and> (\<forall>tk e t'. Timer_sleep_timerfd 8 tk t = Throw e t' \<longrightarrow> e = OverrunException (tk - 1))"
  using sleeps_timerfd_counts[of tks t]
  by (simp add: Timer_sleep_timerfd_def count_ticks_Ok_iff)
     (auto simp: count_ticks_def Let_def split: if_splits)

theorem timerfd_accounting_witness:
  "mOverruns (sleeps_timerfd [1, 3] demo_timer) = mOverruns demo_timer + 2
   \<and> (\<forall>t'. Timer_sleep_timerfd 8 3 demo_timer \<noteq> Throw StdException t')"
  using timerfd_accounting[of "[1, 3]" demo_timer] by auto

text \<open>the life cycle of the timer. \<open>start\<close> works on a stopped timer only and \<open>stop\<close> on a
  running one only (the assertions); a successful \<open>start\<close> resets both counters and arms the
  kernel timer with the interval; \<open>stop\<close> disarms it; and the destructor leaves no running timer
  behind whenever the system call succeeds.\<close>

theorem timer_life_cycle:
  "(returned (Timer_start rt steady ret t) \<longleftrightarrow> mState t = stopped \<and> 0 \<le> ret)
   \<and> (returned (Timer_stop ret t) \<longleftrightarrow> mState t = running \<and> 0 \<le> ret)
   \<and> (\<forall>t'. Timer_start rt steady ret t = Ok t' \<longrightarrow> mState t' = running \<and> mTicks t' = 0
        \<and> mOverruns t' = 0 \<and> it_interval t' = to_timespec (mTickInterval t)
        \<and> returned (Timer_stop 0 t'))
   \<and> (\<forall>t'. Timer_stop ret t = Ok t' \<longrightarrow> mState t' = stopped \<and> it_value t' = ts_zero)
   \<and> (0 \<le> ret \<longrightarrow> (\<exists>t'. Timer_delete ret t = Ok t' \<and> mState t' = stopped))"
proof -
  have "returned (Timer_start rt steady ret t) \<longleftrightarrow> mState t = stopped \<and> 0 \<le> ret"
    by (auto simp: Timer_start_def Let_def)
  moreover have "returned (Timer_stop ret t) \<longleftrightarrow> mState t = running \<and> 0 \<le> ret"
    by (auto simp: Timer_stop_def)
  moreover have "\<exists>t'. Timer_delete ret t = Ok t' \<and> mState t' = stopped" if "0 \<le> ret"
    using that by (cases "mState t") (auto simp: Timer_delete_def Timer_stop_def)
  ultimately show ?thesis
    by (auto simp: Timer_start_Ok_iff) (auto simp: Timer_stop_def split: if_splits)
qed

theorem timer_life_cycle_witness:
  "returned (Timer_start 400 900 0 demo_timer)
   \<and> returned (Timer_stop 0 (final_state (Timer_start 400 900 0 demo_timer)))"
proof -
  have "mState demo_timer = stopped" by (simp add: demo_timer_def)
  then have "returned (Timer_start 400 900 0 demo_timer)"
    using timer_life_cycle[of 400 900 0 demo_timer] by simp
  then obtain t' where t': "Timer_start 400 900 0 demo_timer = Ok t'"
    by (cases "Timer_start 400 900 0 demo_timer") auto
  then have "returned (Timer_stop 0 t')" using timer_life_cycle[of 400 900 0 demo_timer] by blast
  with t' show ?thesis by simp
qed

lemma sub_sdiv_smod: "(d :: int) - d sdiv k * k = d smod k"
  by (metis minus_sdiv_mult_eq_smod)

text \<open>times are split exactly. \<open>to_timespec\<close> loses nothing and gives a valid nanosecond field
  for every non-negative time, and the parts the output operator prints for a duration add up to
  the duration.\<close>

theorem time_splits_exact:
  "tv_sec (to_timespec ns) * 1000000000 + tv_nsec (to_timespec ns) = ns
   \<and> (0 \<le> ns \<longrightarrow> 0 \<le> tv_nsec (to_timespec ns) \<and> tv_nsec (to_timespec ns) < 1000000000)
   \<and> sum_list (map2 (*) (duration_parts ns)
        [3600000000000, 60000000000, 1000000000, 1000000, 1000, 1]) = ns
   \<and> \<bar>duration_parts ns ! 5\<bar> < 1000"
proof -
  have "\<bar>x smod 1000\<bar> < 1000" for x :: int
    using smod_int_range[of 1000 x] by auto
  then show ?thesis
    by (simp add: to_timespec_def sdiv_mult_smod_eq smod_int_compares duration_parts_def Let_def)
       (simp add: sub_sdiv_smod)
qed

theorem time_splits_exact_witness:
  "0 \<le> tv_nsec (to_timespec 2500000000) \<and> tv_nsec (to_timespec 2500000000) < 1000000000"
  using time_splits_exact[of 2500000000] by simp

end
