(* ===== verification/Interface.thy ===== *)
theory Interface
  imports CpsLib Timer
begin

text \<open>
  The shared memory interface (\<open>Source/Interface.cpp\<close>, \<open>Include/dpsim/Interface.h\<close>).

  The VILLAS shared memory library is an argument, the record \<open>villas\<close>: its functions act on an
  opaque environment \<open>'e\<close> (the two queues, the sample pool, the other process). A data slot of a
  sample is a C union; \<open>'d\<close> is its content and the record \<open>slot_ops\<close> its members. Imports and
  exports are the closures the code registers: functions of a sample.

  The code relies on \<open>length\<close> and \<open>capacity\<close> of a sample being signed, so an index is an \<open>int\<close>
  and a negative one passes the checks; accessing the array there is undefined behaviour.
\<close>

section \<open>The library below\<close>

record 'd slot_ops =
  put_i :: "int \<Rightarrow> 'd"
  get_i :: "'d \<Rightarrow> int"
  put_f :: "real \<Rightarrow> 'd"
  get_f :: "'d \<Rightarrow> real"
  put_b :: "bool \<Rightarrow> 'd"
  get_b :: "'d \<Rightarrow> bool"
  put_z :: "real \<Rightarrow> real \<Rightarrow> 'd"
  get_z :: "'d \<Rightarrow> real \<times> real"

record 'd sample =
  sequence :: int
  s_length :: int
  capacity :: int
  ts_origin :: timespec
  s_data :: "'d list"

record shmem_conf =
  queuelen :: int
  samplelen :: int
  polling :: int

record ('d, 'e) villas =
  shmem_int_open :: "string \<Rightarrow> string \<Rightarrow> shmem_conf \<Rightarrow> 'e \<Rightarrow> int \<times> 'e"
  shmem_int_close :: "'e \<Rightarrow> 'e"
  shmem_int_alloc :: "'e \<Rightarrow> int \<times> 'd sample \<times> 'e"
  shmem_int_read :: "'d sample \<times> 'e \<Rightarrow> int \<times> 'd sample \<times> 'e"
  shmem_int_write :: "'d sample \<Rightarrow> 'e \<Rightarrow> int \<times> 'e"
  queue_signalled_available :: "'e \<Rightarrow> int"
  sample_decref :: "'d sample \<Rightarrow> 'e \<Rightarrow> 'e"
  sample_copy :: "'d sample \<Rightarrow> 'd sample \<Rightarrow> 'd sample"
  zero_floats :: "int \<Rightarrow> 'd list \<Rightarrow> 'd list"
  clock_realtime :: "'e \<Rightarrow> timespec"
  null_sample :: "'d sample"

section \<open>State\<close>

record ('d, 'w) interface =
  mImports :: "('d sample \<Rightarrow> 'w \<Rightarrow> 'w outcome) list"
  mExports :: "('w \<Rightarrow> 'd sample \<Rightarrow> 'd sample outcome) list"
  mLastSample :: "'d sample"
  mOpened :: bool
  mSequence :: int
  mRName :: string
  mWName :: string
  mConf :: shmem_conf

definition Interface_new_conf :: "('d, 'e) villas \<Rightarrow> string \<Rightarrow> string \<Rightarrow> shmem_conf \<Rightarrow> ('d, 'w) interface" where
  "Interface_new_conf vil wn rn conf =
     \<lparr>mImports = [], mExports = [], mLastSample = null_sample vil, mOpened = False, mSequence = 0,
      mRName = rn, mWName = wn, mConf = conf\<rparr>"

definition Interface_new :: "('d, 'e) villas \<Rightarrow> string \<Rightarrow> string \<Rightarrow> ('d, 'w) interface" where
  "Interface_new vil wn rn =
     Interface_new_conf vil wn rn \<lparr>queuelen = 512, samplelen = 64, polling = 0\<rparr>"

section \<open>Opening and closing\<close>

text \<open>\<open>open\<close> treats only a negative result of the allocation as a failure; with the result 0 nothing
  was allocated and the next line writes through an uninitialised pointer.\<close>

definition Interface_open ::
    "('d, 'e) villas \<Rightarrow> ('d, 'w) interface \<times> 'e \<Rightarrow> (('d, 'w) interface \<times> 'e) outcome" where
  "Interface_open vil s =
     (let (i, e) = s; (ret, e) = shmem_int_open vil (mWName i) (mRName i) (mConf i) e
      in if ret < 0 then Throw (ProcessExit 1) (i, e)
         else let i = i\<lparr>mSequence := 0\<rparr>; (ret, smp, e) = shmem_int_alloc vil e
              in if ret < 0 then Throw (ProcessExit 1) (i, e)
                 else if ret = 0 then Throw (UndefinedBehaviour ''mLastSample'') (i, e)
                 else Ok (i\<lparr>mLastSample := smp\<lparr>sequence := 0, ts_origin := ts_zero,
                              s_data := zero_floats vil (capacity smp) (s_data smp)\<rparr>\<rparr>, e))"

definition Interface_close :: "('d, 'e) villas \<Rightarrow> 'e \<Rightarrow> 'e" where
  "Interface_close vil e = shmem_int_close vil e"

definition Interface_delete :: "('d, 'e) villas \<Rightarrow> ('d, 'w) interface \<Rightarrow> 'e \<Rightarrow> 'e" where
  "Interface_delete vil i e = (if mOpened i then Interface_close vil e else e)"

section \<open>Imports and exports\<close>

definition addImport :: "('d sample \<Rightarrow> 'w \<Rightarrow> 'w outcome) \<Rightarrow> ('d, 'w) interface \<Rightarrow> ('d, 'w) interface" where
  "addImport f i = i\<lparr>mImports := mImports i @ [f]\<rparr>"

definition addExport ::
    "('w \<Rightarrow> 'd sample \<Rightarrow> 'd sample outcome) \<Rightarrow> ('d, 'w) interface \<Rightarrow> ('d, 'w) interface" where
  "addExport f i = i\<lparr>mExports := mExports i @ [f]\<rparr>"

text \<open>The body common to the four import closures: the length check, then the access.\<close>

definition import_at :: "('d \<Rightarrow> 'w \<Rightarrow> 'w outcome) \<Rightarrow> int \<Rightarrow> 'd sample \<Rightarrow> 'w \<Rightarrow> 'w outcome" where
  "import_at set_attr idx smp w =
     (if idx \<ge> s_length smp then Throw LengthError w
      else if idx < 0 \<or> int (length (s_data smp)) \<le> idx then Throw (UndefinedBehaviour ''data[idx]'') w
      else set_attr (s_data smp ! nat idx) w)"

definition addImport_Int ::
    "'w cps_attrs \<Rightarrow> 'd slot_ops \<Rightarrow> attr \<Rightarrow> int \<Rightarrow> ('d, 'w) interface \<Rightarrow> ('d, 'w) interface" where
  "addImport_Int cps so a idx = addImport (import_at (\<lambda>d. attr_set cps a (IntV (get_i so d))) idx)"

definition addImport_Real ::
    "'w cps_attrs \<Rightarrow> 'd slot_ops \<Rightarrow> attr \<Rightarrow> int \<Rightarrow> ('d, 'w) interface \<Rightarrow> ('d, 'w) interface" where
  "addImport_Real cps so a idx = addImport (import_at (\<lambda>d. attr_set cps a (RealV (get_f so d))) idx)"

definition addImport_Bool ::
    "'w cps_attrs \<Rightarrow> 'd slot_ops \<Rightarrow> attr \<Rightarrow> int \<Rightarrow> ('d, 'w) interface \<Rightarrow> ('d, 'w) interface" where
  "addImport_Bool cps so a idx = addImport (import_at (\<lambda>d. attr_set cps a (BoolV (get_b so d))) idx)"

definition addImport_Complex ::
    "'w cps_attrs \<Rightarrow> 'd slot_ops \<Rightarrow> attr \<Rightarrow> int \<Rightarrow> ('d, 'w) interface \<Rightarrow> ('d, 'w) interface" where
  "addImport_Complex cps so a idx =
     addImport (import_at (\<lambda>d. attr_set cps a (case get_z so d of (x, y) \<Rightarrow> ComplexV x y)) idx)"

text \<open>The body common to the four export closures; \<open>slot\<close> is the value of the attribute as a data
  slot.\<close>

definition export_at :: "('w \<Rightarrow> 'd) \<Rightarrow> int \<Rightarrow> 'w \<Rightarrow> 'd sample \<Rightarrow> 'd sample outcome" where
  "export_at slot idx w smp =
     (if idx \<ge> capacity smp then Throw OutOfRange smp
      else let smp = (if idx \<ge> s_length smp then smp\<lparr>s_length := idx + 1\<rparr> else smp)
           in if idx < 0 \<or> int (length (s_data smp)) \<le> idx
              then Throw (UndefinedBehaviour ''data[idx]'') smp
              else Ok (smp\<lparr>s_data := (s_data smp)[nat idx := slot w]\<rparr>))"

text \<open>The attribute's value as its declared type; other kinds cannot occur, the attribute being
  typed.\<close>

fun val_int :: "val \<Rightarrow> int" where
  "val_int (IntV i) = i" | "val_int (UIntV i) = i" | "val_int _ = 0"

fun val_real :: "val \<Rightarrow> real" where
  "val_real (RealV x) = x" | "val_real _ = 0"

fun val_bool :: "val \<Rightarrow> bool" where
  "val_bool (BoolV b) = b" | "val_bool _ = False"

fun val_complex :: "val \<Rightarrow> real \<times> real" where
  "val_complex (ComplexV x y) = (x, y)" | "val_complex _ = (0, 0)"

definition addExport_Int ::
    "'w cps_attrs \<Rightarrow> 'd slot_ops \<Rightarrow> attr \<Rightarrow> int \<Rightarrow> ('d, 'w) interface \<Rightarrow> ('d, 'w) interface" where
  "addExport_Int cps so a idx = addExport (export_at (\<lambda>w. put_i so (val_int (attr_get cps a w))) idx)"

definition addExport_Real ::
    "'w cps_attrs \<Rightarrow> 'd slot_ops \<Rightarrow> attr \<Rightarrow> int \<Rightarrow> ('d, 'w) interface \<Rightarrow> ('d, 'w) interface" where
  "addExport_Real cps so a idx = addExport (export_at (\<lambda>w. put_f so (val_real (attr_get cps a w))) idx)"

definition addExport_Bool ::
    "'w cps_attrs \<Rightarrow> 'd slot_ops \<Rightarrow> attr \<Rightarrow> int \<Rightarrow> ('d, 'w) interface \<Rightarrow> ('d, 'w) interface" where
  "addExport_Bool cps so a idx = addExport (export_at (\<lambda>w. put_b so (val_bool (attr_get cps a w))) idx)"

definition addExport_Complex ::
    "'w cps_attrs \<Rightarrow> 'd slot_ops \<Rightarrow> attr \<Rightarrow> int \<Rightarrow> ('d, 'w) interface \<Rightarrow> ('d, 'w) interface" where
  "addExport_Complex cps so a idx =
     addExport (export_at (\<lambda>w. case val_complex (attr_get cps a w) of (x, y) \<Rightarrow> put_z so x y) idx)"

section \<open>Reading and writing a sample\<close>

text \<open>What follows a successful read: the imports, with the sample released afterwards. The handler
  catches \<open>std::exception&\<close>, releases the sample and throws a copy of the caught base object, so the
  type of the exception is lost.\<close>

definition run_imports ::
    "'w cps_attrs \<Rightarrow> ('d, 'e) villas \<Rightarrow> ('d, 'w) interface \<Rightarrow> 'd sample \<Rightarrow> 'e \<times> 'w \<Rightarrow> ('e \<times> 'w) outcome" where
  "run_imports cps vil i smp s =
     (case for_each (\<lambda>imp. imp smp) (mImports i) (snd s) of
        Ok w \<Rightarrow> Ok (sample_decref vil smp (fst s), w)
      | Throw x w \<Rightarrow> (if is_std_exception cps x then Throw StdException (sample_decref vil smp (fst s), w)
                      else Throw x (fst s, w)))"

text \<open>\<open>readValues\<close>; \<open>None\<close>: the blocking read does not return.\<close>

definition readValues ::
    "'w cps_attrs \<Rightarrow> ('d, 'e) villas \<Rightarrow> ('d, 'w) interface \<Rightarrow> bool \<Rightarrow> 'e \<times> 'w \<Rightarrow> ('e \<times> 'w) outcome option" where
  "readValues cps vil i blocking s =
     (let (e, w) = s in
      if \<not> blocking then
        if queue_signalled_available vil e \<le> 0 then Some (Ok (e, w))
        else case shmem_int_read vil (null_sample vil, e) of (ret, smp, e) \<Rightarrow>
          if ret = 0 then Some (Ok (e, w))
          else if ret < 0 then Some (Throw (ProcessExit 1) (e, w))
          else Some (run_imports cps vil i smp (e, w))
      else
        case retry (shmem_int_read vil) (null_sample vil, e) of
          None \<Rightarrow> None
        | Some (ret, smp, e) \<Rightarrow>
            if ret < 0 then Some (Throw (ProcessExit 1) (e, w))
            else Some (run_imports cps vil i smp (e, w)))"

text \<open>\<open>writeValues\<close>. When an export throws, the handler sends the last sample again and swallows the
  exception; a failed write is only reported.\<close>

definition writeValues ::
    "'w cps_attrs \<Rightarrow> ('d, 'e) villas \<Rightarrow> 'w \<Rightarrow> ('d, 'w) interface \<times> 'e \<Rightarrow> (('d, 'w) interface \<times> 'e) outcome option" where
  "writeValues cps vil w s =
     (let (i, e) = s; (ret, smp, e) = shmem_int_alloc vil e in
      if ret < 1 then Some (Throw (ProcessExit 1) (i, e))
      else case for_each (\<lambda>ex. ex w) (mExports i) smp of
        Throw x smp \<Rightarrow>
          (if is_std_exception cps x then
             (case retry (shmem_int_write vil (mLastSample i)) e of
                None \<Rightarrow> None | Some (ret, e) \<Rightarrow> Some (Ok (i, e)))
           else Some (Throw x (i, e)))
      | Ok smp \<Rightarrow>
          (case int32_inc (mSequence i) of
             None \<Rightarrow> Some (Throw (UndefinedBehaviour ''mSequence++'') (i, e))
           | Some n \<Rightarrow>
               (let smp = smp\<lparr>sequence := mSequence i, ts_origin := clock_realtime vil e\<rparr>;
                    i = i\<lparr>mSequence := n\<rparr>
                in case retry (shmem_int_write vil smp) e of
                     None \<Rightarrow> None
                   | Some (ret, e) \<Rightarrow>
                       Some (Ok (i\<lparr>mLastSample := sample_copy vil (mLastSample i) smp\<rparr>, e)))))"

section \<open>Closures on well-formed samples\<close>

definition sample_ok :: "'d sample \<Rightarrow> bool" where
  "sample_ok smp \<longleftrightarrow> 0 \<le> s_length smp \<and> s_length smp \<le> capacity smp
     \<and> capacity smp = int (length (s_data smp))"

lemma export_at_Ok:
  "sample_ok smp \<Longrightarrow> 0 \<le> idx \<Longrightarrow> idx < capacity smp \<Longrightarrow>
   export_at slot idx w smp = Ok (smp\<lparr>s_length := max (s_length smp) (idx + 1),
     s_data := (s_data smp)[nat idx := slot w]\<rparr>)"
  by (auto simp: export_at_def sample_ok_def Let_def max_def)

lemma export_at_full: "capacity smp \<le> idx \<Longrightarrow> export_at slot idx w smp = Throw OutOfRange smp"
  by (simp add: export_at_def)

lemma import_after_export:
  assumes "sample_ok smp" and "0 \<le> idx" and "idx < capacity smp"
  shows "\<exists>smp'. export_at slot idx w smp = Ok smp' \<and> import_at put idx smp' w' = put (slot w) w'"
  using assms by (auto simp: export_at_Ok import_at_def sample_ok_def)

lemma exports_ok:
  assumes "sample_ok smp" and "\<forall>(slot, idx) \<in> set xs. 0 \<le> idx"
  shows "sample_ok (final_state (for_each (\<lambda>(slot, idx). export_at slot idx w) xs smp))
     \<and> capacity (final_state (for_each (\<lambda>(slot, idx). export_at slot idx w) xs smp)) = capacity smp
     \<and> (returned (for_each (\<lambda>(slot, idx). export_at slot idx w) xs smp)
          \<longleftrightarrow> (\<forall>(slot, idx) \<in> set xs. idx < capacity smp))"
  using assms
proof (induction xs arbitrary: smp)
  case (Cons x xs)
  obtain slot idx where x: "x = (slot, idx)" by (cases x)
  show ?case
  proof (cases "idx < capacity smp")
    case True
    define smp' where "smp' = smp\<lparr>s_length := max (s_length smp) (idx + 1),
        s_data := (s_data smp)[nat idx := slot w]\<rparr>"
    have step: "export_at slot idx w smp = Ok smp'"
      using Cons.prems x True by (simp add: export_at_Ok smp'_def)
    have ok: "sample_ok smp'" "capacity smp' = capacity smp"
      using Cons.prems x True by (auto simp: smp'_def sample_ok_def)
    have ih: "sample_ok (final_state (for_each (\<lambda>(slot, idx). export_at slot idx w) xs smp'))
       \<and> capacity (final_state (for_each (\<lambda>(slot, idx). export_at slot idx w) xs smp')) = capacity smp'
       \<and> (returned (for_each (\<lambda>(slot, idx). export_at slot idx w) xs smp')
          \<longleftrightarrow> (\<forall>(slot, idx) \<in> set xs. idx < capacity smp'))"
      using Cons.prems by (intro Cons.IH[OF ok(1)]) auto
    then show ?thesis using True ok(2) by (simp add: x step)
  next
    case False
    then show ?thesis using Cons.prems by (auto simp: x export_at_full)
  qed
qed simp

section \<open>Properties\<close>

text \<open>The documented behaviour of the union: a member reads back what was stored in it.\<close>

definition slots_ok :: "'d slot_ops \<Rightarrow> bool" where
  "slots_ok so \<longleftrightarrow> (\<forall>x. get_i so (put_i so x) = x) \<and> (\<forall>x. get_f so (put_f so x) = x)
     \<and> (\<forall>x. get_b so (put_b so x) = x) \<and> (\<forall>x y. get_z so (put_z so x y) = (x, y))"


text \<open>A concrete library for the examples: slots hold values, the environment is a pair of queues
  (samples to read, samples written); reading an empty queue returns -1.\<close>

definition demo_slots :: "val slot_ops" where
  "demo_slots = \<lparr>put_i = IntV, get_i = val_int, put_f = RealV, get_f = val_real,
     put_b = BoolV, get_b = val_bool, put_z = ComplexV, get_z = val_complex\<rparr>"

definition demo_sample :: "val sample" where
  "demo_sample = \<lparr>sequence = 0, s_length = 0, capacity = 4, ts_origin = ts_zero,
     s_data = replicate 4 (RealV 0)\<rparr>"

definition demo_villas :: "(val, val sample list \<times> val sample list) villas" where
  "demo_villas = \<lparr>shmem_int_open = (\<lambda>_ _ _ e. (0, e)), shmem_int_close = (\<lambda>e. e),
     shmem_int_alloc = (\<lambda>e. (1, demo_sample, e)),
     shmem_int_read = (\<lambda>(s, q, out). case q of [] \<Rightarrow> (-1, s, q, out) | x # q \<Rightarrow> (1, x, q, out)),
     shmem_int_write = (\<lambda>s (q, out). (1, q, out @ [s])),
     queue_signalled_available = (\<lambda>(q, out). int (length q)),
     sample_decref = (\<lambda>s e. e), sample_copy = (\<lambda>dst src. src), zero_floats = (\<lambda>n d. d),
     clock_realtime = (\<lambda>e. ts_zero), null_sample = demo_sample\<rparr>"

lemmas demo_villas_defs = demo_slots_def demo_sample_def demo_villas_def




lemma run_imports_releases:
  assumes "\<And>imp smp w x w'. imp \<in> set (mImports i) \<Longrightarrow> imp smp w = Throw x w' \<Longrightarrow> is_std_exception cps x"
  shows "case for_each (\<lambda>imp. imp smp) (mImports i) w of
       Ok w' \<Rightarrow> run_imports cps vil i smp (e, w) = Ok (sample_decref vil smp e, w')
     | Throw x w' \<Rightarrow> run_imports cps vil i smp (e, w) = Throw StdException (sample_decref vil smp e, w')"
proof -
  have "is_std_exception cps x" if "for_each (\<lambda>imp. imp smp) imps w = Throw x w'"
    and "set imps \<subseteq> set (mImports i)" for imps x w w'
    using that assms by (induction imps arbitrary: w) (auto simp: and_then_Throw_iff)
  then show ?thesis by (auto simp: run_imports_def split: outcome.splits)
qed

text \<open>C20: \<open>readValues\<close> never leaks a sample. Whenever it returns and the imports throw only standard
  exceptions, one of three things happened: it was called without blocking, and no sample was
  available or the read gave none, and nothing else changed; the last read attempt failed and the
  process exits; or a sample was obtained by the last read attempt, the imports ran on it, and it
  was released once, whether the imports succeeded or threw (in which case the exception that
  leaves is a plain \<open>std::exception\<close>).\<close>

theorem readValues_releases_sample:
  assumes std: "\<forall>imp smp w x w'. imp \<in> set (mImports i) \<longrightarrow> imp smp w = Throw x w' \<longrightarrow> is_std_exception cps x"
    and ret: "readValues cps vil i blocking (e, w) = Some r"
  shows "(\<not> blocking \<and> queue_signalled_available vil e \<le> 0 \<and> r = Ok (e, w))
     \<or> (\<not> blocking \<and> (\<exists>smp e'. shmem_int_read vil (null_sample vil, e) = (0, smp, e') \<and> r = Ok (e', w)))
     \<or> (\<exists>n rd smp e'. (rd, smp, e') = shmem_int_read vil ((retried (shmem_int_read vil) ^^ n) (null_sample vil, e))
          \<and> rd < 0 \<and> r = Throw (ProcessExit 1) (e', w))
     \<or> (\<exists>n rd smp e'. (rd, smp, e') = shmem_int_read vil ((retried (shmem_int_read vil) ^^ n) (null_sample vil, e))
          \<and> rd > 0 \<and> (case for_each (\<lambda>imp. imp smp) (mImports i) w of
               Ok w' \<Rightarrow> r = Ok (sample_decref vil smp e', w')
             | Throw x w' \<Rightarrow> r = Throw StdException (sample_decref vil smp e', w')))"
proof -
  have rel: "case for_each (\<lambda>imp. imp smp) (mImports i) w of
       Ok w' \<Rightarrow> run_imports cps vil i smp (e, w) = Ok (sample_decref vil smp e, w')
     | Throw x w' \<Rightarrow> run_imports cps vil i smp (e, w) = Throw StdException (sample_decref vil smp e, w')"
    for smp e
    using std by (intro run_imports_releases) blast
  show ?thesis
  proof (cases blocking)
    case False
    obtain rd smp e' where rd: "shmem_int_read vil (null_sample vil, e) = (rd, smp, e')"
      by (cases "shmem_int_read vil (null_sample vil, e)") auto
    have first: "(rd, smp, e') = shmem_int_read vil ((retried (shmem_int_read vil) ^^ 0) (null_sample vil, e))"
      by (simp add: rd)
    consider "queue_signalled_available vil e \<le> 0" "r = Ok (e, w)" | "rd = 0" "r = Ok (e', w)"
      | "rd < 0" "r = Throw (ProcessExit 1) (e', w)"
      | "rd > 0" "r = run_imports cps vil i smp (e', w)"
      using ret False by (auto simp: readValues_def rd split: if_splits)
    then show ?thesis
    proof cases
      case 3
      then show ?thesis using first by blast
    next
      case 4
      then show ?thesis using first rel[of smp e'] by blast
    qed (use False rd in auto)
  next
    case True
    then obtain rd smp e' where rt: "retry (shmem_int_read vil) (null_sample vil, e) = Some (rd, smp, e')"
      using ret by (auto simp: readValues_def split: option.splits)
    from retry_Some_nonzero[OF rt] obtain n where n: "rd \<noteq> 0"
      "(rd, smp, e') = shmem_int_read vil ((retried (shmem_int_read vil) ^^ n) (null_sample vil, e))"
      by auto
    show ?thesis
    proof (cases "rd < 0")
      case True
      then have "r = Throw (ProcessExit 1) (e', w)" using ret \<open>blocking\<close> rt by (auto simp: readValues_def)
      then show ?thesis using n True by blast
    next
      case False
      then have "r = run_imports cps vil i smp (e', w)" "rd > 0"
        using ret \<open>blocking\<close> rt n(1) by (auto simp: readValues_def)
      then show ?thesis using n rel[of smp e'] by blast
    qed
  qed
qed

text \<open>An interface whose only import is a closure of the user that reports an incomplete sample.\<close>

definition refusing_interface :: "(val, demo_world) interface" where
  "refusing_interface = addImport (\<lambda>smp w. Throw LengthError w) (Interface_new demo_villas ''/r'' ''/w'')"

lemma refusing_read:
  "readValues demo_cps demo_villas refusing_interface False (([demo_sample], []), demo_start)
   = Some (Throw StdException (([], []), demo_start))"
  by (simp add: refusing_interface_def addImport_def Interface_new_def Interface_new_conf_def
      readValues_def run_imports_def demo_villas_def)

theorem readValues_releases_sample_witness:
  "\<exists>n rd smp e'. (rd, smp, e') = shmem_int_read demo_villas
       ((retried (shmem_int_read demo_villas) ^^ n) (null_sample demo_villas, ([demo_sample], [])))
     \<and> rd > 0 \<and> ([], []) = sample_decref demo_villas smp e'"
proof -
  have "\<forall>imp smp w x w'. imp \<in> set (mImports refusing_interface) \<longrightarrow> imp smp w = Throw x w'
      \<longrightarrow> is_std_exception demo_cps x"
    by (auto simp: refusing_interface_def addImport_def Interface_new_def Interface_new_conf_def)
  moreover have "for_each (\<lambda>imp. imp smp) (mImports refusing_interface) demo_start
      = Throw LengthError demo_start" for smp
    by (simp add: refusing_interface_def addImport_def Interface_new_def Interface_new_conf_def)
  ultimately show ?thesis using readValues_releases_sample[OF _ refusing_read] by force
qed




text \<open>the destructor never closes the interface. \<open>open\<close> does not record that it succeeded:
  \<open>mOpened\<close> stays false, so destroying an interface after a successful \<open>open\<close> leaves the shared
  memory mapped.\<close>

theorem destructor_does_not_close:
  assumes "Interface_open vil (Interface_new vil wn rn, e) = Ok (i, e')"
  shows "Interface_delete vil i e' = e'"
  using assms
  by (auto simp: Interface_open_def Interface_new_def Interface_new_conf_def Interface_delete_def
      Let_def split: prod.splits if_splits)

theorem destructor_does_not_close_witness:
  "Interface_delete demo_villas
     (fst (final_state (Interface_open demo_villas (Interface_new demo_villas ''/w'' ''/r'', ([], []))))) ([], [])
   = ([], [])"
  by (rule destructor_does_not_close[where wn = "''/w''" and rn = "''/r''" and e = "([], [])"])
     (simp add: Interface_open_def Interface_new_def Interface_new_conf_def demo_villas_def)

end
