(* ===== verification/DataLogger.thy ===== *)
theory DataLogger
  imports CpsLib TextOutput "HOL-Library.Char_ord" "HOL-Library.List_Lexorder"
begin

text \<open>
  The data logger (\<open>Source/DataLogger.cpp\<close>, \<open>Include/dpsim/DataLogger.h\<close>), which writes
  comma separated values.

  The output stream is the text written so far and whether the file is open: on a file that is
  not open \<open>tellp()\<close> is -1 and output is dropped. How a number becomes text (\<open>std::scientific\<close>)
  is the argument \<open>fmt\<close>; padding and separators are modelled. \<open>std::map\<close> is an association list
  kept in the order of its keys, which is the order of iteration.
\<close>

section \<open>State\<close>

text \<open>The dynamic types \<open>addAttribute\<close> distinguishes; a complex attribute offers its real and
  imaginary part as attributes, a matrix attribute its coefficients.\<close>

datatype attribute =
    IntAttr attr
  | RealAttr attr
  | ComplexAttr attr attr
  | RealMatAttr nat nat "nat \<Rightarrow> nat \<Rightarrow> attr"
  | CompMatAttr nat nat "nat \<Rightarrow> nat \<Rightarrow> attr \<times> attr"
  | OtherAttr

record logger =
  mLogOpen :: bool
  mLogFile :: string
  mEnabled :: bool
  mAttributes :: "(string \<times> attr) list"

fun map_put :: "'k::linorder \<Rightarrow> 'v \<Rightarrow> ('k \<times> 'v) list \<Rightarrow> ('k \<times> 'v) list" where
  "map_put k v [] = [(k, v)]"
| "map_put k v ((k', v') # xs) =
     (if k < k' then (k, v) # (k', v') # xs
      else if k = k' then (k, v) # xs
      else (k', v') # map_put k v xs)"

section \<open>Operations\<close>

text \<open>The constructor; \<open>opened\<close> says whether opening the file succeeded.\<close>

definition DataLogger_new :: "bool \<Rightarrow> bool \<Rightarrow> logger" where
  "DataLogger_new opened enabled =
     (if \<not> enabled then \<lparr>mLogOpen = False, mLogFile = [], mEnabled = False, mAttributes = []\<rparr>
      else \<lparr>mLogOpen = opened, mLogFile = [], mEnabled = opened, mAttributes = []\<rparr>)"

definition DataLogger_delete :: "logger \<Rightarrow> logger" where
  "DataLogger_delete l = (if mLogOpen l then l\<lparr>mLogOpen := False\<rparr> else l)"

text \<open>\<open>flush\<close> moves buffered characters to the file; \<open>mLogFile\<close> counts a character as soon as it is
  in the stream, so the text does not change.\<close>

definition DataLogger_flush :: "logger \<Rightarrow> logger" where
  "DataLogger_flush l = l"

definition emit :: "string \<Rightarrow> logger \<Rightarrow> logger" where
  "emit s l = (if mLogOpen l then l\<lparr>mLogFile := mLogFile l @ s\<rparr> else l)"

definition tellp :: "logger \<Rightarrow> int" where
  "tellp l = (if mLogOpen l then int (length (mLogFile l)) else -1)"

text \<open>\<open>std::right << std::setw(n)\<close> with the default fill character.\<close>

definition cell :: "nat \<Rightarrow> string \<Rightarrow> string" where
  "cell n s = setw_right (CHR '' '') n s"

definition write_cells :: "string list \<Rightarrow> logger \<Rightarrow> logger" where
  "write_cells xs l = fold (\<lambda>x l. emit ('', '' @ cell 13 x) l) xs l"

definition setColumnNames :: "string list \<Rightarrow> logger \<Rightarrow> logger" where
  "setColumnNames names l =
     (if tellp l = 0 then emit ''\<newline>'' (write_cells names (emit (cell 14 ''time'') l)) else l)"

definition logDataLine_real :: "(real \<Rightarrow> string) \<Rightarrow> real \<Rightarrow> real \<Rightarrow> logger \<Rightarrow> logger" where
  "logDataLine_real fmt time data l =
     (if \<not> mEnabled l then l
      else emit ''\<newline>'' (emit ('', '' @ cell 13 (fmt data)) (emit (cell 14 (fmt time)) l)))"

text \<open>The two overloads for matrices, over the entries of column 0; \<open>fmtc\<close> formats a complex
  number.\<close>

definition logDataLine_matrix :: "(real \<Rightarrow> string) \<Rightarrow> real \<Rightarrow> real list \<Rightarrow> logger \<Rightarrow> logger" where
  "logDataLine_matrix fmt time data l =
     (if \<not> mEnabled l then l
      else emit ''\<newline>'' (write_cells (map fmt data) (emit (cell 14 (fmt time)) l)))"

definition logDataLine_complex ::
    "(real \<Rightarrow> string) \<Rightarrow> (complex \<Rightarrow> string) \<Rightarrow> real \<Rightarrow> complex list \<Rightarrow> logger \<Rightarrow> logger" where
  "logDataLine_complex fmt fmtc time data l =
     (if \<not> mEnabled l then l
      else emit ''\<newline>'' (write_cells (map fmtc data) (emit (cell 14 (fmt time)) l)))"

definition node_name :: "nat \<Rightarrow> string" where
  "node_name i = ''node'' @ setw_right (CHR ''0'') 5 (show_nat i)"

definition phasor_names :: "nat \<Rightarrow> string list" where
  "phasor_names rows = map (\<lambda>i. if i < rows div 2 then node_name i @ ''_re''
     else node_name (i - rows div 2) @ ''_im'') [0..<rows]"

definition emt_names :: "nat \<Rightarrow> string list" where
  "emt_names rows = map node_name [0..<rows]"

definition logPhasorNodeValues :: "(real \<Rightarrow> string) \<Rightarrow> real \<Rightarrow> real list \<Rightarrow> logger \<Rightarrow> logger" where
  "logPhasorNodeValues fmt time data l =
     logDataLine_matrix fmt time data
       (if tellp l = 0 then setColumnNames (phasor_names (length data)) l else l)"

definition logEMTNodeValues :: "(real \<Rightarrow> string) \<Rightarrow> real \<Rightarrow> real list \<Rightarrow> logger \<Rightarrow> logger" where
  "logEMTNodeValues fmt time data l =
     logDataLine_matrix fmt time data
       (if tellp l = 0 then setColumnNames (emt_names (length data)) l else l)"

text \<open>\<open>log\<close>; \<open>toString\<close> is the attribute's text in the current world.\<close>

definition DataLogger_log ::
    "(real \<Rightarrow> string) \<Rightarrow> (attr \<Rightarrow> 'w \<Rightarrow> string) \<Rightarrow> real \<Rightarrow> 'w \<Rightarrow> logger \<Rightarrow> logger" where
  "DataLogger_log fmt toString time w l =
     (let l = (if tellp l = 0
               then emit ''\<newline>'' (write_cells (map fst (mAttributes l)) (emit (cell 14 ''time'') l))
               else l)
      in emit ''\<newline>'' (write_cells (map (\<lambda>it. toString (snd it) w) (mAttributes l))
           (emit (cell 14 (fmt time)) l)))"

text \<open>The overloads of \<open>addAttribute\<close>.\<close>

definition put_attr :: "string \<Rightarrow> attr \<Rightarrow> logger \<Rightarrow> logger" where
  "put_attr name a l = l\<lparr>mAttributes := map_put name a (mAttributes l)\<rparr>"

definition addAttribute_complex :: "string \<Rightarrow> attr \<times> attr \<Rightarrow> logger \<Rightarrow> logger" where
  "addAttribute_complex name a l = put_attr (name @ ''.imag'') (snd a) (put_attr (name @ ''.real'') (fst a) l)"

definition coeff_name :: "string \<Rightarrow> nat \<Rightarrow> nat \<Rightarrow> nat \<Rightarrow> nat \<Rightarrow> string" where
  "coeff_name name rows cols k l =
     (if rows = 1 \<and> cols = 1 then name
      else if cols = 1 then name @ ''('' @ show_nat k @ '')''
      else name @ ''('' @ show_nat k @ '', '' @ show_nat l @ '')'')"

definition coeff_indices :: "nat \<Rightarrow> nat \<Rightarrow> (nat \<times> nat) list" where
  "coeff_indices rows cols = List.product [0..<rows] [0..<cols]"

definition addAttribute_matrix ::
    "(string \<Rightarrow> 'b \<Rightarrow> logger \<Rightarrow> logger) \<Rightarrow> string \<Rightarrow> nat \<Rightarrow> nat \<Rightarrow> (nat \<Rightarrow> nat \<Rightarrow> 'b) \<Rightarrow> logger \<Rightarrow> logger" where
  "addAttribute_matrix add name rows cols coeff l =
     fold (\<lambda>(k, j). add (coeff_name name rows cols k j) (coeff k j)) (coeff_indices rows cols) l"

fun addAttribute :: "string \<Rightarrow> attribute \<Rightarrow> logger \<Rightarrow> logger outcome" where
  "addAttribute name (IntAttr a) l = Ok (put_attr name a l)"
| "addAttribute name (RealAttr a) l = Ok (put_attr name a l)"
| "addAttribute name (ComplexAttr re im) l = Ok (addAttribute_complex name (re, im) l)"
| "addAttribute name (RealMatAttr rows cols coeff) l =
     Ok (addAttribute_matrix put_attr name rows cols coeff l)"
| "addAttribute name (CompMatAttr rows cols coeff) l =
     Ok (addAttribute_matrix addAttribute_complex name rows cols coeff l)"
| "addAttribute name OtherAttr l = Throw InvalidAttributeException l"

definition addNode :: "string \<Rightarrow> attribute \<Rightarrow> logger \<Rightarrow> logger outcome" where
  "addNode name voltage l = addAttribute (name @ ''.voltage'') voltage l"

section \<open>What the writers promise\<close>

text \<open>One line of the file: the first field is 14 wide, the others 13.\<close>

definition csv_line :: "string list \<Rightarrow> string" where
  "csv_line fs = cell 14 (hd fs) @ concat (map (\<lambda>x. '', '' @ cell 13 x) (tl fs)) @ ''\<newline>''"

lemma csv_line_nonempty [simp]: "csv_line fs \<noteq> []"
  by (simp add: csv_line_def)

text \<open>
  A table writer: the first call on an empty file writes a header and a row, every later call a
  row; header and rows have the same number of fields; nothing is written to a closed file.
\<close>

locale table_writer =
  fixes "write" :: "'r \<Rightarrow> logger \<Rightarrow> logger"
    and header :: "(string \<times> attr) list \<Rightarrow> 'r \<Rightarrow> string list"
    and row :: "(string \<times> attr) list \<Rightarrow> 'r \<Rightarrow> string list"
  assumes write_first: "mLogOpen l \<Longrightarrow> mEnabled l \<Longrightarrow> mLogFile l = [] \<Longrightarrow>
      write r l = l\<lparr>mLogFile := csv_line (header (mAttributes l) r) @ csv_line (row (mAttributes l) r)\<rparr>"
    and write_next: "mLogOpen l \<Longrightarrow> mEnabled l \<Longrightarrow> mLogFile l \<noteq> [] \<Longrightarrow>
      write r l = l\<lparr>mLogFile := mLogFile l @ csv_line (row (mAttributes l) r)\<rparr>"
    and write_closed: "\<not> mLogOpen l \<Longrightarrow> write r l = l"
    and same_width: "length (header as r) = length (row as r)"
begin

lemma rows_appended:
  assumes "mLogOpen l" and "mEnabled l" and "mLogFile l \<noteq> []"
  shows "fold write rs l = l\<lparr>mLogFile := mLogFile l @ concat (map (\<lambda>r. csv_line (row (mAttributes l) r)) rs)\<rparr>"
  using assms by (induction rs arbitrary: l) (simp_all add: write_next)

lemma table:
  assumes "mLogOpen l" and "mEnabled l" and "mLogFile l = []"
  shows "fold write (r # rs) l = l\<lparr>mLogFile := csv_line (header (mAttributes l) r)
           @ concat (map (\<lambda>r. csv_line (row (mAttributes l) r)) (r # rs))\<rparr>"
  using assms by (simp add: write_first rows_appended)

lemma closed_file: "\<not> mLogOpen l \<Longrightarrow> fold write rs l = l"
  by (induction rs) (simp_all add: write_closed)

end

lemma emit_open: "mLogOpen l \<Longrightarrow> emit s l = l\<lparr>mLogFile := mLogFile l @ s\<rparr>"
  by (simp add: emit_def)

lemma emit_closed: "\<not> mLogOpen l \<Longrightarrow> emit s l = l"
  by (simp add: emit_def)

lemma write_cells_open:
  "mLogOpen l \<Longrightarrow>
   write_cells xs l = l\<lparr>mLogFile := mLogFile l @ concat (map (\<lambda>x. '', '' @ cell 13 x) xs)\<rparr>"
  by (induction xs arbitrary: l) (simp_all add: write_cells_def emit_open)

lemma write_cells_closed: "\<not> mLogOpen l \<Longrightarrow> write_cells xs l = l"
  by (induction xs arbitrary: l) (simp_all add: write_cells_def emit_closed)

lemma tellp_0_iff: "tellp l = 0 \<longleftrightarrow> mLogOpen l \<and> mLogFile l = []"
  by (simp add: tellp_def)

lemmas writer_simps = emit_open emit_closed write_cells_open write_cells_closed tellp_0_iff
  setColumnNames_def logDataLine_matrix_def csv_line_def

interpretation phasor_writer: table_writer "\<lambda>(t, d). logPhasorNodeValues fmt t d"
    "\<lambda>_ (t, d). ''time'' # phasor_names (length d)" "\<lambda>_ (t, d). fmt t # map fmt d"
  for fmt :: "real \<Rightarrow> string"
  by unfold_locales (auto simp: logPhasorNodeValues_def writer_simps phasor_names_def)

interpretation emt_writer: table_writer "\<lambda>(t, d). logEMTNodeValues fmt t d"
    "\<lambda>_ (t, d). ''time'' # emt_names (length d)" "\<lambda>_ (t, d). fmt t # map fmt d"
  for fmt :: "real \<Rightarrow> string"
  by unfold_locales (auto simp: logEMTNodeValues_def writer_simps emt_names_def)

interpretation attr_writer: table_writer "\<lambda>(t, w). DataLogger_log fmt toString t w"
    "\<lambda>as _. ''time'' # map fst as" "\<lambda>as (t, w). fmt t # map (\<lambda>a. toString (snd a) w) as"
  for fmt :: "real \<Rightarrow> string" and toString :: "attr \<Rightarrow> 'w \<Rightarrow> string"
  by unfold_locales (auto simp: DataLogger_log_def writer_simps Let_def)

section \<open>The attribute map\<close>

abbreviation map_ok :: "('k::linorder \<times> 'v) list \<Rightarrow> bool" where
  "map_ok xs \<equiv> sorted_wrt (<) (map fst xs)"

lemma set_map_put: "set (map fst (map_put k v xs)) = insert k (set (map fst xs))"
  by (induction k v xs rule: map_put.induct) auto

lemma map_ok_put: "map_ok xs \<Longrightarrow> map_ok (map_put k v xs)"
proof (induction k v xs rule: map_put.induct)
  case (2 k v k' v' xs)
  then show ?case using set_map_put[of k v xs] by (auto simp: not_less_iff_gr_or_eq)
qed simp

lemma map_of_put: "map_ok xs \<Longrightarrow> map_of (map_put k v xs) = (map_of xs)(k \<mapsto> v)"
  by (induction k v xs rule: map_put.induct) (auto simp: fun_eq_iff map_of_eq_None_iff)

text \<open>Registering a list of named attributes.\<close>

definition put_attrs :: "(string \<times> attr) list \<Rightarrow> logger \<Rightarrow> logger" where
  "put_attrs kvs l = fold (\<lambda>(k, v). put_attr k v) kvs l"

lemma put_attrs_append: "put_attrs (xs @ ys) l = put_attrs ys (put_attrs xs l)"
  by (simp add: put_attrs_def)

lemma put_attrs_map:
  assumes "map_ok (mAttributes l)"
  shows "map_ok (mAttributes (put_attrs kvs l))
     \<and> map_of (mAttributes (put_attrs kvs l)) = map_of (mAttributes l) ++ map_of (rev kvs)"
  using assms
proof (induction kvs arbitrary: l)
  case (Cons kv kvs)
  obtain k v where kv: "kv = (k, v)" by (cases kv)
  have ok: "map_ok (mAttributes (put_attr k v l))"
    using Cons.prems by (simp add: put_attr_def map_ok_put)
  have "map_of (mAttributes (put_attr k v l)) = (map_of (mAttributes l))(k \<mapsto> v)"
    using Cons.prems by (simp add: put_attr_def map_of_put)
  then have eq: "map_of (mAttributes (put_attr k v l)) = map_of (mAttributes l) ++ [k \<mapsto> v]" by simp
  have step: "put_attrs (kv # kvs) l = put_attrs kvs (put_attr k v l)" by (simp add: put_attrs_def kv)
  have "map_of (mAttributes (put_attrs (kv # kvs) l))
      = (map_of (mAttributes l) ++ [k \<mapsto> v]) ++ map_of (rev kvs)"
    using Cons.IH[OF ok] by (simp only: step eq)
  also have "\<dots> = map_of (mAttributes l) ++ map_of (rev (kv # kvs))"
    by (simp only: kv rev.simps map_of_append map_add_assoc[symmetric]) simp
  finally show ?case using Cons.IH[OF ok] step by simp
qed (simp add: put_attrs_def)

lemma put_attrs_lookup:
  assumes "map_ok (mAttributes l)" and "distinct (map fst kvs)" and "(k, v) \<in> set kvs"
  shows "map_of (mAttributes (put_attrs kvs l)) k = Some v"
proof -
  have "map_of (rev kvs) k = Some v" using assms(2,3) by (simp add: rev_map[symmetric])
  then show ?thesis using put_attrs_map[OF assms(1), of kvs] by simp
qed

text \<open>What each overload registers.\<close>

fun registered :: "string \<Rightarrow> attribute \<Rightarrow> (string \<times> attr) list" where
  "registered name (IntAttr a) = [(name, a)]"
| "registered name (RealAttr a) = [(name, a)]"
| "registered name (ComplexAttr re im) = [(name @ ''.real'', re), (name @ ''.imag'', im)]"
| "registered name (RealMatAttr rows cols coeff) =
     map (\<lambda>(k, j). (coeff_name name rows cols k j, coeff k j)) (coeff_indices rows cols)"
| "registered name (CompMatAttr rows cols coeff) =
     concat (map (\<lambda>(k, j). [(coeff_name name rows cols k j @ ''.real'', fst (coeff k j)),
        (coeff_name name rows cols k j @ ''.imag'', snd (coeff k j))]) (coeff_indices rows cols))"
| "registered name OtherAttr = []"

lemma fold_put_attrs: "fold (\<lambda>x. put_attrs (f x)) xs l = put_attrs (concat (map f xs)) l"
  by (induction xs arbitrary: l) (simp_all add: put_attrs_append, simp add: put_attrs_def)

lemma put_attr_attrs: "put_attr k v = put_attrs [(k, v)]"
  by (simp add: put_attrs_def fun_eq_iff)

lemma addAttribute_complex_attrs:
  "addAttribute_complex name a = put_attrs [(name @ ''.real'', fst a), (name @ ''.imag'', snd a)]"
  by (simp add: put_attrs_def addAttribute_complex_def fun_eq_iff)

lemma addAttribute_registered:
  "a \<noteq> OtherAttr \<Longrightarrow> addAttribute name a l = Ok (put_attrs (registered name a) l)"
proof (cases a)
  case (RealMatAttr rows cols coeff)
  then show ?thesis
    by (simp add: addAttribute_matrix_def put_attr_attrs case_prod_unfold fold_put_attrs)
next
  case (CompMatAttr rows cols coeff)
  then show ?thesis
    by (simp add: addAttribute_matrix_def addAttribute_complex_attrs case_prod_unfold fold_put_attrs)
qed (simp_all add: put_attr_attrs addAttribute_complex_attrs)

section \<open>Names\<close>

lemma distinct_coeff_indices: "distinct (coeff_indices rows cols)"
  by (simp add: coeff_indices_def distinct_product)

lemma set_coeff_indices: "(k, j) \<in> set (coeff_indices rows cols) \<longleftrightarrow> k < rows \<and> j < cols"
  by (auto simp: coeff_indices_def)

lemma coeff_name_inj:
  assumes "(k, j) \<in> set (coeff_indices rows cols)" and "(k', j') \<in> set (coeff_indices rows cols)"
    and "coeff_name name rows cols k j = coeff_name name rows cols k' j'"
  shows "k = k' \<and> j = j'"
proof -
  have "k < rows" "j < cols" "k' < rows" "j' < cols" using assms(1,2) by (auto simp: set_coeff_indices)
  then show ?thesis
    using assms(3) comma_split[of "show_nat k" "show_nat k'"] no_comma_show_nat
    by (auto simp: coeff_name_def split: if_splits)
qed

lemma distinct_registered: "distinct (map fst (registered name a))"
proof (cases a)
  case (RealMatAttr rows cols coeff)
  have "inj_on (\<lambda>(k, j). coeff_name name rows cols k j) (set (coeff_indices rows cols))"
    by (auto simp: inj_on_def dest: coeff_name_inj)
  then show ?thesis
    using RealMatAttr by (simp add: distinct_map distinct_coeff_indices comp_def case_prod_unfold)
next
  case (CompMatAttr rows cols coeff)
  have "distinct (concat (map (\<lambda>(k, j). [coeff_name name rows cols k j @ ''.real'',
      coeff_name name rows cols k j @ ''.imag'']) xs))"
    if "distinct xs" "set xs \<subseteq> set (coeff_indices rows cols)" for xs
    using that
  proof (induction xs)
    case (Cons x xs)
    obtain k j where x: "x = (k, j)" by (cases x)
    have "coeff_name name rows cols k j \<noteq> coeff_name name rows cols k' j'" if "(k', j') \<in> set xs" for k' j'
      using coeff_name_inj[of k j rows cols k' j' name] Cons.prems that x by auto
    then show ?case using Cons x by auto
  qed simp
  from this[OF distinct_coeff_indices] show ?thesis
    using CompMatAttr by (simp add: map_concat comp_def case_prod_unfold)
qed auto

section \<open>Properties\<close>

text \<open>the phasor log is one table. On a freshly opened logger, any non-empty sequence of
  \<open>logPhasorNodeValues\<close> calls writes exactly one header, with a name for every row of the first
  vector, followed by one line per call holding the time and the vector.\<close>

theorem phasor_log_is_table:
  "mLogFile (fold (\<lambda>(t, d). logPhasorNodeValues fmt t d) ((t0, d0) # calls) (DataLogger_new True True))
   = csv_line (''time'' # phasor_names (length d0))
     @ concat (map (\<lambda>(t, d). csv_line (fmt t # map fmt d)) ((t0, d0) # calls))"
  using phasor_writer.table[of "DataLogger_new True True" fmt "(t0, d0)" calls]
  by (simp add: DataLogger_new_def case_prod_unfold)

text \<open>the attribute log is one table: \<open>log\<close> called any number of times with the same registered
  attributes writes one header with their names, in the order of the names, and one line per call
  with their values at that time, with as many fields as the header.\<close>

theorem attribute_log_is_table:
  assumes "mLogOpen l" and "mEnabled l" and "mLogFile l = []"
  shows "mLogFile (fold (\<lambda>(t, w). DataLogger_log fmt toString t w) ((t0, w0) # calls) l)
   = csv_line (''time'' # map fst (mAttributes l))
     @ concat (map (\<lambda>(t, w). csv_line (fmt t # map (\<lambda>a. toString (snd a) w) (mAttributes l)))
          ((t0, w0) # calls))"
  using attr_writer.table[OF assms, of fmt toString "(t0, w0)" calls] by (simp add: case_prod_unfold)

theorem attribute_log_is_table_witness:
  "mLogFile (fold (\<lambda>(t, w). DataLogger_log (\<lambda>_. ''x'') (\<lambda>_ _. ''v'') t w) ((0, ()) # [(1, ())])
      (put_attr ''R1.i'' 4 (DataLogger_new True True)))
   = csv_line (''time'' # map fst (mAttributes (put_attr ''R1.i'' 4 (DataLogger_new True True))))
     @ concat (map (\<lambda>(t, w). csv_line (''x'' # map (\<lambda>a. ''v'')
          (mAttributes (put_attr ''R1.i'' 4 (DataLogger_new True True))))) ((0, ()) # [(1, ())]))"
  using attribute_log_is_table[of "put_attr ''R1.i'' 4 (DataLogger_new True True)"
      "\<lambda>_. ''x''" "\<lambda>_ _. ''v''" 0 "()" "[(1, ())]"]
  by (simp add: DataLogger_new_def put_attr_def)

text \<open>a logger that is disabled, or whose file could not be opened, stays silent: no sequence
  of node value or attribute logging calls changes it.\<close>

theorem disabled_logger_silent:
  assumes "\<not> (opened \<and> enabled)"
  shows "fold (\<lambda>(t, d). logPhasorNodeValues fmt t d) calls (DataLogger_new opened enabled)
        = DataLogger_new opened enabled
     \<and> fold (\<lambda>(t, d). logEMTNodeValues fmt t d) calls (DataLogger_new opened enabled)
        = DataLogger_new opened enabled
     \<and> fold (\<lambda>(t, w). DataLogger_log fmt toString t w) lines (DataLogger_new opened enabled)
        = DataLogger_new opened enabled"
proof -
  have "\<not> mLogOpen (DataLogger_new opened enabled)" using assms by (auto simp: DataLogger_new_def)
  then show ?thesis
    using phasor_writer.closed_file emt_writer.closed_file attr_writer.closed_file by blast
qed

theorem disabled_logger_silent_witness:
  "fold (\<lambda>(t, d). logPhasorNodeValues (\<lambda>_. ''x'') t d) [(0, [1])] (DataLogger_new False True)
        = DataLogger_new False True
     \<and> fold (\<lambda>(t, d). logEMTNodeValues (\<lambda>_. ''x'') t d) [(0, [1])] (DataLogger_new False True)
        = DataLogger_new False True
     \<and> fold (\<lambda>(t, w). DataLogger_log (\<lambda>_. ''x'') (\<lambda>_ (_ :: unit). ''v'') t w) [(0, ())]
          (DataLogger_new False True) = DataLogger_new False True"
  by (rule disabled_logger_silent) simp

text \<open>the column names of a node vector are right and unambiguous. For a complex vector with
  \<open>n\<close> nodes the names are pairwise different, name \<open>i\<close> and name \<open>n + i\<close> are the real and imaginary
  part of node \<open>i\<close>; for a real vector the names are pairwise different as well.\<close>

theorem column_names_unambiguous:
  "distinct (phasor_names (2 * n)) \<and> distinct (emt_names n)
   \<and> (\<forall>i < n. phasor_names (2 * n) ! i = node_name i @ ''_re''
        \<and> phasor_names (2 * n) ! (n + i) = node_name i @ ''_im'')"
proof -
  have inj: "node_name i = node_name j \<longleftrightarrow> i = j" for i j by (simp add: node_name_def)
  show ?thesis
    by (auto simp: phasor_names_def emt_names_def distinct_map inj_on_def inj)
qed

theorem column_names_unambiguous_witness:
  "phasor_names (2 * 3) ! 2 = node_name 2 @ ''_re'' \<and> phasor_names (2 * 3) ! (3 + 2) = node_name 2 @ ''_im''"
proof -
  have "(2 :: nat) < 3" by simp
  then show ?thesis using column_names_unambiguous[of 3] by blast
qed

text \<open>\<open>addAttribute\<close> registers an attribute under unambiguous names. On every kind of attribute
  it succeeds, keeps the map well formed, makes every part (the value, the real and imaginary
  part, each matrix coefficient) available under its own name, and leaves all other entries alone;
  an attribute of another type is refused without effect.\<close>

theorem addAttribute_registers:
  assumes "map_ok (mAttributes l)"
  shows "addAttribute name OtherAttr l = Throw InvalidAttributeException l
     \<and> (a \<noteq> OtherAttr \<longrightarrow> (\<exists>l'. addAttribute name a l = Ok l' \<and> map_ok (mAttributes l')
         \<and> (\<forall>(k, v) \<in> set (registered name a). map_of (mAttributes l') k = Some v)
         \<and> (\<forall>k. k \<notin> fst ` set (registered name a)
               \<longrightarrow> map_of (mAttributes l') k = map_of (mAttributes l) k)))"
proof -
  let ?l = "put_attrs (registered name a) l"
  have "map_of (mAttributes ?l) k = map_of (mAttributes l) k"
    if "k \<notin> fst ` set (registered name a)" for k
  proof -
    have "map_of (rev (registered name a)) k = None" using that by (simp add: map_of_eq_None_iff)
    then show ?thesis using put_attrs_map[OF assms, of "registered name a"] by (simp add: map_add_def)
  qed
  moreover have "map_ok (mAttributes ?l)" using put_attrs_map[OF assms] by blast
  moreover have "\<forall>(k, v) \<in> set (registered name a). map_of (mAttributes ?l) k = Some v"
    using put_attrs_lookup[OF assms distinct_registered] by blast
  ultimately have "\<exists>l'. addAttribute name a l = Ok l' \<and> map_ok (mAttributes l')
         \<and> (\<forall>(k, v) \<in> set (registered name a). map_of (mAttributes l') k = Some v)
         \<and> (\<forall>k. k \<notin> fst ` set (registered name a)
               \<longrightarrow> map_of (mAttributes l') k = map_of (mAttributes l) k)" if "a \<noteq> OtherAttr"
    using addAttribute_registered[OF that, of name l] by blast
  then show ?thesis by simp
qed

theorem addAttribute_registers_witness:
  "\<exists>l'. addAttribute ''n.v'' (CompMatAttr 2 1 (\<lambda>k j. (10 * k, 10 * k + 1))) (DataLogger_new True True) = Ok l'
      \<and> map_of (mAttributes l') ''n.v(1).imag'' = Some 11"
proof -
  have "map_ok (mAttributes (DataLogger_new True True))" by (simp add: DataLogger_new_def)
  moreover have "(''n.v(1).imag'', 11)
      \<in> set (registered ''n.v'' (CompMatAttr 2 1 (\<lambda>k j. (10 * k, 10 * k + 1))))"
    by code_simp
  ultimately show ?thesis
    using addAttribute_registers[of "DataLogger_new True True" "''n.v''"
        "CompMatAttr 2 1 (\<lambda>k j. (10 * k, 10 * k + 1))"] by blast
qed

end
