(* ===== verification/MNASolver.thy ===== *)
theory MNASolver
  imports CpsLib DataLogger
begin

text \<open>
  The solver for modified nodal analysis (\<open>Source/MNASolver.cpp\<close>, \<open>Include/dpsim/MNASolver.h\<close>)
  and the virtual interface \<open>Solver\<close> (\<open>Include/dpsim/Solver.h\<close>).

  The components are objects of the CPS library: what the solver calls on them is the record
  \<open>cps_mna\<close>, which also carries the LU factorisation of the linear algebra library. Matrices are
  lists of rows and column vectors are lists. \<open>UInt\<close> counters are 32 bit words, because the code
  relies on their wrap-around. \<open>MnaSolver<Complex>\<close> and \<open>MnaSolver<Real>\<close> differ in the size of
  the vectors only, which the field \<open>mComplex\<close> selects.
\<close>

section \<open>The library below\<close>

type_synonym vec = "real list"
type_synonym matrix = "real list list"

datatype phase_type = Single | ABC

datatype domain = DP | EMT

datatype behaviour = Initialization | SimulationBehaviour

text \<open>A node as far as the solver reads and writes it; \<open>simNodes\<close> is indexed by the phase.\<close>

record node =
  node_name_of :: string
  isGround :: bool
  phaseType :: phase_type
  simNodes :: "32 word list"

record ('w, 'lu) cps_mna = "'w cps_attrs" +
  asSwitch :: "comp \<Rightarrow> bool"
  asMNA :: "comp \<Rightarrow> bool"
  asSignal :: "comp \<Rightarrow> bool"
  asPower :: "comp \<Rightarrow> bool"
  priority :: "comp \<Rightarrow> int"
  hasVirtualNodes :: "comp \<Rightarrow> bool"
  virtualNodesNumber :: "comp \<Rightarrow> nat"
  new_node :: "32 word \<Rightarrow> node"
  setVirtualNodeAt :: "comp \<Rightarrow> 32 word \<Rightarrow> nat \<Rightarrow> 'w \<Rightarrow> 'w"
  initializeFromPowerflow :: "comp \<Rightarrow> real \<Rightarrow> 'w \<Rightarrow> 'w"
  sigInitialize :: "comp \<Rightarrow> 'w \<Rightarrow> 'w"
  mnaInitialize :: "comp \<Rightarrow> real \<Rightarrow> real \<Rightarrow> 'w \<Rightarrow> 'w"
  setBehaviour :: "comp \<Rightarrow> behaviour \<Rightarrow> 'w \<Rightarrow> 'w"
  mnaApplySystemMatrixStamp :: "comp \<Rightarrow> 'w \<Rightarrow> matrix \<Rightarrow> matrix"
  mnaApplySwitchSystemMatrixStamp :: "comp \<Rightarrow> bool \<Rightarrow> 'w \<Rightarrow> matrix \<Rightarrow> matrix"
  mnaApplyRightSideVectorStamp :: "comp \<Rightarrow> 'w \<Rightarrow> vec \<Rightarrow> vec"
  sigStep :: "comp \<Rightarrow> real \<Rightarrow> 'w \<Rightarrow> 'w"
  mnaStep :: "comp \<Rightarrow> real \<Rightarrow> 'w \<times> matrix \<times> vec \<times> vec \<Rightarrow> 'w \<times> matrix \<times> vec \<times> vec"
  mnaPostStep :: "comp \<Rightarrow> real \<Rightarrow> 'w \<times> vec \<times> vec \<Rightarrow> 'w \<times> vec \<times> vec"
  mnaIsClosed :: "comp \<Rightarrow> 'w \<Rightarrow> bool"
  mnaUpdateVoltage :: "32 word \<Rightarrow> vec \<Rightarrow> 'w \<Rightarrow> 'w"
  lu :: "matrix \<Rightarrow> 'lu"
  lu_empty :: 'lu
  lu_solve :: "'lu \<Rightarrow> vec \<Rightarrow> vec"

record system_topology =
  sysComponents :: "comp list"
  sysNodes :: "node list"
  mSystemFrequency :: real
  mSystemOmega :: real

section \<open>State\<close>

definition SWITCH_NUM :: nat where
  "SWITCH_NUM = 32"

record 'lu mna =
  mna_mTimeStep :: real
  mDomain :: domain
  mComplex :: bool
  mNumNodes :: "32 word"
  mNumNetNodes :: "32 word"
  mNumVirtualNodes :: "32 word"
  mNumSimNodes :: "32 word"
  mNumNetSimNodes :: "32 word"
  mNumVirtualSimNodes :: "32 word"
  mSystem :: system_topology
  mNodes :: "node list"
  mPowerComponents :: "comp list"
  mSwitches :: "comp list"
  mSignalComponents :: "comp list"
  mCurrentSwitchStatus :: "32 word"
  mTmpSystemMatrix :: matrix
  mTmpLuFactorization :: 'lu
  mRightSideVector :: vec
  mLeftSideVector :: vec
  mSteadyStateInit :: bool
  mSwitchedMatrices :: "(32 word \<times> matrix) list"
  mLuFactorizations :: "32 word \<rightharpoonup> 'lu"
  mLeftVectorLog :: logger
  mRightVectorLog :: logger
  mInitLeftVectorLog :: logger
  mInitRightVectorLog :: logger

text \<open>The first constructor; \<open>logging\<close> is \<open>logLevel != NONE\<close>, \<open>opened\<close> whether the log files
  could be opened.\<close>

definition MnaSolver_new ::
    "('w, 'lu) cps_mna \<Rightarrow> bool \<Rightarrow> bool \<Rightarrow> bool \<Rightarrow> real \<Rightarrow> domain \<Rightarrow> bool \<Rightarrow> 'lu mna" where
  "MnaSolver_new cps complex opened logging timeStep domain steadyStateInit =
     \<lparr>mna_mTimeStep = timeStep, mDomain = domain, mComplex = complex,
      mNumNodes = 0, mNumNetNodes = 0, mNumVirtualNodes = 0,
      mNumSimNodes = 0, mNumNetSimNodes = 0, mNumVirtualSimNodes = 0,
      mSystem = \<lparr>sysComponents = [], sysNodes = [], mSystemFrequency = 0, mSystemOmega = 0\<rparr>,
      mNodes = [], mPowerComponents = [], mSwitches = [], mSignalComponents = [],
      mCurrentSwitchStatus = 0, mTmpSystemMatrix = [], mTmpLuFactorization = lu_empty cps,
      mRightSideVector = [], mLeftSideVector = [], mSteadyStateInit = steadyStateInit,
      mSwitchedMatrices = [], mLuFactorizations = Map.empty,
      mLeftVectorLog = DataLogger_new opened logging, mRightVectorLog = DataLogger_new opened logging,
      mInitLeftVectorLog = DataLogger_new opened logging,
      mInitRightVectorLog = DataLogger_new opened logging\<rparr>"

section \<open>Preparing the topology\<close>

definition identifyTopologyObjects :: "('w, 'lu) cps_mna \<Rightarrow> 'lu mna \<Rightarrow> 'lu mna" where
  "identifyTopologyObjects cps m =
     m\<lparr>mNodes := mNodes m @ filter (\<lambda>n. \<not> isGround n) (sysNodes (mSystem m)),
       mSwitches := mSwitches m @ filter (asSwitch cps) (sysComponents (mSystem m)),
       mPowerComponents := mPowerComponents m @ filter (asMNA cps) (sysComponents (mSystem m)),
       mSignalComponents := mSignalComponents m @ filter (asSignal cps) (sysComponents (mSystem m))\<rparr>"

text \<open>\<open>std::sort\<close> with the comparator \<open>lhs->priority() > rhs->priority()\<close>. The standard does not
  say how components of the same priority are ordered; the properties use only that the result is
  an ordered rearrangement.\<close>

definition sortExecutionPriority :: "('w, 'lu) cps_mna \<Rightarrow> 'lu mna \<Rightarrow> 'lu mna" where
  "sortExecutionPriority cps m =
     m\<lparr>mSignalComponents := sort_key (\<lambda>c. - priority cps c) (mSignalComponents m)\<rparr>"

text \<open>The inner loop of \<open>createVirtualNodes\<close> for one component, node numbers \<open>ks\<close>; the state is
  the last index used, the nodes and the world.\<close>

primrec create_virtual :: "('w, 'lu) cps_mna \<Rightarrow> comp \<Rightarrow> nat list \<Rightarrow>
    32 word \<times> node list \<times> 'w \<Rightarrow> 32 word \<times> node list \<times> 'w" where
  "create_virtual cps c [] s = s"
| "create_virtual cps c (k # ks) s =
     (let (v, nodes, w) = s; v = v + 1
      in create_virtual cps c ks (v, nodes @ [new_node cps v], setVirtualNodeAt cps c v k w))"

definition create_virtual_for :: "('w, 'lu) cps_mna \<Rightarrow> comp \<Rightarrow>
    32 word \<times> node list \<times> 'w \<Rightarrow> 32 word \<times> node list \<times> 'w" where
  "create_virtual_for cps c s =
     (if asPower cps c \<and> hasVirtualNodes cps c
      then create_virtual cps c [0..<virtualNodesNumber cps c] s else s)"

definition createVirtualNodes :: "('w, 'lu) cps_mna \<Rightarrow> 'lu mna \<times> 'w \<Rightarrow> 'lu mna \<times> 'w" where
  "createVirtualNodes cps s =
     (let (m, w) = s;
          numNet = of_nat (length (mNodes m));
          (v, nodes, w) = fold (create_virtual_for cps) (mPowerComponents m) (numNet - 1, mNodes m, w);
          num = of_nat (length nodes)
      in (m\<lparr>mNumNetNodes := numNet, mNodes := nodes, mNumNodes := num,
            mNumVirtualNodes := num - numNet\<rparr>, w))"

definition setSimNode :: "nat \<Rightarrow> 32 word \<Rightarrow> node \<Rightarrow> node" where
  "setSimNode phase idx n = n\<lparr>simNodes := (simNodes n)[phase := idx]\<rparr>"

text \<open>The loop of \<open>assignSimNodes\<close>: \<open>idx\<close> counts the nodes, \<open>sim\<close> the simulation nodes; the
  result is the nodes, \<open>simNodeIdx\<close> and \<open>mNumNetSimNodes\<close>.\<close>

fun assign_loop :: "32 word \<Rightarrow> 32 word \<Rightarrow> 32 word \<Rightarrow> 32 word \<Rightarrow> node list \<Rightarrow>
    node list \<times> 32 word \<times> 32 word" where
  "assign_loop numNet idx sim netSim [] = ([], sim, netSim)"
| "assign_loop numNet idx sim netSim (n # ns) =
     (let n = setSimNode 0 sim n; sim = sim + 1;
          (n, sim) = (if phaseType n = ABC
                      then (setSimNode 2 (sim + 1) (setSimNode 1 sim n), sim + 2) else (n, sim));
          netSim = (if idx = numNet - 1 then sim else netSim);
          (ns, r) = assign_loop numNet (idx + 1) sim netSim ns
      in (n # ns, r))"

definition assignSimNodes :: "'lu mna \<Rightarrow> 'lu mna" where
  "assignSimNodes m =
     (let (nodes, sim, netSim) = assign_loop (mNumNetNodes m) 0 0 (mNumNetSimNodes m) (mNodes m)
      in m\<lparr>mNodes := nodes, mNumNetSimNodes := netSim, mNumSimNodes := sim,
           mNumVirtualSimNodes := sim - netSim\<rparr>)"

text \<open>The number of unknowns: \<open>2 * mNumSimNodes\<close> for complex, \<open>mNumSimNodes\<close> for real variables.\<close>

definition mna_dim :: "'lu mna \<Rightarrow> nat" where
  "mna_dim m = unat (if mComplex m then 2 * mNumSimNodes m else mNumSimNodes m)"

definition zero_vec :: "nat \<Rightarrow> vec" where
  "zero_vec n = replicate n 0"

definition zero_matrix :: "nat \<Rightarrow> matrix" where
  "zero_matrix n = replicate n (zero_vec n)"

definition createEmptyVectors :: "'lu mna \<Rightarrow> 'lu mna" where
  "createEmptyVectors m =
     m\<lparr>mRightSideVector := zero_vec (mna_dim m), mLeftSideVector := zero_vec (mna_dim m)\<rparr>"

definition createEmptySystemMatrix :: "'lu mna \<Rightarrow> 'lu mna outcome" where
  "createEmptySystemMatrix m =
     (let m = m\<lparr>mTmpSystemMatrix := zero_matrix (mna_dim m)\<rparr>
      in if length (mSwitches m) > SWITCH_NUM then Throw (SystemError ''Too many Switches.'') m
         else Ok (m\<lparr>mSwitchedMatrices :=
                map (\<lambda>i. (of_nat i, zero_matrix (mna_dim m))) [0..<length (mSwitches m) * 2]\<rparr>))"

section \<open>Switches and the solution of the linear system\<close>

text \<open>\<open>bitset::set(i, value)\<close>.\<close>

definition set_status :: "nat \<Rightarrow> bool \<Rightarrow> 32 word \<Rightarrow> 32 word" where
  "set_status i b s = (if b then set_bit i s else unset_bit i s)"

definition updateSwitchStatus :: "('w, 'lu) cps_mna \<Rightarrow> 'w \<Rightarrow> 'lu mna \<Rightarrow> 'lu mna" where
  "updateSwitchStatus cps w m =
     m\<lparr>mCurrentSwitchStatus :=
         fold (\<lambda>i s. set_status i (mnaIsClosed cps (mSwitches m ! i) w) s) [0..<length (mSwitches m)]
           (mCurrentSwitchStatus m)\<rparr>"

text \<open>\<open>unordered_map::operator[]\<close> inserts a default constructed factorisation for a missing key.\<close>

definition solve :: "('w, 'lu) cps_mna \<Rightarrow> 'lu mna \<Rightarrow> 'lu mna" where
  "solve cps m =
     (if mSwitchedMatrices m \<noteq> [] then
        (let f = (case mLuFactorizations m (mCurrentSwitchStatus m) of Some f \<Rightarrow> f | None \<Rightarrow> lu_empty cps)
         in m\<lparr>mLuFactorizations := (mLuFactorizations m)(mCurrentSwitchStatus m \<mapsto> f),
              mLeftSideVector := lu_solve cps f (mRightSideVector m)\<rparr>)
      else m\<lparr>mLeftSideVector := lu_solve cps (mTmpLuFactorization m) (mRightSideVector m)\<rparr>)"

section \<open>One step\<close>

text \<open>The loops over components that pass the system matrix and both vectors by reference.\<close>

definition mna_steps :: "('w, 'lu) cps_mna \<Rightarrow> real \<Rightarrow> comp list \<Rightarrow> 'lu mna \<times> 'w \<Rightarrow> 'lu mna \<times> 'w" where
  "mna_steps cps time cs s =
     (let (m, w) = s;
          (w, g, r, l) = fold (\<lambda>c. mnaStep cps c time) cs
             (w, mTmpSystemMatrix m, mRightSideVector m, mLeftSideVector m)
      in (m\<lparr>mTmpSystemMatrix := g, mRightSideVector := r, mLeftSideVector := l\<rparr>, w))"

definition mna_post_steps :: "('w, 'lu) cps_mna \<Rightarrow> real \<Rightarrow> 'lu mna \<times> 'w \<Rightarrow> 'lu mna \<times> 'w" where
  "mna_post_steps cps time s =
     (let (m, w) = s;
          (w, r, l) = fold (\<lambda>c. mnaPostStep cps c time) (mPowerComponents m)
             (w, mRightSideVector m, mLeftSideVector m)
      in (m\<lparr>mRightSideVector := r, mLeftSideVector := l\<rparr>, w))"

definition update_voltages :: "('w, 'lu) cps_mna \<Rightarrow> 'lu mna \<Rightarrow> 'w \<Rightarrow> 'w" where
  "update_voltages cps m w =
     fold (\<lambda>i. mnaUpdateVoltage cps (of_nat i) (mLeftSideVector m)) [0..<unat (mNumNetNodes m)] w"

definition set_zero :: "vec \<Rightarrow> vec" where
  "set_zero v = map (\<lambda>_. 0) v"

definition MnaSolver_step ::
    "('w, 'lu) cps_mna \<Rightarrow> (real \<Rightarrow> real) \<Rightarrow> real \<Rightarrow> 'lu mna \<times> 'w \<Rightarrow> real \<times> 'lu mna \<times> 'w" where
  "MnaSolver_step cps rnd time s =
     (let (m, w) = s;
          m = m\<lparr>mRightSideVector := set_zero (mRightSideVector m)\<rparr>;
          w = fold (\<lambda>c. sigStep cps c time) (mSignalComponents m) w;
          (m, w) = mna_steps cps time (mPowerComponents m) (m, w);
          (m, w) = mna_steps cps time (mSwitches m) (m, w);
          m = solve cps m;
          (m, w) = mna_post_steps cps time (m, w);
          w = update_voltages cps m w;
          m = updateSwitchStatus cps w m
      in (fp_add rnd time (mna_mTimeStep m), m, w))"

definition MnaSolver_log :: "(real \<Rightarrow> string) \<Rightarrow> real \<Rightarrow> 'lu mna \<Rightarrow> 'lu mna" where
  "MnaSolver_log fmt time m =
     (if mDomain m = EMT
      then m\<lparr>mLeftVectorLog := logEMTNodeValues fmt time (mLeftSideVector m) (mLeftVectorLog m),
             mRightVectorLog := logEMTNodeValues fmt time (mRightSideVector m) (mRightVectorLog m)\<rparr>
      else m\<lparr>mLeftVectorLog := logPhasorNodeValues fmt time (mLeftSideVector m) (mLeftVectorLog m),
             mRightVectorLog := logPhasorNodeValues fmt time (mRightSideVector m) (mRightVectorLog m)\<rparr>)"

section \<open>Initialisation\<close>

definition lpNorm_inf :: "vec \<Rightarrow> real" where
  "lpNorm_inf v = fold (\<lambda>x a. max a \<bar>x\<bar>) v 0"

definition init_log :: "(real \<Rightarrow> string) \<Rightarrow> real \<Rightarrow> 'lu mna \<Rightarrow> 'lu mna" where
  "init_log fmt time m =
     (if mDomain m = EMT
      then m\<lparr>mInitLeftVectorLog := logEMTNodeValues fmt time (mLeftSideVector m) (mInitLeftVectorLog m),
             mInitRightVectorLog := logEMTNodeValues fmt time (mRightSideVector m) (mInitRightVectorLog m)\<rparr>
      else m\<lparr>mInitLeftVectorLog := logPhasorNodeValues fmt time (mLeftSideVector m) (mInitLeftVectorLog m),
             mInitRightVectorLog := logPhasorNodeValues fmt time (mRightSideVector m) (mInitRightVectorLog m)\<rparr>)"

text \<open>The body of the loop of \<open>steadyStateInitialization\<close> up to the new simulation time.\<close>

definition steady_body ::
    "('w, 'lu) cps_mna \<Rightarrow> (real \<Rightarrow> string) \<Rightarrow> real \<Rightarrow> 'lu mna \<times> 'w \<Rightarrow> 'lu mna \<times> 'w" where
  "steady_body cps fmt time s =
     (let (m, w) = s;
          m = m\<lparr>mRightSideVector := set_zero (mRightSideVector m)\<rparr>;
          w = fold (\<lambda>c. sigStep cps c time) (mSignalComponents m) w;
          (m, w) = mna_steps cps time (mPowerComponents m) (m, w);
          m = m\<lparr>mLeftSideVector := lu_solve cps (mTmpLuFactorization m) (mRightSideVector m)\<rparr>;
          (m, w) = mna_post_steps cps time (m, w);
          w = update_voltages cps m w
      in (init_log fmt time m, w))"

text \<open>\<open>maxDiff / max < eps\<close> in floating point: false when \<open>max\<close> is 0 (the quotient is infinite or
  not a number). The difference of vectors of different size is refused by the matrix library.\<close>

definition steady_converged :: "vec \<Rightarrow> vec \<Rightarrow> bool" where
  "steady_converged prev left \<longleftrightarrow>
     lpNorm_inf left \<noteq> 0 \<and> lpNorm_inf (map2 (-) prev left) / lpNorm_inf left < 0.0001"

partial_function (option) steady_loop ::
    "('w, 'lu) cps_mna \<Rightarrow> (real \<Rightarrow> real) \<Rightarrow> (real \<Rightarrow> string) \<Rightarrow> real \<Rightarrow> vec \<Rightarrow> 'lu mna \<times> 'w \<Rightarrow>
     ('lu mna \<times> 'w) outcome option" where
  "steady_loop cps rnd fmt time prev s =
     (if \<not> time < 10 then Some (Ok s)
      else let s = steady_body cps fmt time s; left = mLeftSideVector (fst s)
           in if length prev \<noteq> length left then Some (Throw AssertionFailure s)
              else if steady_converged prev left then Some (Ok s)
              else steady_loop cps rnd fmt (fp_add rnd time (mna_mTimeStep (fst s))) left s)"

definition stamp_all :: "('w, 'lu) cps_mna \<Rightarrow> 'w \<Rightarrow> comp list \<Rightarrow> matrix \<Rightarrow> matrix" where
  "stamp_all cps w cs g = fold (\<lambda>c. mnaApplySystemMatrixStamp cps c w) cs g"

definition set_behaviours :: "('w, 'lu) cps_mna \<Rightarrow> behaviour \<Rightarrow> 'lu mna \<Rightarrow> 'w \<Rightarrow> 'w" where
  "set_behaviours cps b m w = fold (\<lambda>c. setBehaviour cps c b) (sysComponents (mSystem m)) w"

definition steadyStateInitialization ::
    "('w, 'lu) cps_mna \<Rightarrow> (real \<Rightarrow> real) \<Rightarrow> (real \<Rightarrow> string) \<Rightarrow> 'lu mna \<times> 'w \<Rightarrow>
     ('lu mna \<times> 'w) outcome option" where
  "steadyStateInitialization cps rnd fmt s =
     (let (m, w) = s;
          prev = zero_vec (unat (2 * mNumNodes m));
          w = set_behaviours cps Initialization m w;
          g = stamp_all cps w (mSwitches m) (stamp_all cps w (mPowerComponents m) (mTmpSystemMatrix m));
          m = m\<lparr>mTmpSystemMatrix := g, mTmpLuFactorization := lu cps g\<rparr>
      in map_option (\<lambda>r. and_then r (\<lambda>(m, w).
           Ok (m\<lparr>mTmpSystemMatrix := map set_zero (mTmpSystemMatrix m),
                 mRightSideVector := set_zero (mRightSideVector m)\<rparr>, w)))
         (steady_loop cps rnd fmt 0 prev (m, w)))"

text \<open>The system matrix for one switch status.\<close>

definition switched_matrix :: "('w, 'lu) cps_mna \<Rightarrow> 'w \<Rightarrow> 'lu mna \<Rightarrow> 32 word \<Rightarrow> matrix \<Rightarrow> matrix" where
  "switched_matrix cps w m key g =
     fold (\<lambda>i. mnaApplySwitchSystemMatrixStamp cps (mSwitches m ! i) (bit key i) w)
       [0..<length (mSwitches m)] (stamp_all cps w (mPowerComponents m) g)"

text \<open>The part of \<open>initialize\<close> before the steady state run.\<close>

definition initialize_components :: "('w, 'lu) cps_mna \<Rightarrow> 'lu mna \<times> 'w \<Rightarrow> 'lu mna \<times> 'w" where
  "initialize_components cps s =
     (let (m, w) = s;
          w = fold (\<lambda>c w. if asPower cps c then initializeFromPowerflow cps c (mSystemFrequency (mSystem m)) w else w)
                (mPowerComponents m) w;
          w = fold (sigInitialize cps) (mSignalComponents m) w;
          w = fold (\<lambda>c. mnaInitialize cps c (mSystemOmega (mSystem m)) (mna_mTimeStep m)) (mPowerComponents m) w;
          w = fold (\<lambda>c. mnaInitialize cps c (mSystemOmega (mSystem m)) (mna_mTimeStep m)) (mSwitches m) w
      in (m, w))"

text \<open>The part after it: the system matrices, their factorisations and the source vector.\<close>

definition initialize_matrices :: "('w, 'lu) cps_mna \<Rightarrow> 'lu mna \<times> 'w \<Rightarrow> 'lu mna \<times> 'w" where
  "initialize_matrices cps s =
     (let (m, w) = s;
          w = set_behaviours cps SimulationBehaviour m w;
          g = stamp_all cps w (mSwitches m) (stamp_all cps w (mPowerComponents m) (mTmpSystemMatrix m));
          m = m\<lparr>mTmpSystemMatrix := g, mTmpLuFactorization := lu cps g\<rparr>;
          sw = map (\<lambda>(key, a). (key, switched_matrix cps w m key a)) (mSwitchedMatrices m);
          m = m\<lparr>mSwitchedMatrices := sw,
                mLuFactorizations := mLuFactorizations m ++ map_of (map (\<lambda>(key, a). (key, lu cps a)) sw)\<rparr>;
          m = updateSwitchStatus cps w m;
          m = m\<lparr>mRightSideVector := fold (\<lambda>c. mnaApplyRightSideVectorStamp cps c w) (mPowerComponents m)
                  (mRightSideVector m)\<rparr>
      in (m, w))"

definition prepare_topology :: "('w, 'lu) cps_mna \<Rightarrow> system_topology \<Rightarrow> 'lu mna \<times> 'w \<Rightarrow> 'lu mna \<times> 'w" where
  "prepare_topology cps sys s =
     (let (m, w) = s;
          m = identifyTopologyObjects cps (m\<lparr>mSystem := sys\<rparr>);
          (m, w) = createVirtualNodes cps (m, w)
      in (createEmptyVectors (sortExecutionPriority cps (assignSimNodes m)), w))"

definition MnaSolver_initialize ::
    "('w, 'lu) cps_mna \<Rightarrow> (real \<Rightarrow> real) \<Rightarrow> (real \<Rightarrow> string) \<Rightarrow> system_topology \<Rightarrow> 'lu mna \<times> 'w \<Rightarrow>
     ('lu mna \<times> 'w) outcome option" where
  "MnaSolver_initialize cps rnd fmt sys s =
     (if sysComponents sys = [] then Some (Throw SolverException ((fst s)\<lparr>mSystem := sys\<rparr>, snd s))
      else let (m, w) = prepare_topology cps sys s
           in case createEmptySystemMatrix m of
                Throw x m \<Rightarrow> Some (Throw x (m, w))
              | Ok m \<Rightarrow>
                  (let s = initialize_components cps (m, w)
                   in map_option (\<lambda>r. and_then r (\<lambda>s. Ok (initialize_matrices cps s)))
                        (if mSteadyStateInit (fst s) \<and> mDomain (fst s) = DP
                         then steadyStateInitialization cps rnd fmt s else Some (Ok s))))"

section \<open>Simulation nodes\<close>

definition phases :: "node \<Rightarrow> nat" where
  "phases n = (if phaseType n = ABC then 3 else 1)"

definition total_phases :: "node list \<Rightarrow> nat" where
  "total_phases ns = sum_list (map phases ns)"

definition nodes_ok :: "node list \<Rightarrow> bool" where
  "nodes_ok ns \<longleftrightarrow> (\<forall>n \<in> set ns. phases n \<le> length (simNodes n))"

definition sim_indices :: "node list \<Rightarrow> 32 word list" where
  "sim_indices ns = concat (map (\<lambda>n. take (phases n) (simNodes n)) ns)"

definition assigned_node :: "32 word \<Rightarrow> node \<Rightarrow> node" where
  "assigned_node sim n =
     (if phaseType n = ABC then setSimNode 2 (sim + 2) (setSimNode 1 (sim + 1) (setSimNode 0 sim n))
      else setSimNode 0 sim n)"

lemma phaseType_setSimNode [simp]: "phaseType (setSimNode p i n) = phaseType n"
  by (simp add: setSimNode_def)

lemma assigned_node_props:
  "phaseType (assigned_node sim n) = phaseType n"
  "phases n \<le> length (simNodes n) \<Longrightarrow>
   take (phases n) (simNodes (assigned_node sim n)) = map (\<lambda>i. sim + of_nat i) [0..<phases n]"
proof -
  show "phaseType (assigned_node sim n) = phaseType n" by (simp add: assigned_node_def)
  assume len: "phases n \<le> length (simNodes n)"
  show "take (phases n) (simNodes (assigned_node sim n)) = map (\<lambda>i. sim + of_nat i) [0..<phases n]"
  proof (cases "phaseType n = ABC")
    case True
    then obtain a b c r where "simNodes n = a # b # c # r"
      using len by (auto simp: phases_def numeral_3_eq_3 Suc_le_length_iff)
    then show ?thesis using True by (simp add: assigned_node_def phases_def setSimNode_def upt_rec)
  next
    case False
    then obtain a r where "simNodes n = a # r" using len by (auto simp: phases_def Suc_le_length_iff)
    then show ?thesis using False by (simp add: assigned_node_def phases_def setSimNode_def)
  qed
qed

lemma assign_loop_Cons:
  "assign_loop numNet idx sim netSim (n # ns) =
     (let sim' = sim + of_nat (phases n);
          (ns', r) = assign_loop numNet (idx + 1) sim' (if idx = numNet - 1 then sim' else netSim) ns
      in (assigned_node sim n # ns', r))"
  by (simp add: assigned_node_def phases_def Let_def add.assoc)

declare assign_loop.simps(2) [simp del]

lemma assign_loop_net_unchanged:
  assumes "assign_loop numNet idx sim netSim ns = (ns', sim', netSim')"
    and "\<forall>j < length ns. idx + of_nat j \<noteq> numNet - 1"
  shows "netSim' = netSim"
  using assms
proof (induction ns arbitrary: idx sim ns')
  case (Cons n ns)
  let ?sim = "sim + of_nat (phases n)"
  have "idx \<noteq> numNet - 1" using Cons.prems(2) by (auto dest: spec[of _ 0])
  then obtain ns1 where "assign_loop numNet (idx + 1) ?sim netSim ns = (ns1, sim', netSim')"
    using Cons.prems(1) by (auto simp: assign_loop_Cons Let_def split: prod.splits)
  moreover have "\<forall>j < length ns. idx + 1 + of_nat j \<noteq> numNet - 1"
    using Cons.prems(2) by (auto simp: add.assoc dest: spec[of _ "Suc _"])
  ultimately show ?case by (rule Cons.IH)
qed simp

lemma assign_loop_nodes:
  assumes "nodes_ok ns" and "assign_loop numNet idx sim netSim ns = (ns', sim', netSim')"
  shows "map phaseType ns' = map phaseType ns \<and> sim' = sim + of_nat (total_phases ns)
     \<and> sim_indices ns' = map (\<lambda>i. sim + of_nat i) [0..<total_phases ns]"
  using assms
proof (induction ns arbitrary: idx sim netSim ns')
  case Nil
  then show ?case by (simp add: sim_indices_def total_phases_def)
next
  case (Cons n ns)
  let ?sim = "sim + of_nat (phases n)"
  obtain ns1 where rec: "assign_loop numNet (idx + 1) ?sim (if idx = numNet - 1 then ?sim else netSim) ns
      = (ns1, sim', netSim')" and ns': "ns' = assigned_node sim n # ns1"
    using Cons.prems(2) by (auto simp: assign_loop_Cons Let_def split: prod.splits)
  have ok: "nodes_ok ns" "phases n \<le> length (simNodes n)" using Cons.prems(1) by (auto simp: nodes_ok_def)
  note ih = Cons.IH[OF ok(1) rec]
  have ph: "phases (assigned_node sim n) = phases n"
    by (simp add: phases_def assigned_node_props)
  have upt: "[0..<total_phases (n # ns)] = [0..<phases n] @ map (\<lambda>i. i + phases n) [0..<total_phases ns]"
    using upt_add_eq_append[of 0 "phases n" "total_phases ns"]
    by (simp add: total_phases_def map_add_upt add.commute)
  show ?case
    using ih ok
    by (simp add: ns' assigned_node_props upt sim_indices_def ph comp_def add.assoc add.commute)
       (simp add: total_phases_def algebra_simps)
qed

lemma assign_loop_net:
  assumes "assign_loop numNet idx sim netSim ns = (ns', sim', netSim')"
    and "length ns < 2 ^ 32" and "0 < k" and "k \<le> length ns" and "numNet = idx + of_nat k"
  shows "netSim' = sim + of_nat (total_phases (take k ns))"
  using assms
proof (induction ns arbitrary: idx sim netSim ns' k)
  case (Cons n ns)
  let ?sim = "sim + of_nat (phases n)"
  obtain ns1 where rec: "assign_loop numNet (idx + 1) ?sim (if idx = numNet - 1 then ?sim else netSim) ns
      = (ns1, sim', netSim')"
    using Cons.prems(1) by (auto simp: assign_loop_Cons Let_def split: prod.splits)
  show ?case
  proof (cases "k = 1")
    case True
    then have idx: "idx = numNet - 1" using Cons.prems by simp
    have "idx + 1 + of_nat j \<noteq> numNet - 1" if "j < length ns" for j
    proof -
      have "(of_nat (Suc j) :: 32 word) \<noteq> 0"
        using of_nat32_eq_0_iff[of "Suc j"] that Cons.prems(2) by simp
      then have "idx + of_nat (Suc j) \<noteq> idx" by (metis add_cancel_left_right)
      then show ?thesis using idx by (simp add: add.assoc)
    qed
    then have "netSim' = ?sim" using assign_loop_net_unchanged[OF rec] idx by simp
    then show ?thesis using True by (simp add: total_phases_def)
  next
    case False
    then obtain k' where k': "k = Suc k'" "0 < k'" using Cons.prems(3) by (cases k) auto
    have "netSim' = ?sim + of_nat (total_phases (take k' ns))"
      by (rule Cons.IH[OF rec]) (use Cons.prems k' in \<open>auto simp: add.assoc\<close>)
    then show ?thesis using k' by (simp add: total_phases_def add.assoc)
  qed
qed simp

text \<open>C15: the simulation nodes are numbered without gaps and without collisions. Going through the
  nodes in order, the indices handed out are \<open>0, 1, 2, \<dots>\<close>, one per single phase node and three
  per three phase node, all distinct; the counters of all simulation nodes, of those of the network
  and of the virtual ones agree with them, although they are computed with wrap-around.\<close>

theorem assignSimNodes_contiguous:
  assumes "nodes_ok (mNodes m)" and "total_phases (mNodes m) < 2 ^ 32"
    and "mNumNetNodes m = of_nat k" and "0 < k" and "k \<le> length (mNodes m)"
  shows "sim_indices (mNodes (assignSimNodes m)) = map of_nat [0..<total_phases (mNodes m)]
     \<and> distinct (sim_indices (mNodes (assignSimNodes m)))
     \<and> unat (mNumSimNodes (assignSimNodes m)) = total_phases (mNodes m)
     \<and> unat (mNumNetSimNodes (assignSimNodes m)) = total_phases (take k (mNodes m))
     \<and> unat (mNumVirtualSimNodes (assignSimNodes m)) = total_phases (drop k (mNodes m))"
proof -
  obtain ns sim net where loop: "assign_loop (mNumNetNodes m) 0 0 (mNumNetSimNodes m) (mNodes m) = (ns, sim, net)"
    by (cases "assign_loop (mNumNetNodes m) 0 0 (mNumNetSimNodes m) (mNodes m)") auto
  have le: "length xs \<le> total_phases xs" for xs
    by (induction xs) (auto simp: total_phases_def phases_def)
  have split: "total_phases (mNodes m) = total_phases (take k (mNodes m)) + total_phases (drop k (mNodes m))"
    by (metis append_take_drop_id map_append sum_list_append total_phases_def)
  have net: "net = of_nat (total_phases (take k (mNodes m)))"
    using assign_loop_net[OF loop] assms le[of "mNodes m"] by simp
  have sim: "sim = of_nat (total_phases (mNodes m))"
    and ind: "sim_indices ns = map of_nat [0..<total_phases (mNodes m)]"
    using assign_loop_nodes[OF assms(1) loop] by simp_all
  have "distinct (map (of_nat :: nat \<Rightarrow> 32 word) [0..<total_phases (mNodes m)])"
    using assms(2) by (auto simp: distinct_map inj_on_def of_nat32_inject)
  moreover have "sim - net = of_nat (total_phases (drop k (mNodes m)))"
    using split by (simp add: sim net)
  moreover have "unat sim = total_phases (mNodes m)"
    and "unat net = total_phases (take k (mNodes m))"
    and "unat (of_nat (total_phases (drop k (mNodes m))) :: 32 word) = total_phases (drop k (mNodes m))"
    using assms(2) split by (simp_all add: sim net del: of_nat_add)
  ultimately show ?thesis by (simp add: assignSimNodes_def loop ind)
qed

section \<open>Virtual nodes\<close>

text \<open>The virtual nodes the components ask for, in the order of creation.\<close>

definition virtual_requests :: "('w, 'lu) cps_mna \<Rightarrow> comp list \<Rightarrow> (comp \<times> nat) list" where
  "virtual_requests cps cs = concat (map (\<lambda>c. if asPower cps c \<and> hasVirtualNodes cps c
     then map (Pair c) [0..<virtualNodesNumber cps c] else []) cs)"

definition serve_requests :: "('w, 'lu) cps_mna \<Rightarrow> nat \<Rightarrow> (comp \<times> nat) list \<Rightarrow> 'w \<Rightarrow> 'w" where
  "serve_requests cps n rs w =
     fold (\<lambda>(p, c, k). setVirtualNodeAt cps c (of_nat p) k) (zip [n..<n + length rs] rs) w"

definition virtual_nodes :: "('w, 'lu) cps_mna \<Rightarrow> nat \<Rightarrow> nat \<Rightarrow> node list" where
  "virtual_nodes cps n v = map (\<lambda>p. new_node cps (of_nat p)) [n..<n + v]"

lemma serve_requests_append:
  "serve_requests cps n (xs @ ys) w = serve_requests cps (n + length xs) ys (serve_requests cps n xs w)"
proof -
  have "[n..<n + length (xs @ ys)] = [n..<n + length xs] @ [n + length xs..<n + length xs + length ys]"
    using upt_add_eq_append[of n "n + length xs" "length ys"] by (simp add: add.assoc)
  then show ?thesis by (simp add: serve_requests_def)
qed

lemma virtual_nodes_append:
  "virtual_nodes cps n (a + b) = virtual_nodes cps n a @ virtual_nodes cps (n + a) b"
  using upt_add_eq_append[of n "n + a" b] by (simp add: virtual_nodes_def add.assoc)

lemma create_virtual_spec:
  "create_virtual cps c ks (of_nat (length nodes) - 1, nodes, w) =
     (of_nat (length nodes + length ks) - 1,
      nodes @ virtual_nodes cps (length nodes) (length ks),
      serve_requests cps (length nodes) (map (Pair c) ks) w)"
proof (induction ks arbitrary: nodes w)
  case (Cons k ks)
  let ?nodes = "nodes @ [new_node cps (of_nat (length nodes))]"
  have "create_virtual cps c (k # ks) (of_nat (length nodes) - 1, nodes, w)
      = create_virtual cps c ks (of_nat (length ?nodes) - 1, ?nodes,
          setVirtualNodeAt cps c (of_nat (length nodes)) k w)"
    by (simp add: Let_def)
  also have "\<dots> = (of_nat (length ?nodes + length ks) - 1,
      ?nodes @ virtual_nodes cps (length ?nodes) (length ks),
      serve_requests cps (length ?nodes) (map (Pair c) ks)
        (setVirtualNodeAt cps c (of_nat (length nodes)) k w))"
    by (rule Cons.IH)
  also have "\<dots> = (of_nat (length nodes + length (k # ks)) - 1,
      nodes @ virtual_nodes cps (length nodes) (length (k # ks)),
      serve_requests cps (length nodes) (map (Pair c) (k # ks)) w)"
    by (simp add: virtual_nodes_def serve_requests_def upt_conv_Cons del: upt_Suc)
  finally show ?case .
qed (simp add: virtual_nodes_def serve_requests_def)

lemma create_virtual_fold:
  "fold (create_virtual_for cps) cs (of_nat (length nodes) - 1, nodes, w) =
     (of_nat (length nodes + length (virtual_requests cps cs)) - 1,
      nodes @ virtual_nodes cps (length nodes) (length (virtual_requests cps cs)),
      serve_requests cps (length nodes) (virtual_requests cps cs) w)"
proof (induction cs arbitrary: nodes w)
  case Nil
  then show ?case by (simp add: virtual_requests_def virtual_nodes_def serve_requests_def)
next
  case (Cons c cs)
  define rs where "rs = virtual_requests cps [c]"
  have step: "create_virtual_for cps c (of_nat (length nodes) - 1, nodes, w) =
     (of_nat (length nodes + length rs) - 1, nodes @ virtual_nodes cps (length nodes) (length rs),
      serve_requests cps (length nodes) rs w)"
    using create_virtual_spec[of cps c "[0..<virtualNodesNumber cps c]" nodes w]
    by (simp add: create_virtual_for_def rs_def virtual_requests_def virtual_nodes_def serve_requests_def)
  have all: "virtual_requests cps (c # cs) = rs @ virtual_requests cps cs"
    by (simp add: rs_def virtual_requests_def)
  let ?nodes = "nodes @ virtual_nodes cps (length nodes) (length rs)"
  have len: "length ?nodes = length nodes + length rs" by (simp add: virtual_nodes_def)
  show ?case
    using Cons.IH[of ?nodes "serve_requests cps (length nodes) rs w", unfolded len]
    by (simp add: step all serve_requests_append virtual_nodes_append add.assoc)
qed

section \<open>Switch status\<close>

lemma bit_set_status: "i < 32 \<Longrightarrow> bit (set_status i b s) j \<longleftrightarrow> (if i = j then b else bit s j)"
  by (auto simp: set_status_def bit_set_bit_iff bit_unset_bit_iff)

lemma bit_status_fold:
  assumes "n \<le> 32"
  shows "bit (fold (\<lambda>i s. set_status i (f i) s) [0..<n] s) j \<longleftrightarrow> (if j < n then f j else bit s j)"
  using assms
proof (induction n)
  case (Suc n)
  then show ?case by (auto simp: bit_set_status less_Suc_eq)
qed simp

lemma bit_updateSwitchStatus:
  assumes "length (mSwitches m) \<le> SWITCH_NUM"
  shows "bit (mCurrentSwitchStatus (updateSwitchStatus cps w m)) i \<longleftrightarrow>
     (if i < length (mSwitches m) then mnaIsClosed cps (mSwitches m ! i) w
      else bit (mCurrentSwitchStatus m) i)"
  using assms by (simp add: updateSwitchStatus_def bit_status_fold SWITCH_NUM_def)

lemma createEmptySystemMatrix_Ok:
  "createEmptySystemMatrix m = Ok m' \<Longrightarrow> length (mSwitches m) \<le> SWITCH_NUM
     \<and> mSwitches m' = mSwitches m \<and> mCurrentSwitchStatus m' = mCurrentSwitchStatus m
     \<and> map fst (mSwitchedMatrices m') = map of_nat [0..<length (mSwitches m) * 2]"
  by (auto simp: createEmptySystemMatrix_def Let_def comp_def split: if_splits)

lemma unat_take_bit32: "unat (take_bit n (s :: 32 word)) = take_bit n (unat s)"
  by (rule unsigned_take_bit_eq)

lemma status_below:
  assumes "\<forall>i \<ge> n. \<not> bit (s :: 32 word) i" and "n \<le> 2"
  shows "unat s < 2 ^ n"
proof -
  have "take_bit n s = s"
    using assms(1) by (intro bit_eqI) (auto simp: bit_take_bit_iff not_le)
  then have "unat s = take_bit n (unat s)" by (metis unat_take_bit32)
  then show ?thesis by (metis take_bit_nat_less_exp)
qed

lemma all_ones_not_small:
  assumes "3 \<le> n" and "\<forall>i < n. bit (s :: 32 word) i" and "n \<le> 32"
  shows "2 * n \<le> unat s"
proof -
  have "take_bit n (unat s) = mask n"
    using assms by (intro bit_eqI) (auto simp: bit_take_bit_iff bit_mask_iff bit_unsigned_iff)
  then have "take_bit n (unat s) = 2 ^ n - 1" by (simp add: mask_eq_exp_minus_1)
  moreover have "take_bit n (unat s) \<le> unat s" by (rule take_bit_nat_less_eq_self)
  moreover have "2 * n + 1 \<le> 2 ^ n"
    using assms(1) by (induction n rule: nat_induct_at_least) auto
  ultimately show ?thesis by linarith
qed

section \<open>A concrete library for the examples\<close>

text \<open>Components 10 to 19 are switches, every other one is a power component; component 3 asks for
  two virtual nodes. A resistor of one ohm sits between node 0 and ground for each component.\<close>

definition demo_stamp :: "real \<Rightarrow> matrix \<Rightarrow> matrix" where
  "demo_stamp x g = (case g of (a # r) # rows \<Rightarrow> ((a + x) # r) # rows | _ \<Rightarrow> g)"

definition demo_mna :: "(demo_world, matrix) cps_mna" where
  "demo_mna = cps_attrs.extend demo_cps (cps_mna.fields
     (\<lambda>c. 10 \<le> c \<and> c < 20) (\<lambda>c. c < 10) (\<lambda>c. 20 \<le> c) (\<lambda>c. c < 10) int
     (\<lambda>c. c = 3) (\<lambda>c. 2) (\<lambda>i. \<lparr>node_name_of = ''virtual'', isGround = False, phaseType = Single, simNodes = [i]\<rparr>)
     (\<lambda>c i k w. w\<lparr>demo_attrs := (demo_attrs w)(100 * c + k := IntV (uint i))\<rparr>)
     (\<lambda>c f w. w) (\<lambda>c w. w) (\<lambda>c om dt w. w) (\<lambda>c b w. w)
     (\<lambda>c w. demo_stamp 1) (\<lambda>c b w. demo_stamp (if b then 2 ^ c else 0)) (\<lambda>c w v. v)
     (\<lambda>c t w. w) (\<lambda>c t s. s) (\<lambda>c t s. s) (\<lambda>c w. demo_closed w c) (\<lambda>i v w. w)
     (\<lambda>g. g) [] (\<lambda>g v. v))"

lemma demo_mna_simps [simp]:
  "asSwitch demo_mna c \<longleftrightarrow> 10 \<le> c \<and> c < 20" "asMNA demo_mna c \<longleftrightarrow> c < 10"
  "asSignal demo_mna c \<longleftrightarrow> 20 \<le> c" "asPower demo_mna c \<longleftrightarrow> c < 10"
  "hasVirtualNodes demo_mna c \<longleftrightarrow> c = 3" "virtualNodesNumber demo_mna c = 2"
  "mnaIsClosed demo_mna c w = demo_closed w c" "lu demo_mna g = g" "lu_empty demo_mna = []"
  "mnaApplySystemMatrixStamp demo_mna c w = demo_stamp 1"
  "mnaApplySwitchSystemMatrixStamp demo_mna c b w = demo_stamp (if b then 2 ^ c else 0)"
  "setBehaviour demo_mna c bh w = w" "mnaStep demo_mna c t s = s" "mnaPostStep demo_mna c t s' = s'"
  "mnaUpdateVoltage demo_mna i v w = w" "sigStep demo_mna c t w = w"
  "lu_solve demo_mna g v = v"
  by (simp_all add: demo_mna_def cps_attrs.defs cps_mna.defs)

definition demo_node :: "phase_type \<Rightarrow> node" where
  "demo_node p = \<lparr>node_name_of = ''n'', isGround = False, phaseType = p, simNodes = [0, 0, 0]\<rparr>"

definition demo_solver :: "node list \<Rightarrow> comp list \<Rightarrow> comp list \<Rightarrow> matrix mna" where
  "demo_solver ns pcs sws = (MnaSolver_new demo_mna True True True 1 DP True)
     \<lparr>mNodes := ns, mPowerComponents := pcs, mSwitches := sws, mNumSimNodes := 1,
      mNumNetNodes := of_nat (length ns), mNumNodes := of_nat (length ns)\<rparr>"

lemma demo_solver_simps [simp]:
  "mNodes (demo_solver ns pcs sws) = ns" "mPowerComponents (demo_solver ns pcs sws) = pcs"
  "mSwitches (demo_solver ns pcs sws) = sws" "mCurrentSwitchStatus (demo_solver ns pcs sws) = 0"
  "mNumNetNodes (demo_solver ns pcs sws) = of_nat (length ns)"
  "mNumNodes (demo_solver ns pcs sws) = of_nat (length ns)" "mComplex (demo_solver ns pcs sws)"
  "mLuFactorizations (demo_solver ns pcs sws) = Map.empty"
  by (simp_all add: demo_solver_def MnaSolver_new_def)

text \<open>C16: virtual nodes are appended to the network nodes: for each component that asks for them,
  in the order of the components, one node per request, whose matrix index is its position in the
  list of nodes; the component is told exactly that node at the requested place. The loop starts
  from \<open>mNumNetNodes - 1\<close>, which wraps around when there is no network node, and still
  numbers the nodes from 0.\<close>

theorem createVirtualNodes_allocates:
  fixes cps m w
  defines "n \<equiv> length (mNodes m)" and "rs \<equiv> virtual_requests cps (mPowerComponents m)"
    and "m' \<equiv> fst (createVirtualNodes cps (m, w))"
  assumes "n + length rs < 2 ^ 32"
  shows "mNodes m' = mNodes m @ virtual_nodes cps n (length rs)
     \<and> snd (createVirtualNodes cps (m, w)) = serve_requests cps n rs w
     \<and> unat (mNumNetNodes m') = n \<and> unat (mNumVirtualNodes m') = length rs
     \<and> unat (mNumNodes m') = length (mNodes m')"
proof -
  have len: "length (mNodes m @ virtual_nodes cps n (length rs)) = n + length rs"
    by (simp add: virtual_nodes_def n_def)
  show ?thesis
    using assms(4) create_virtual_fold[of cps "mPowerComponents m" "mNodes m" w] len
    by (simp add: createVirtualNodes_def m'_def Let_def rs_def n_def split_def del: of_nat_add)
       (simp add: of_nat_add)
qed

theorem createVirtualNodes_allocates_witness:
  "mNodes (fst (createVirtualNodes demo_mna (demo_solver [demo_node Single] [3] [], demo_start)))
     = [demo_node Single] @ virtual_nodes demo_mna 1 (Suc 1)"
proof -
  have "virtual_requests demo_mna [3] = [(3, 0), (3, 1)]"
    by (simp add: virtual_requests_def upt_rec)
  then show ?thesis
    using createVirtualNodes_allocates[of "demo_solver [demo_node Single] [3] []" demo_mna demo_start]
    by simp
qed

theorem assignSimNodes_contiguous_witness:
  "sim_indices (mNodes (assignSimNodes (demo_solver [demo_node ABC, demo_node Single] [] []))) = [0, 1, 2, 3]"
  using assignSimNodes_contiguous[of "demo_solver [demo_node ABC, demo_node Single] [] []" 2]
  by (simp add: demo_node_def nodes_ok_def phases_def total_phases_def upt_rec)


section \<open>The factorisation in use\<close>

text \<open>The system matrix the positions of the switches in world \<open>v\<close> call for, stamped in world \<open>w\<close>.\<close>

definition position_matrix :: "('w, 'lu) cps_mna \<Rightarrow> 'w \<Rightarrow> 'w \<Rightarrow> 'lu mna \<Rightarrow> matrix" where
  "position_matrix cps w v m =
     fold (\<lambda>c. mnaApplySwitchSystemMatrixStamp cps c (mnaIsClosed cps c v) w) (mSwitches m)
       (stamp_all cps w (mPowerComponents m) (zero_matrix (mna_dim m)))"

lemma fold_nth: "fold (\<lambda>i. f (xs ! i)) [0..<length xs] a = fold f xs a"
  using fold_map[of f "(!) xs" "[0..<length xs]"] by (simp add: map_nth comp_def)

lemma switched_matrix_position:
  assumes "\<And>i. i < length (mSwitches m) \<Longrightarrow> bit key i \<longleftrightarrow> mnaIsClosed cps (mSwitches m ! i) v"
  shows "switched_matrix cps w m key (zero_matrix (mna_dim m)) = position_matrix cps w v m"
proof -
  have "fold (\<lambda>i. mnaApplySwitchSystemMatrixStamp cps (mSwitches m ! i) (bit key i) w) [0..<length (mSwitches m)]
     = fold (\<lambda>i. mnaApplySwitchSystemMatrixStamp cps (mSwitches m ! i) (mnaIsClosed cps (mSwitches m ! i) v) w)
         [0..<length (mSwitches m)]"
    by (intro ext fold_cong) (auto simp: assms)
  then show ?thesis
    using fold_nth[of "\<lambda>c. mnaApplySwitchSystemMatrixStamp cps c (mnaIsClosed cps c v) w" "mSwitches m"]
    by (simp add: switched_matrix_def position_matrix_def)
qed

lemma switched_matrix_cong:
  "mSwitches m = mSwitches m' \<Longrightarrow> mPowerComponents m = mPowerComponents m' \<Longrightarrow>
   switched_matrix cps w m = switched_matrix cps w m'"
  by (simp add: switched_matrix_def fun_eq_iff)

lemma map_of_status_keys:
  assumes "2 * n \<le> 2 ^ 32"
  shows "map_of (map (\<lambda>i. (of_nat i :: 32 word, f i)) [0..<2 * n]) s
     = (if unat s < 2 * n then Some (f (unat s)) else None)"
proof (cases "unat s < 2 * n")
  case True
  have inj: "distinct (map fst (map (\<lambda>i. (of_nat i :: 32 word, f i)) [0..<2 * n]))"
    using assms by (auto simp: distinct_map inj_on_def of_nat32_inject)
  have "(s, f (unat s)) \<in> set (map (\<lambda>i. (of_nat i :: 32 word, f i)) [0..<2 * n])"
    using True by (auto intro!: image_eqI[of _ _ "unat s"])
  then show ?thesis using map_of_is_SomeI[OF inj] True by simp
next
  case False
  have "unat (of_nat i :: 32 word) = i" if "i < 2 * n" for i
    using assms that by simp
  then show ?thesis using False by (auto simp: map_of_eq_None_iff)
qed

text \<open>The keys of the factorisations after \<open>initialize\<close>, and what they are factorisations of.\<close>

lemma initialize_matrices_lookup:
  assumes "createEmptySystemMatrix m = Ok m1" and "mLuFactorizations m = Map.empty"
    and "initialize_matrices cps (m1, w) = (m2, w2)"
  shows "mLuFactorizations m2 s = (if unat s < 2 * length (mSwitches m)
       then Some (lu cps (switched_matrix cps w2 m s (zero_matrix (mna_dim m)))) else None)"
    and "mSwitches m2 = mSwitches m" and "mPowerComponents m2 = mPowerComponents m"
    and "mSwitchedMatrices m2 \<noteq> [] \<longleftrightarrow> mSwitches m \<noteq> []"
    and "mCurrentSwitchStatus m2 = mCurrentSwitchStatus (updateSwitchStatus cps w2 m)"
proof -
  have m1: "length (mSwitches m) \<le> SWITCH_NUM"
    "m1 = m\<lparr>mTmpSystemMatrix := zero_matrix (mna_dim m),
       mSwitchedMatrices := map (\<lambda>i. (of_nat i, zero_matrix (mna_dim m))) [0..<length (mSwitches m) * 2]\<rparr>"
    using assms(1) by (auto simp: createEmptySystemMatrix_def Let_def mna_dim_def split: if_splits)
  have small: "2 * length (mSwitches m) \<le> 2 ^ 32" using m1(1) by (simp add: SWITCH_NUM_def)
  have w2: "w2 = set_behaviours cps SimulationBehaviour m1 w"
    using assms(3) by (simp add: initialize_matrices_def Let_def)
  have "switched_matrix cps w2 (m1\<lparr>mTmpSystemMatrix := g, mTmpLuFactorization := h\<rparr>) = switched_matrix cps w2 m" for g h
    by (rule switched_matrix_cong) (simp_all add: m1(2))
  then have "mLuFactorizations m2 = mLuFactorizations m1 ++ map_of (map (\<lambda>(k, a).
      (k, lu cps (switched_matrix cps w2 m k a))) (mSwitchedMatrices m1))"
    using assms(3) unfolding w2
    by (auto simp: initialize_matrices_def Let_def updateSwitchStatus_def comp_def split_def)
  then have "mLuFactorizations m2 = map_of (map (\<lambda>i. (of_nat i,
      lu cps (switched_matrix cps w2 m (of_nat i) (zero_matrix (mna_dim m))))) [0..<2 * length (mSwitches m)])"
    using assms(2) by (simp add: m1(2) comp_def mult.commute)
  then show "mLuFactorizations m2 s = (if unat s < 2 * length (mSwitches m)
       then Some (lu cps (switched_matrix cps w2 m s (zero_matrix (mna_dim m)))) else None)"
    using map_of_status_keys[OF small,
      of "\<lambda>i. lu cps (switched_matrix cps w2 m (of_nat i) (zero_matrix (mna_dim m)))" s] by simp
  show "mSwitches m2 = mSwitches m" "mPowerComponents m2 = mPowerComponents m"
    "mSwitchedMatrices m2 \<noteq> [] \<longleftrightarrow> mSwitches m \<noteq> []"
    "mCurrentSwitchStatus m2 = mCurrentSwitchStatus (updateSwitchStatus cps w2 m)"
    using assms(3) m1(2) by (auto simp: initialize_matrices_def Let_def updateSwitchStatus_def)
qed

text \<open>C7: with one or two switches, every combination of switch positions has its factorisation.
  After \<open>initialize\<close>, whatever the positions of the switches become, the status word read by
  \<open>updateSwitchStatus\<close> selects the factorisation of the matrix into which the power components
  and then the switches in exactly these positions were stamped.\<close>

theorem factorization_of_position:
  assumes "createEmptySystemMatrix m = Ok m1" and "mLuFactorizations m = Map.empty"
    and "initialize_matrices cps (m1, w) = (m2, w2)"
    and "mCurrentSwitchStatus m = 0" and "length (mSwitches m) \<le> 2" and "mSwitches m \<noteq> []"
  shows "mLuFactorizations m2 (mCurrentSwitchStatus (updateSwitchStatus cps v m2))
     = Some (lu cps (position_matrix cps w2 v m))"
proof -
  let ?s = "mCurrentSwitchStatus (updateSwitchStatus cps v m2)"
  have num: "length (mSwitches m) \<le> SWITCH_NUM" "length (mSwitches m2) \<le> SWITCH_NUM"
    using assms(5) initialize_matrices_lookup(2)[OF assms(1-3)] by (auto simp: SWITCH_NUM_def)
  have bits: "bit ?s i \<longleftrightarrow> i < length (mSwitches m) \<and> mnaIsClosed cps (mSwitches m ! i) v" for i
    using bit_updateSwitchStatus[OF num(2), of cps v i] bit_updateSwitchStatus[OF num(1), of cps w2 i]
      initialize_matrices_lookup(2,5)[OF assms(1-3)] assms(4) by simp
  have "unat ?s < 2 ^ length (mSwitches m)"
    by (rule status_below) (use bits assms(5) in auto)
  moreover have "(2::nat) ^ length (mSwitches m) = 2 * length (mSwitches m)"
    using assms(5,6) by (cases "mSwitches m"; cases "tl (mSwitches m)") auto
  ultimately show ?thesis
    using initialize_matrices_lookup(1)[OF assms(1-3), of ?s] switched_matrix_position[of m ?s cps v w2] bits
    by simp
qed

text \<open>C14: with three or more switches this fails. Only \<open>2 * n\<close> of the \<open>2 ^ n\<close> combinations get
  a matrix (\<open>mSwitches.size() * 2\<close>), so when all switches are closed no factorisation is stored
  under the status word, and \<open>solve\<close> uses a default constructed one that \<open>operator[]\<close> inserts.\<close>

theorem closed_switches_without_factorization:
  assumes "createEmptySystemMatrix m = Ok m1" and "mLuFactorizations m = Map.empty"
    and "initialize_matrices cps (m1, w) = (m2, w2)"
    and "3 \<le> length (mSwitches m)" and "\<forall>c \<in> set (mSwitches m). mnaIsClosed cps c v"
  shows "let m3 = updateSwitchStatus cps v m2
     in mLuFactorizations m3 (mCurrentSwitchStatus m3) = None
      \<and> mLeftSideVector (solve cps m3) = lu_solve cps (lu_empty cps) (mRightSideVector m3)"
proof -
  let ?m = "updateSwitchStatus cps v m2"
  have num: "length (mSwitches m) \<le> 32" using createEmptySystemMatrix_Ok[OF assms(1)] by (simp add: SWITCH_NUM_def)
  have "bit (mCurrentSwitchStatus ?m) i" if "i < length (mSwitches m)" for i
    using bit_updateSwitchStatus[of m2 cps v i] that num initialize_matrices_lookup(2)[OF assms(1-3)] assms(5)
    by (simp add: SWITCH_NUM_def)
  then have "2 * length (mSwitches m) \<le> unat (mCurrentSwitchStatus ?m)"
    using all_ones_not_small[OF assms(4) _ num] by blast
  then have none: "mLuFactorizations ?m (mCurrentSwitchStatus ?m) = None"
    using initialize_matrices_lookup(1)[OF assms(1-3)] by (simp add: updateSwitchStatus_def)
  have "mSwitchedMatrices ?m \<noteq> []"
    using initialize_matrices_lookup(4)[OF assms(1-3)] assms(4) by (auto simp: updateSwitchStatus_def)
  then show ?thesis using none by (simp add: solve_def Let_def)
qed

section \<open>One step of the solver\<close>

text \<open>C6: A step clears the source vector, steps the signal components, then the power components
  and then the switches, solves with the factorisation of the switch status found at the end of
  the previous step, hands that solution to the post steps of the power components and to the
  nodes, and only then reads the new switch positions: a switch operated before or during the step
  has no influence on the matrix of that step.\<close>

theorem MnaSolver_step_uses_previous_status:
  assumes "MnaSolver_step cps rnd time (m, w) = (time', m', w')"
    and "mSwitchedMatrices m \<noteq> []" and "mLuFactorizations m (mCurrentSwitchStatus m) = Some f"
    and "length (mSwitches m) \<le> SWITCH_NUM"
  shows "\<exists>w1 g r l w2 l2.
     fold (\<lambda>c. mnaStep cps c time) (mPowerComponents m @ mSwitches m)
       (fold (\<lambda>c. sigStep cps c time) (mSignalComponents m) w,
        mTmpSystemMatrix m, set_zero (mRightSideVector m), mLeftSideVector m) = (w1, g, r, l)
     \<and> fold (\<lambda>c. mnaPostStep cps c time) (mPowerComponents m) (w1, r, lu_solve cps f r)
       = (w2, mRightSideVector m', l2)
     \<and> mLeftSideVector m' = l2
     \<and> w' = fold (\<lambda>i. mnaUpdateVoltage cps (of_nat i) l2) [0..<unat (mNumNetNodes m)] w2
     \<and> (\<forall>i. i < length (mSwitches m) \<longrightarrow>
          (bit (mCurrentSwitchStatus m') i \<longleftrightarrow> mnaIsClosed cps (mSwitches m ! i) w'))
     \<and> time' = fp_add rnd time (mna_mTimeStep m)"
proof -
  let ?w0 = "fold (\<lambda>c. sigStep cps c time) (mSignalComponents m) w"
  let ?s0 = "(?w0, mTmpSystemMatrix m, set_zero (mRightSideVector m), mLeftSideVector m)"
  obtain wp gp rp lp where p: "fold (\<lambda>c. mnaStep cps c time) (mPowerComponents m) ?s0 = (wp, gp, rp, lp)"
    by (rule prod_cases4)
  obtain w1 g r l where q: "fold (\<lambda>c. mnaStep cps c time) (mSwitches m) (wp, gp, rp, lp) = (w1, g, r, l)"
    by (rule prod_cases4)
  obtain w2 r2 l2 where t: "fold (\<lambda>c. mnaPostStep cps c time) (mPowerComponents m) (w1, r, lu_solve cps f r) = (w2, r2, l2)"
    by (rule prod_cases3)
  let ?m1 = "m\<lparr>mTmpSystemMatrix := g, mRightSideVector := r, mLeftSideVector := l\<rparr>"
  have solved: "solve cps ?m1 = ?m1\<lparr>mLuFactorizations := (mLuFactorizations m)(mCurrentSwitchStatus m \<mapsto> f),
      mLeftSideVector := lu_solve cps f r\<rparr>"
    using assms(2,3) by (simp add: solve_def)
  have upd: "mCurrentSwitchStatus m' = mCurrentSwitchStatus (updateSwitchStatus cps w' m)
      \<and> mRightSideVector m' = r2 \<and> mLeftSideVector m' = l2
      \<and> w' = fold (\<lambda>i. mnaUpdateVoltage cps (of_nat i) l2) [0..<unat (mNumNetNodes m)] w2
      \<and> time' = fp_add rnd time (mna_mTimeStep m)"
    using assms(1) solved t
    by (auto simp: MnaSolver_step_def mna_steps_def mna_post_steps_def update_voltages_def
        updateSwitchStatus_def p q Let_def)
  then show ?thesis using p q t assms(4) by (simp add: bit_updateSwitchStatus)
qed


definition demo_ready :: "comp list \<Rightarrow> matrix mna" where
  "demo_ready sws = fst (initialize_matrices demo_mna
     (final_state (createEmptySystemMatrix (demo_solver [demo_node Single] [1] sws)), demo_start))"

lemma demo_created:
  "length sws \<le> 32 \<Longrightarrow> createEmptySystemMatrix (demo_solver [demo_node Single] [1] sws)
     = Ok (final_state (createEmptySystemMatrix (demo_solver [demo_node Single] [1] sws)))"
  by (simp add: createEmptySystemMatrix_def Let_def SWITCH_NUM_def)

lemma demo_initialized:
  "initialize_matrices demo_mna (final_state (createEmptySystemMatrix (demo_solver [demo_node Single] [1] sws)), demo_start)
     = (demo_ready sws, demo_start)"
proof -
  have "fold (\<lambda>c. setBehaviour demo_mna c SimulationBehaviour) cs w = w" for cs w
    by (induction cs) simp_all
  then show ?thesis
    by (simp add: demo_ready_def prod_eq_iff initialize_matrices_def Let_def set_behaviours_def)
qed

text \<open>Closing both switches makes the second step use the matrix with both of them stamped.\<close>

theorem factorization_of_position_witness:
  "mLuFactorizations (demo_ready [10, 11]) (mCurrentSwitchStatus
     (updateSwitchStatus demo_mna (demo_start\<lparr>demo_closed := (\<lambda>_. True)\<rparr>) (demo_ready [10, 11])))
   = Some (position_matrix demo_mna demo_start (demo_start\<lparr>demo_closed := (\<lambda>_. True)\<rparr>)
       (demo_solver [demo_node Single] [1] [10, 11]))"
  using factorization_of_position[OF demo_created _ demo_initialized,
      of "[10, 11]" "demo_start\<lparr>demo_closed := (\<lambda>_. True)\<rparr>"] by simp

theorem closed_switches_without_factorization_witness:
  "mLuFactorizations (demo_ready [10, 11, 12]) (mCurrentSwitchStatus
     (updateSwitchStatus demo_mna (demo_start\<lparr>demo_closed := (\<lambda>_. True)\<rparr>) (demo_ready [10, 11, 12]))) = None"
  using closed_switches_without_factorization[OF demo_created _ demo_initialized,
      of "[10, 11, 12]" "demo_start\<lparr>demo_closed := (\<lambda>_. True)\<rparr>"]
  by (simp add: Let_def updateSwitchStatus_def)

definition demo_stepping :: "matrix mna" where
  "demo_stepping = (demo_solver [demo_node Single] [1] [10])
     \<lparr>mSwitchedMatrices := [(0, [[1]])], mLuFactorizations := [0 \<mapsto> [[1]]], mRightSideVector := [7]\<rparr>"

lemma demo_folds [simp]:
  "fold (\<lambda>c. sigStep demo_mna c t) cs = (\<lambda>w. w)" "fold (\<lambda>c. mnaStep demo_mna c t) cs = (\<lambda>s. s)"
  "fold (\<lambda>c. mnaPostStep demo_mna c t) cs = (\<lambda>p. p)"
  "fold (\<lambda>i. mnaUpdateVoltage demo_mna (of_nat i) l) ns = (\<lambda>w. w)"
proof -
  show "fold (\<lambda>c. sigStep demo_mna c t) cs = (\<lambda>w. w)" by (induction cs) (auto simp: fun_eq_iff)
  show "fold (\<lambda>c. mnaStep demo_mna c t) cs = (\<lambda>s. s)" by (induction cs) (auto simp: fun_eq_iff)
  show "fold (\<lambda>c. mnaPostStep demo_mna c t) cs = (\<lambda>p. p)" by (induction cs) (auto simp: fun_eq_iff)
  show "fold (\<lambda>i. mnaUpdateVoltage demo_mna (of_nat i) l) ns = (\<lambda>w. w)" by (induction ns) (auto simp: fun_eq_iff)
qed

theorem MnaSolver_step_uses_previous_status_witness:
  "\<exists>t m' w'. MnaSolver_step demo_mna (\<lambda>x. x) 0
      (demo_stepping, demo_start\<lparr>demo_closed := (\<lambda>_. True)\<rparr>) = (t, m', w')
     \<and> t = 1 \<and> mLeftSideVector m' = [0] \<and> bit (mCurrentSwitchStatus m') 0"
proof -
  let ?w = "demo_start\<lparr>demo_closed := (\<lambda>_. True)\<rparr>"
  obtain t m' w' where step: "MnaSolver_step demo_mna (\<lambda>x. x) 0 (demo_stepping, ?w) = (t, m', w')"
    by (rule prod_cases3)
  have "t = 1 \<and> mLeftSideVector m' = [0] \<and> bit (mCurrentSwitchStatus m') 0"
    using MnaSolver_step_uses_previous_status[OF step, of "[[1]]"]
    by (simp add: demo_stepping_def SWITCH_NUM_def set_zero_def fp_add_def)
       (simp add: demo_solver_def MnaSolver_new_def)
  then show ?thesis using step by blast
qed

section \<open>Steady state initialisation\<close>

lemma steady_body_keeps [simp]:
  "mna_mTimeStep (fst (steady_body cps fmt t s)) = mna_mTimeStep (fst s)"
  by (simp add: steady_body_def mna_steps_def mna_post_steps_def init_log_def Let_def split_def)

lemma steady_loop_returns:
  assumes "10 - t \<le> real k * d" and "0 \<le> t" and "0 < d"
    and "\<And>x. 0 \<le> x \<Longrightarrow> x < 10 \<Longrightarrow> x + d \<le> fp_add rnd x (mna_mTimeStep (fst s))"
  shows "\<exists>r. steady_loop cps rnd fmt t prev s = Some r"
  using assms
proof (induction k arbitrary: t prev s)
  case 0
  then show ?case by (subst steady_loop.simps) simp
next
  case (Suc k)
  show ?case
  proof (cases "t < 10")
    case True
    have next_t: "t + d \<le> fp_add rnd t (mna_mTimeStep (fst s))" using Suc.prems True by simp
    have "\<exists>r. steady_loop cps rnd fmt (fp_add rnd t (mna_mTimeStep (fst s)))
        (mLeftSideVector (fst (steady_body cps fmt t s))) (steady_body cps fmt t s) = Some r"
      by (rule Suc.IH) (use Suc.prems next_t in \<open>auto simp: distrib_right\<close>)
    then show ?thesis by (subst steady_loop.simps) (simp add: Let_def)
  qed (subst steady_loop.simps, simp)
qed

text \<open>The steady state initialisation ends, whatever the components do: its loop stops at
  convergence or at simulation time 10, provided that the floating point clock advances by at
  least some \<open>d > 0\<close> per step.\<close>

theorem steadyStateInitialization_returns:
  assumes "0 < d" and "\<forall>x. 0 \<le> x \<longrightarrow> x < 10 \<longrightarrow> x + d \<le> fp_add rnd x (mna_mTimeStep m)"
  shows "\<exists>r. steadyStateInitialization cps rnd fmt (m, w) = Some r"
proof -
  obtain k where k: "10 / d < real k" using reals_Archimedean2 by blast
  have "\<exists>r. steady_loop cps rnd fmt 0 prev (m', w') = Some r"
    if "mna_mTimeStep m' = mna_mTimeStep m" for prev m' w'
    by (rule steady_loop_returns[of _ k d]) (use assms k that in \<open>auto simp: field_simps\<close>)
  then show ?thesis by (force simp: steadyStateInitialization_def Let_def)
qed

theorem steadyStateInitialization_returns_witness:
  "\<exists>r. steadyStateInitialization demo_mna (\<lambda>x. x) (\<lambda>_. ''0'') (demo_stepping, demo_start) = Some r"
  using steadyStateInitialization_returns[of 1 "\<lambda>x. x" demo_stepping]
  by (simp add: fp_add_def demo_stepping_def demo_solver_def MnaSolver_new_def)

text \<open>What the solver relies on: the library keeps the sizes of the vectors it is handed.\<close>

definition keeps_sizes :: "('w, 'lu) cps_mna \<Rightarrow> bool" where
  "keeps_sizes cps \<longleftrightarrow>
     (\<forall>c t w g r l. length (fst (snd (snd (mnaStep cps c t (w, g, r, l))))) = length r)
     \<and> (\<forall>c t w r l. length (snd (snd (mnaPostStep cps c t (w, r, l)))) = length l)
     \<and> (\<forall>f v. length (lu_solve cps f v) = length v)"

lemma keeps_sizes_steps:
  assumes "keeps_sizes cps"
  shows "length (fst (snd (snd (fold (\<lambda>c. mnaStep cps c t) cs s)))) = length (fst (snd (snd s)))"
    and "length (snd (snd (fold (\<lambda>c. mnaPostStep cps c t) cs p))) = length (snd (snd p))"
proof -
  have "length (fst (snd (snd (mnaStep cps c t s)))) = length (fst (snd (snd s)))" for c s
    using assms by (cases s) (simp add: keeps_sizes_def)
  then show "length (fst (snd (snd (fold (\<lambda>c. mnaStep cps c t) cs s)))) = length (fst (snd (snd s)))"
    by (induction cs arbitrary: s) auto
  have "length (snd (snd (mnaPostStep cps c t p))) = length (snd (snd p))" for c p
    using assms by (cases p) (simp add: keeps_sizes_def)
  then show "length (snd (snd (fold (\<lambda>c. mnaPostStep cps c t) cs p))) = length (snd (snd p))"
    by (induction cs arbitrary: p) auto
qed

lemma steady_body_length:
  assumes "keeps_sizes cps"
  shows "length (mLeftSideVector (fst (steady_body cps fmt t s))) = length (mRightSideVector (fst s))"
proof -
  have lu: "length (lu_solve cps f v) = length v" for f v using assms by (simp add: keeps_sizes_def)
  show ?thesis
    by (simp add: steady_body_def mna_steps_def mna_post_steps_def init_log_def Let_def split_def
        keeps_sizes_steps[OF assms] lu set_zero_def)
qed

lemma total_phases_three_phase:
  assumes "\<exists>n \<in> set ns. phaseType n = ABC"
  shows "length ns < total_phases ns"
proof -
  have le: "length xs \<le> total_phases xs" for xs :: "node list"
    by (induction xs) (auto simp: total_phases_def phases_def)
  obtain n xs ys where "ns = xs @ n # ys" "phaseType n = ABC" using assms by (metis split_list)
  then show ?thesis using le[of xs] le[of ys] by (simp add: total_phases_def phases_def)
qed

text \<open>the steady state initialisation does not work with three phase nodes. It compares the
  solution, which has two entries per simulation node, with a vector that has two entries per node;
  as soon as one node has three phases the sizes differ, and the matrix library refuses to subtract
  them (its assertion) in the first iteration.\<close>

theorem steady_state_three_phase_fails:
  assumes "keeps_sizes cps" and "mComplex m" and "2 * total_phases (mNodes m) < 2 ^ 32"
    and "mNumNodes m = of_nat (length (mNodes m))" and "mNumSimNodes m = of_nat (total_phases (mNodes m))"
    and "length (mRightSideVector m) = mna_dim m" and "\<exists>n \<in> set (mNodes m). phaseType n = ABC"
  shows "\<exists>s. steadyStateInitialization cps rnd fmt (m, w) = Some (Throw AssertionFailure s)"
proof -
  have less: "length (mNodes m) < total_phases (mNodes m)"
    using total_phases_three_phase assms(7) by blast
  have twice: "2 * (of_nat n :: 32 word) = of_nat (2 * n)" for n by simp
  have dims: "unat (2 * mNumNodes m) = 2 * length (mNodes m)" "mna_dim m = 2 * total_phases (mNodes m)"
    using less assms(2,3) unfolding mna_dim_def assms(4,5) twice by (simp_all del: of_nat_mult)
  have "\<exists>s. steady_loop cps rnd fmt 0 prev (m', w') = Some (Throw AssertionFailure s)"
    if "length prev = 2 * length (mNodes m)" "mRightSideVector m' = mRightSideVector m" for prev m' w'
    using that less dims assms(6)
    by (subst steady_loop.simps) (simp add: Let_def steady_body_length[OF assms(1)])
  then have "\<exists>s. steady_loop cps rnd fmt 0 (zero_vec (2 * length (mNodes m)))
      (m\<lparr>mTmpSystemMatrix := g, mTmpLuFactorization := lu cps g\<rparr>, w') = Some (Throw AssertionFailure s)" for g w'
    by (simp add: zero_vec_def)
  then obtain s where "steady_loop cps rnd fmt 0 (zero_vec (2 * length (mNodes m)))
      (let w' = set_behaviours cps Initialization m w;
           g = stamp_all cps w' (mSwitches m) (stamp_all cps w' (mPowerComponents m) (mTmpSystemMatrix m))
       in (m\<lparr>mTmpSystemMatrix := g, mTmpLuFactorization := lu cps g\<rparr>, w')) = Some (Throw AssertionFailure s)"
    unfolding Let_def by blast
  then show ?thesis by (simp add: steadyStateInitialization_def Let_def dims(1))
qed

theorem steady_state_three_phase_fails_witness:
  "\<exists>s. steadyStateInitialization demo_mna (\<lambda>x. x) (\<lambda>_. ''0'')
     ((demo_solver [demo_node ABC] [1] [])\<lparr>mNumSimNodes := 3, mRightSideVector := zero_vec 6\<rparr>, demo_start)
     = Some (Throw AssertionFailure s)"
  by (rule steady_state_three_phase_fails)
     (simp_all add: keeps_sizes_def demo_node_def total_phases_def phases_def zero_vec_def mna_dim_def)

section \<open>Errors of the initialisation\<close>

lemma prepare_topology_switches:
  "mSwitches (fst (prepare_topology cps sys (m, w))) = mSwitches m @ filter (asSwitch cps) (sysComponents sys)"
  "mSteadyStateInit (fst (prepare_topology cps sys (m, w))) = mSteadyStateInit m"
  by (simp_all add: prepare_topology_def identifyTopologyObjects_def createVirtualNodes_def assignSimNodes_def
      sortExecutionPriority_def createEmptyVectors_def Let_def split_def)

text \<open>the errors of \<open>initialize\<close> without steady state initialisation. It always ends; it throws
  \<open>SolverException\<close> exactly for a topology without components, and \<open>SystemError\<close> exactly for
  more than 32 switches; otherwise it returns.\<close>

theorem MnaSolver_initialize_errors:
  assumes "\<not> mSteadyStateInit m" and "mSwitches m = []"
  shows "\<exists>r. MnaSolver_initialize cps rnd fmt sys (m, w) = Some r
     \<and> (r = Throw SolverException (m\<lparr>mSystem := sys\<rparr>, w) \<longleftrightarrow> sysComponents sys = [])
     \<and> ((\<exists>s. r = Throw (SystemError ''Too many Switches.'') s)
          \<longleftrightarrow> 32 < length (filter (asSwitch cps) (sysComponents sys)))
     \<and> (returned r \<longleftrightarrow> sysComponents sys \<noteq> [] \<and> length (filter (asSwitch cps) (sysComponents sys)) \<le> 32)"
proof (cases "sysComponents sys = []")
  case False
  obtain m1 w1 where pre: "prepare_topology cps sys (m, w) = (m1, w1)" by fastforce
  have sw: "mSwitches m1 = filter (asSwitch cps) (sysComponents sys)" "\<not> mSteadyStateInit m1"
    using prepare_topology_switches[of cps sys m w] assms pre by simp_all
  have st: "mSteadyStateInit (fst (initialize_components cps (m2, w2))) = mSteadyStateInit m2" for m2 w2
    by (simp add: initialize_components_def Let_def)
  show ?thesis
    using False pre sw
    by (auto simp: MnaSolver_initialize_def createEmptySystemMatrix_def Let_def SWITCH_NUM_def st)
qed (simp add: MnaSolver_initialize_def)

theorem MnaSolver_initialize_errors_witness:
  "\<exists>r. MnaSolver_initialize demo_mna (\<lambda>x. x) (\<lambda>_. ''0'')
      \<lparr>sysComponents = [1, 10], sysNodes = [demo_node Single], mSystemFrequency = 50, mSystemOmega = 314\<rparr>
      (MnaSolver_new demo_mna True True True 1 DP False, demo_start) = Some r \<and> returned r"
  using MnaSolver_initialize_errors[of "MnaSolver_new demo_mna True True True 1 DP False" demo_mna "\<lambda>x. x" "\<lambda>_. ''0''"
    "\<lparr>sysComponents = [1, 10], sysNodes = [demo_node Single], mSystemFrequency = 50, mSystemOmega = 314\<rparr>" demo_start]
  by (simp add: MnaSolver_new_def) blast

end
