(* ===== verification/Simulation.thy ===== *)
theory Simulation
  imports Event Interface MNASolver
begin

text \<open>
  The offline simulation (\<open>Source/Simulation.cpp\<close>, \<open>Include/dpsim/Simulation.h\<close>) over the virtual
  interface \<open>Solver\<close> (\<open>Include/dpsim/Solver.h\<close>).

  Interfaces and loggers are registered as pointers and may be registered more than once, so they
  live in two stores, functions from addresses to objects. Everything the code reaches through a
  library is a field of the record \<open>sim_lib\<close>: the component library, one VILLAS library per
  interface, the solver's virtual methods and the two text conversions of the logger. The solver
  object has the type \<open>'s\<close>.
\<close>

section \<open>State\<close>

datatype solver_type = MNA | DAE

text \<open>The virtual methods of \<open>Solver\<close>: \<open>step\<close> returns the next time.\<close>

record ('s, 'd, 'w, 'e) sim_lib =
  sl_cps :: "'w cps_attrs"
  sl_villas :: "nat \<Rightarrow> ('d, 'e) villas"
  sl_step :: "real \<Rightarrow> 's \<times> 'w \<Rightarrow> real \<times> 's \<times> 'w"
  sl_log :: "real \<Rightarrow> 's \<Rightarrow> 's"
  sl_fmt :: "real \<Rightarrow> string"
  sl_toString :: "attr \<Rightarrow> 'w \<Rightarrow> string"

record interface_mapping =
  ifm_interface :: nat
  ifm_sync :: bool
  ifm_syncStart :: bool
  ifm_downsampling :: "32 word"

record logger_mapping =
  lgm_logger :: nat
  lgm_downsampling :: "32 word"

record ('s, 'd, 'w, 'e) sim =
  mName :: string
  mFinalTime :: real
  sim_mTime :: real
  mTimeStep :: real
  mTimeStepCount :: int
  mSolver :: 's
  mEvents :: event_queue
  mInterfaces :: "interface_mapping list"
  mLoggers :: "logger_mapping list"
  interface_at :: "nat \<Rightarrow> ('d, 'w) interface"
  logger_at :: "nat \<Rightarrow> logger"
  sim_world :: 'w
  sim_env :: 'e

section \<open>Construction\<close>

text \<open>Which solver the constructor creates; \<open>sundials\<close> is \<open>WITH_SUNDIALS\<close>. The flag of
  \<open>MnaSolver\<close> is whether its variables are complex.\<close>

definition select_solver :: "bool \<Rightarrow> domain \<Rightarrow> solver_type \<Rightarrow> exn + (solver_type \<times> bool)" where
  "select_solver sundials domain solverType =
     (case solverType of
        MNA \<Rightarrow> Inr (MNA, domain = DP)
      | DAE \<Rightarrow> if sundials then Inr (DAE, False) else Inl UnsupportedSolverException)"

definition Simulation_new ::
    "string \<Rightarrow> real \<Rightarrow> real \<Rightarrow> 's \<Rightarrow> (nat \<Rightarrow> ('d, 'w) interface) \<Rightarrow> (nat \<Rightarrow> logger) \<Rightarrow> 'w \<Rightarrow> 'e \<Rightarrow>
     ('s, 'd, 'w, 'e) sim" where
  "Simulation_new name timeStep finalTime solver ifs lgs w e =
     \<lparr>mName = name, mFinalTime = finalTime, sim_mTime = 0, mTimeStep = timeStep, mTimeStepCount = 0,
      mSolver = solver, mEvents = [], mInterfaces = [], mLoggers = [], interface_at = ifs,
      logger_at = lgs, sim_world = w, sim_env = e\<rparr>"

text \<open>The constructor with a topology and the MNA solver: the solver is created and initialised
  before the simulation exists; what it throws or its not returning is that of the constructor.\<close>

definition Simulation_new_MNA ::
    "('w, 'lu) cps_mna \<Rightarrow> (real \<Rightarrow> real) \<Rightarrow> (real \<Rightarrow> string) \<Rightarrow> bool \<Rightarrow> string \<Rightarrow> system_topology \<Rightarrow> real \<Rightarrow> real \<Rightarrow>
     domain \<Rightarrow> bool \<Rightarrow> bool \<Rightarrow> (nat \<Rightarrow> ('d, 'w) interface) \<Rightarrow> (nat \<Rightarrow> logger) \<Rightarrow> 'w \<Rightarrow> 'e \<Rightarrow>
     (exn + ('lu mna, 'd, 'w, 'e) sim) option" where
  "Simulation_new_MNA cps rnd fmt opened name sys timeStep finalTime domain logging steadyStateInit ifs lgs w e =
     map_option (\<lambda>r. case r of
         Throw x s \<Rightarrow> Inl x
       | Ok (m, w) \<Rightarrow> Inr (Simulation_new name timeStep finalTime m ifs lgs w e))
       (MnaSolver_initialize cps rnd fmt sys
          (MnaSolver_new cps (domain = DP) opened logging timeStep domain steadyStateInit, w))"

definition sim_addEvent :: "event \<Rightarrow> ('s, 'd, 'w, 'e) sim \<Rightarrow> ('s, 'd, 'w, 'e) sim" where
  "sim_addEvent ev s = s\<lparr>mEvents := addEvent ev (mEvents s)\<rparr>"

definition addInterface ::
    "nat \<Rightarrow> bool \<Rightarrow> bool \<Rightarrow> 32 word \<Rightarrow> ('s, 'd, 'w, 'e) sim \<Rightarrow> ('s, 'd, 'w, 'e) sim" where
  "addInterface eint sync syncStart downsampling s =
     s\<lparr>mInterfaces := mInterfaces s @ [\<lparr>ifm_interface = eint, ifm_sync = sync,
         ifm_syncStart = syncStart, ifm_downsampling = downsampling\<rparr>]\<rparr>"

definition addInterface_sync :: "nat \<Rightarrow> bool \<Rightarrow> ('s, 'd, 'w, 'e) sim \<Rightarrow> ('s, 'd, 'w, 'e) sim" where
  "addInterface_sync eint sync = addInterface eint sync sync 1"

definition addLogger :: "nat \<Rightarrow> 32 word \<Rightarrow> ('s, 'd, 'w, 'e) sim \<Rightarrow> ('s, 'd, 'w, 'e) sim" where
  "addLogger lg downsampling s =
     s\<lparr>mLoggers := mLoggers s @ [\<lparr>lgm_logger = lg, lgm_downsampling = downsampling\<rparr>]\<rparr>"

section \<open>Calls on one interface or logger\<close>

definition read_interface ::
    "('s, 'd, 'w, 'e) sim_lib \<Rightarrow> nat \<Rightarrow> bool \<Rightarrow> ('s, 'd, 'w, 'e) sim \<Rightarrow> ('s, 'd, 'w, 'e) sim outcome option" where
  "read_interface L p blocking s =
     map_option (\<lambda>r. case r of
         Ok (e, w) \<Rightarrow> Ok (s\<lparr>sim_env := e, sim_world := w\<rparr>)
       | Throw x (e, w) \<Rightarrow> Throw x (s\<lparr>sim_env := e, sim_world := w\<rparr>))
       (readValues (sl_cps L) (sl_villas L p) (interface_at s p) blocking (sim_env s, sim_world s))"

definition put_interface :: "nat \<Rightarrow> ('d, 'w) interface \<times> 'e \<Rightarrow> ('s, 'd, 'w, 'e) sim \<Rightarrow> ('s, 'd, 'w, 'e) sim" where
  "put_interface p ie s = s\<lparr>interface_at := (interface_at s)(p := fst ie), sim_env := snd ie\<rparr>"

definition write_interface ::
    "('s, 'd, 'w, 'e) sim_lib \<Rightarrow> nat \<Rightarrow> ('s, 'd, 'w, 'e) sim \<Rightarrow> ('s, 'd, 'w, 'e) sim outcome option" where
  "write_interface L p s =
     map_option (\<lambda>r. case r of
         Ok ie \<Rightarrow> Ok (put_interface p ie s) | Throw x ie \<Rightarrow> Throw x (put_interface p ie s))
       (writeValues (sl_cps L) (sl_villas L p) (sim_world s) (interface_at s p, sim_env s))"

definition open_interface ::
    "('s, 'd, 'w, 'e) sim_lib \<Rightarrow> nat \<Rightarrow> ('s, 'd, 'w, 'e) sim \<Rightarrow> ('s, 'd, 'w, 'e) sim outcome option" where
  "open_interface L p s =
     Some (case Interface_open (sl_villas L p) (interface_at s p, sim_env s) of
         Ok ie \<Rightarrow> Ok (put_interface p ie s) | Throw x ie \<Rightarrow> Throw x (put_interface p ie s))"

text \<open>\<open>mTimeStepCount % downsampling == 0\<close>: the count is converted to unsigned; \<open>None\<close> is the
  division by zero.\<close>

definition due :: "int \<Rightarrow> 32 word \<Rightarrow> bool option" where
  "due n downsampling =
     (if downsampling = 0 then None else Some ((word_of_int n :: 32 word) mod downsampling = 0))"

definition when_due ::
    "32 word \<Rightarrow> (('s, 'd, 'w, 'e) sim \<Rightarrow> ('s, 'd, 'w, 'e) sim outcome option) \<Rightarrow> ('s, 'd, 'w, 'e) sim \<Rightarrow>
     ('s, 'd, 'w, 'e) sim outcome option" where
  "when_due downsampling f s =
     (case due (mTimeStepCount s) downsampling of
        None \<Rightarrow> Some (Throw (UndefinedBehaviour ''modulo zero'') s)
      | Some b \<Rightarrow> if b then f s else Some (Ok s))"

definition log_logger ::
    "('s, 'd, 'w, 'e) sim_lib \<Rightarrow> nat \<Rightarrow> ('s, 'd, 'w, 'e) sim \<Rightarrow> ('s, 'd, 'w, 'e) sim outcome option" where
  "log_logger L p s =
     Some (Ok (s\<lparr>logger_at := (logger_at s)(p :=
       DataLogger_log (sl_fmt L) (sl_toString L) (sim_mTime s) (sim_world s) (logger_at s p))\<rparr>))"

section \<open>One step\<close>

definition step_reads ::
    "('s, 'd, 'w, 'e) sim_lib \<Rightarrow> ('s, 'd, 'w, 'e) sim \<Rightarrow> ('s, 'd, 'w, 'e) sim outcome option" where
  "step_reads L s = for_each_run
     (\<lambda>ifm. when_due (ifm_downsampling ifm) (read_interface L (ifm_interface ifm) (ifm_sync ifm))) (mInterfaces s) s"

definition step_events ::
    "('s, 'd, 'w, 'e) sim_lib \<Rightarrow> ('s, 'd, 'w, 'e) sim \<Rightarrow> ('s, 'd, 'w, 'e) sim outcome option" where
  "step_events L s =
     Some (case handleEvents (sl_cps L) (sim_mTime s) (mEvents s, sim_world s) of
         Ok (q, w) \<Rightarrow> Ok (s\<lparr>mEvents := q, sim_world := w\<rparr>)
       | Throw x (q, w) \<Rightarrow> Throw x (s\<lparr>mEvents := q, sim_world := w\<rparr>))"

text \<open>\<open>nextTime = mSolver->step(mTime); mSolver->log(mTime);\<close>\<close>

definition step_solver ::
    "('s, 'd, 'w, 'e) sim_lib \<Rightarrow> ('s, 'd, 'w, 'e) sim \<Rightarrow> real \<times> ('s, 'd, 'w, 'e) sim" where
  "step_solver L s =
     (let (nextTime, sv, w) = sl_step L (sim_mTime s) (mSolver s, sim_world s)
      in (nextTime, s\<lparr>mSolver := sl_log L (sim_mTime s) sv, sim_world := w\<rparr>))"

definition step_writes ::
    "('s, 'd, 'w, 'e) sim_lib \<Rightarrow> ('s, 'd, 'w, 'e) sim \<Rightarrow> ('s, 'd, 'w, 'e) sim outcome option" where
  "step_writes L s = for_each_run
     (\<lambda>ifm. when_due (ifm_downsampling ifm) (write_interface L (ifm_interface ifm))) (mInterfaces s) s"

definition step_logs ::
    "('s, 'd, 'w, 'e) sim_lib \<Rightarrow> ('s, 'd, 'w, 'e) sim \<Rightarrow> ('s, 'd, 'w, 'e) sim outcome option" where
  "step_logs L s = for_each_run
     (\<lambda>lg. when_due (lgm_downsampling lg) (log_logger L (lgm_logger lg))) (mLoggers s) s"

definition step_advance :: "real \<Rightarrow> ('s, 'd, 'w, 'e) sim \<Rightarrow> ('s, 'd, 'w, 'e) sim outcome option" where
  "step_advance nextTime s =
     (let s = s\<lparr>sim_mTime := nextTime\<rparr>
      in case int32_inc (mTimeStepCount s) of
           None \<Rightarrow> Some (Throw (UndefinedBehaviour ''mTimeStepCount++'') s)
         | Some n \<Rightarrow> Some (Ok (s\<lparr>mTimeStepCount := n\<rparr>)))"

definition Simulation_step ::
    "('s, 'd, 'w, 'e) sim_lib \<Rightarrow> ('s, 'd, 'w, 'e) sim \<Rightarrow> ('s, 'd, 'w, 'e) sim outcome option" where
  "Simulation_step L s =
     then_run (then_run (step_reads L s) (step_events L)) (\<lambda>s.
       let (nextTime, s) = step_solver L s
       in then_run (then_run (step_writes L s) (step_logs L)) (step_advance nextTime))"

section \<open>The whole simulation\<close>

definition sync ::
    "('s, 'd, 'w, 'e) sim_lib \<Rightarrow> ('s, 'd, 'w, 'e) sim \<Rightarrow> ('s, 'd, 'w, 'e) sim outcome option" where
  "sync L s =
     then_run (for_each_run (\<lambda>ifm. write_interface L (ifm_interface ifm)) (mInterfaces s) s)
       (\<lambda>s. for_each_run (\<lambda>ifm. read_interface L (ifm_interface ifm) (ifm_syncStart ifm)) (mInterfaces s) s)"

definition open_all ::
    "('s, 'd, 'w, 'e) sim_lib \<Rightarrow> ('s, 'd, 'w, 'e) sim \<Rightarrow> ('s, 'd, 'w, 'e) sim outcome option" where
  "open_all L s = for_each_run (\<lambda>ifm. open_interface L (ifm_interface ifm)) (mInterfaces s) s"

definition close_all :: "('s, 'd, 'w, 'e) sim_lib \<Rightarrow> ('s, 'd, 'w, 'e) sim \<Rightarrow> ('s, 'd, 'w, 'e) sim" where
  "close_all L s = s\<lparr>sim_env := fold (\<lambda>ifm. Interface_close (sl_villas L (ifm_interface ifm)))
     (mInterfaces s) (sim_env s)\<rparr>"

partial_function (option) run_loop ::
    "('s, 'd, 'w, 'e) sim_lib \<Rightarrow> ('s, 'd, 'w, 'e) sim \<Rightarrow> ('s, 'd, 'w, 'e) sim outcome option" where
  "run_loop L s =
     (if sim_mTime s < mFinalTime s then
        (case Simulation_step L s of
           None \<Rightarrow> None
         | Some (Throw x s) \<Rightarrow> Some (Throw x s)
         | Some (Ok s) \<Rightarrow> run_loop L s)
      else Some (Ok s))"

definition flush_all :: "('s, 'd, 'w, 'e) sim \<Rightarrow> ('s, 'd, 'w, 'e) sim" where
  "flush_all s = s\<lparr>logger_at := fold (\<lambda>lg st. st(lgm_logger lg := DataLogger_flush (st (lgm_logger lg))))
     (mLoggers s) (logger_at s)\<rparr>"

definition Simulation_run ::
    "('s, 'd, 'w, 'e) sim_lib \<Rightarrow> ('s, 'd, 'w, 'e) sim \<Rightarrow> ('s, 'd, 'w, 'e) sim outcome option" where
  "Simulation_run L s =
     then_run (then_run (then_run (open_all L s) (sync L)) (run_loop L)) 
       (\<lambda>s. Some (Ok (flush_all (close_all L s))))"

section \<open>What the parts of a step change\<close>

lemma when_due_Ok:
  "when_due d f s = Some (Ok t) \<longleftrightarrow> d \<noteq> 0 \<and>
     (if (word_of_int (mTimeStepCount s) :: 32 word) mod d = 0 then f s = Some (Ok t) else t = s)"
  by (auto simp: when_due_def due_def)

lemma read_interface_Ok:
  "read_interface L p b s = Some (Ok t) \<longleftrightarrow> (\<exists>e w. t = s\<lparr>sim_env := e, sim_world := w\<rparr>
     \<and> readValues (sl_cps L) (sl_villas L p) (interface_at s p) b (sim_env s, sim_world s) = Some (Ok (e, w)))"
  (is "_ \<longleftrightarrow> (\<exists>e w. _ \<and> ?r = _)")
proof (cases ?r)
  case (Some r)
  then show ?thesis by (cases r) (auto simp: read_interface_def split: prod.splits)
qed (simp add: read_interface_def)

lemma write_interface_Ok:
  "write_interface L p s = Some (Ok t) \<longleftrightarrow> (\<exists>ie. t = put_interface p ie s
     \<and> writeValues (sl_cps L) (sl_villas L p) (sim_world s) (interface_at s p, sim_env s) = Some (Ok ie))"
  (is "_ \<longleftrightarrow> (\<exists>ie. _ \<and> ?r = _)")
proof (cases ?r)
  case (Some r)
  then show ?thesis by (cases r) (auto simp: write_interface_def)
qed (simp add: write_interface_def)

lemma step_reads_frame:
  assumes "step_reads L s = Some (Ok t)"
  shows "\<exists>e w. t = s\<lparr>sim_env := e, sim_world := w\<rparr>"
proof (rule for_each_run_invariant[OF assms[unfolded step_reads_def]])
  show "\<exists>e w. s = s\<lparr>sim_env := e, sim_world := w\<rparr>" by (intro exI[of _ "sim_env s"] exI[of _ "sim_world s"]) simp
  fix ifm u v
  assume "when_due (ifm_downsampling ifm) (read_interface L (ifm_interface ifm) (ifm_sync ifm)) u = Some (Ok v)"
  then have "v = u \<or> (\<exists>e w. v = u\<lparr>sim_env := e, sim_world := w\<rparr>)"
    by (auto simp: when_due_Ok read_interface_Ok split: if_splits)
  moreover assume "\<exists>e w. u = s\<lparr>sim_env := e, sim_world := w\<rparr>"
  ultimately show "\<exists>e w. v = s\<lparr>sim_env := e, sim_world := w\<rparr>"
    by (elim disjE exE) (simp_all, blast+)
qed

lemma step_writes_frame:
  assumes "step_writes L s = Some (Ok t)"
  shows "\<exists>ifs e. t = s\<lparr>interface_at := ifs, sim_env := e\<rparr>"
proof (rule for_each_run_invariant[OF assms[unfolded step_writes_def]])
  show "\<exists>ifs e. s = s\<lparr>interface_at := ifs, sim_env := e\<rparr>"
    by (intro exI[of _ "interface_at s"] exI[of _ "sim_env s"]) simp
  fix ifm u v
  assume "when_due (ifm_downsampling ifm) (write_interface L (ifm_interface ifm)) u = Some (Ok v)"
  then have "v = u \<or> (\<exists>ifs e. v = u\<lparr>interface_at := ifs, sim_env := e\<rparr>)"
    by (auto simp: when_due_Ok write_interface_Ok put_interface_def split: if_splits)
  moreover assume "\<exists>ifs e. u = s\<lparr>interface_at := ifs, sim_env := e\<rparr>"
  ultimately show "\<exists>ifs e. v = s\<lparr>interface_at := ifs, sim_env := e\<rparr>"
    by (elim disjE exE) (simp_all, blast+)
qed

text \<open>The loggers after the logging part of a step, which starts in state \<open>s\<close>.\<close>

definition logged :: "('s, 'd, 'w, 'e) sim_lib \<Rightarrow> ('s, 'd, 'w, 'e) sim \<Rightarrow> logger_mapping list \<Rightarrow> (nat \<Rightarrow> logger) \<Rightarrow> nat \<Rightarrow> logger" where
  "logged L s lgs = fold (\<lambda>lg st. if (word_of_int (mTimeStepCount s) :: 32 word) mod lgm_downsampling lg = 0
     then st(lgm_logger lg := DataLogger_log (sl_fmt L) (sl_toString L) (sim_mTime s) (sim_world s) (st (lgm_logger lg)))
     else st) lgs"

lemma logged_cong:
  "mTimeStepCount s = mTimeStepCount t \<Longrightarrow> sim_mTime s = sim_mTime t \<Longrightarrow> sim_world s = sim_world t \<Longrightarrow>
   logged L s = logged L t"
  by (intro ext) (simp add: logged_def cong: if_cong)

lemma logs_run:
  "for_each_run (\<lambda>lg. when_due (lgm_downsampling lg) (log_logger L (lgm_logger lg))) lgs (s\<lparr>logger_at := st\<rparr>) =
     Some (Ok t) \<longleftrightarrow> (\<forall>lg \<in> set lgs. lgm_downsampling lg \<noteq> 0) \<and> t = s\<lparr>logger_at := logged L s lgs st\<rparr>"
proof (induction lgs arbitrary: st)
  case Nil
  then show ?case by (auto simp: logged_def)
next
  case (Cons lg lgs)
  define st' where "st' = logged L s [lg] st"
  have head: "when_due (lgm_downsampling lg) (log_logger L (lgm_logger lg)) (s\<lparr>logger_at := st\<rparr>) = Some (Ok u) \<longleftrightarrow>
      lgm_downsampling lg \<noteq> 0 \<and> u = s\<lparr>logger_at := st'\<rparr>" for u
    by (auto simp: when_due_Ok log_logger_def logged_def st'_def)
  have tail: "logged L s (lg # lgs) st = logged L s lgs st'" by (simp add: logged_def st'_def)
  show ?case unfolding tail using Cons[of st'] by (auto simp: then_run_Some_Ok head)
qed

lemma step_logs_Ok:
  "step_logs L s = Some (Ok t) \<longleftrightarrow> (\<forall>lg \<in> set (mLoggers s). lgm_downsampling lg \<noteq> 0)
     \<and> t = s\<lparr>logger_at := logged L s (mLoggers s) (logger_at s)\<rparr>"
  using logs_run[where lgs = "mLoggers s" and s = s and st = "logger_at s" and t = t and L = L] by (simp add: step_logs_def)

lemma step_advance_Ok:
  "step_advance nt s = Some (Ok t) \<longleftrightarrow> mTimeStepCount s < 2147483647
     \<and> t = s\<lparr>sim_mTime := nt, mTimeStepCount := mTimeStepCount s + 1\<rparr>"
  by (auto simp: step_advance_def int32_inc_def Let_def)

text \<open>A step that returns, in one formula.\<close>

lemma Simulation_step_Ok:
  assumes "Simulation_step L s = Some (Ok s')"
  obtains e w q w1 nt sv w2 ifs e2 where
    "step_reads L s = Some (Ok (s\<lparr>sim_env := e, sim_world := w\<rparr>))"
    "handleEvents (sl_cps L) (sim_mTime s) (mEvents s, w) = Ok (q, w1)"
    "sl_step L (sim_mTime s) (mSolver s, w1) = (nt, sv, w2)"
    "mTimeStepCount s < 2147483647" "\<forall>lg \<in> set (mLoggers s). lgm_downsampling lg \<noteq> 0"
    "s' = s\<lparr>sim_env := e2, sim_world := w2, mEvents := q, mSolver := sl_log L (sim_mTime s) sv,
       interface_at := ifs, logger_at := logged L (s\<lparr>sim_world := w2\<rparr>) (mLoggers s) (logger_at s),
       sim_mTime := nt, mTimeStepCount := mTimeStepCount s + 1\<rparr>"
proof -
  obtain s1 s2 where s1: "step_reads L s = Some (Ok s1)" and s2: "step_events L s1 = Some (Ok s2)"
    and rest: "(let (nt, s) = step_solver L s2
       in then_run (then_run (step_writes L s) (step_logs L)) (step_advance nt)) = Some (Ok s')"
    using assms by (auto simp: Simulation_step_def then_run_Some_Ok)
  obtain e w where s1_eq: "s1 = s\<lparr>sim_env := e, sim_world := w\<rparr>" using step_reads_frame[OF s1] by blast
  obtain q w1 where ev: "handleEvents (sl_cps L) (sim_mTime s) (mEvents s, w) = Ok (q, w1)"
      and s2_eq: "s2 = s1\<lparr>mEvents := q, sim_world := w1\<rparr>"
    using s2 by (auto simp: step_events_def s1_eq split: outcome.splits)
  obtain nt sv w2 where st: "sl_step L (sim_mTime s) (mSolver s, w1) = (nt, sv, w2)" by (rule prod_cases3)
  obtain s4 s5 where s4: "step_writes L (s2\<lparr>mSolver := sl_log L (sim_mTime s) sv, sim_world := w2\<rparr>) = Some (Ok s4)"
      and s5: "step_logs L s4 = Some (Ok s5)" and s6: "step_advance nt s5 = Some (Ok s')"
    using rest st by (auto simp: step_solver_def s2_eq s1_eq then_run_Some_Ok)
  obtain ifs e2 where s4_eq: "s4 = s2\<lparr>mSolver := sl_log L (sim_mTime s) sv, sim_world := w2,
      interface_at := ifs, sim_env := e2\<rparr>"
    using step_writes_frame[OF s4] by auto
  have lgd: "logged L s4 = logged L (s\<lparr>sim_world := w2\<rparr>)"
    by (rule logged_cong) (simp_all add: s4_eq s2_eq s1_eq)
  show ?thesis
    using that[OF s1[unfolded s1_eq] ev st, of ifs e2] s5 s6
    by (simp add: step_logs_Ok step_advance_Ok lgd) (simp add: s4_eq s2_eq s1_eq)
qed

section \<open>One step\<close>

text \<open>C2: a step executes exactly the due events, before the solver runs. When \<open>step\<close> returns, the
  events \<open>es\<close> were executed, in order of time, in the world left by the interfaces: they are the
  events with a time up to the start of the step, and all later ones are still queued. The solver
  stepped from the world the events left, the time is the one it returned, and the number of steps
  grew by one.\<close>

theorem step_executes_due_events:
  assumes "Simulation_step L s = Some (Ok s')" and "heap_ok mTime (mEvents s)"
  shows "\<exists>s0 es w1 sv. step_reads L s = Some (Ok s0)
     \<and> for_each (execute (sl_cps L)) es (sim_world s0) = Ok w1
     \<and> sorted (map mTime es) \<and> mset (mEvents s) = mset es + mset (mEvents s')
     \<and> (\<forall>ev \<in> set es. mTime ev \<le> sim_mTime s) \<and> (\<forall>ev \<in> set (mEvents s'). sim_mTime s < mTime ev)
     \<and> sl_step L (sim_mTime s) (mSolver s, w1) = (sim_mTime s', sv, sim_world s')
     \<and> mSolver s' = sl_log L (sim_mTime s) sv
     \<and> mTimeStepCount s' = mTimeStepCount s + 1 \<and> heap_ok mTime (mEvents s')"
proof -
  from assms(1) obtain e w q w1 nt sv w2 ifs e2 where
    rd: "step_reads L s = Some (Ok (s\<lparr>sim_env := e, sim_world := w\<rparr>))" and
    ev: "handleEvents (sl_cps L) (sim_mTime s) (mEvents s, w) = Ok (q, w1)" and
    st: "sl_step L (sim_mTime s) (mSolver s, w1) = (nt, sv, w2)" and
    s': "s' = s\<lparr>sim_env := e2, sim_world := w2, mEvents := q, mSolver := sl_log L (sim_mTime s) sv,
       interface_at := ifs, logger_at := logged L (s\<lparr>sim_world := w2\<rparr>) (mLoggers s) (logger_at s),
       sim_mTime := nt, mTimeStepCount := mTimeStepCount s + 1\<rparr>"
    by (rule Simulation_step_Ok)
  obtain es where es: "evl.handled (sim_mTime s) (mEvents s) es q" "for_each (execute (sl_cps L)) es w = Ok w1"
      "\<forall>x \<in># mset q. sim_mTime s < mTime x"
    using evl.loop_Ok[OF assms(2) ev] by blast
  show ?thesis
    using rd es st by (intro exI[of _ "s\<lparr>sim_env := e, sim_world := w\<rparr>"] exI[of _ es] exI[of _ w1] exI[of _ sv])
      (simp add: s' evl.handled_def)
qed

lemma logged_other: "p \<notin> lgm_logger ` set lgs \<Longrightarrow> logged L s lgs st p = st p"
  by (induction lgs arbitrary: st) (auto simp: logged_def)

lemma logged_at:
  assumes "distinct (map lgm_logger lgs)" and "lg \<in> set lgs"
  shows "logged L s lgs st (lgm_logger lg) =
     (if (word_of_int (mTimeStepCount s) :: 32 word) mod lgm_downsampling lg = 0
      then DataLogger_log (sl_fmt L) (sl_toString L) (sim_mTime s) (sim_world s) (st (lgm_logger lg))
      else st (lgm_logger lg))"
  using assms
proof (induction lgs arbitrary: st)
  case (Cons x lgs)
  have step: "logged L s (x # lgs) st = logged L s lgs (logged L s [x] st)" by (simp add: logged_def)
  show ?case
  proof (cases "lg = x")
    case True
    then have "lgm_logger lg \<notin> lgm_logger ` set lgs" using Cons.prems(1) by simp
    then show ?thesis unfolding step by (simp add: logged_other True) (simp add: logged_def)
  next
    case False
    then have "lg \<in> set lgs" using Cons.prems(2) by simp
    moreover have "lgm_logger lg \<noteq> lgm_logger x"
      using calculation Cons.prems(1) by (metis distinct.simps(2) image_eqI list.set_map list.simps(9))
    ultimately have "lg \<in> set lgs" "lgm_logger lg \<noteq> lgm_logger x" by blast+
    then show ?thesis
      unfolding step using Cons.IH[of "logged L s [x] st"] Cons.prems(1) logged_other[of "lgm_logger lg" "[x]" L s st]
      by simp
  qed
qed simp

lemma word_mod_0_iff:
  assumes "0 \<le> n" and "n < 2147483647"
  shows "(word_of_int n :: 32 word) mod d = 0 \<longleftrightarrow> unat d dvd nat n"
proof -
  have "unat (word_of_int n :: 32 word) = nat n"
    using assms unat_of_nat32[of "nat n"] by simp
  then have "unat ((word_of_int n :: 32 word) mod d) = nat n mod unat d" by (simp add: unat_mod)
  then show ?thesis by (metis mod_eq_0_iff_dvd unat_eq_zero)
qed

text \<open>downsampling. In a step with number \<open>n\<close>, a logger registered once with downsampling \<open>d\<close>
  writes a line exactly when \<open>d\<close> divides \<open>n\<close>; the line carries the time at which the step started
  and the values after the solver's step. A downsampling of 0 never gets through a step.\<close>

theorem step_logs_when_due:
  assumes "Simulation_step L s = Some (Ok s')" and "lg \<in> set (mLoggers s)"
    and "distinct (map lgm_logger (mLoggers s))" and "0 \<le> mTimeStepCount s"
  shows "lgm_downsampling lg \<noteq> 0 \<and> logger_at s' (lgm_logger lg) =
     (if unat (lgm_downsampling lg) dvd nat (mTimeStepCount s)
      then DataLogger_log (sl_fmt L) (sl_toString L) (sim_mTime s) (sim_world s') (logger_at s (lgm_logger lg))
      else logger_at s (lgm_logger lg))"
proof -
  obtain w2 where small: "mTimeStepCount s < 2147483647"
    and nz: "\<forall>lg \<in> set (mLoggers s). lgm_downsampling lg \<noteq> 0"
    and s': "logger_at s' = logged L (s\<lparr>sim_world := w2\<rparr>) (mLoggers s) (logger_at s)" "sim_world s' = w2"
    by (rule Simulation_step_Ok[OF assms(1)]) simp
  show ?thesis
    using nz assms(2) logged_at[OF assms(3,2), of L "s\<lparr>sim_world := w2\<rparr>" "logger_at s"]
      word_mod_0_iff[of "mTimeStepCount s" "lgm_downsampling lg"] small assms(4)
    by (simp add: s')
qed

section \<open>Solvers with a fixed step\<close>

text \<open>The time after \<open>n\<close> steps of \<open>dt\<close>, added up in floating point.\<close>

definition clock :: "(real \<Rightarrow> real) \<Rightarrow> real \<Rightarrow> real \<Rightarrow> nat \<Rightarrow> real" where
  "clock rnd dt t n = ((\<lambda>x. fp_add rnd x dt) ^^ n) t"

lemma clock_0 [simp]: "clock rnd dt t 0 = t"
  by (simp add: clock_def)

lemma clock_Suc: "clock rnd dt t (Suc n) = clock rnd dt (fp_add rnd t dt) n"
  by (simp add: clock_def funpow_Suc_right del: funpow.simps)

text \<open>A simulation in which nothing can fail: no interfaces, no downsampling by zero, and no event
  whose execution throws.\<close>

definition quiet :: "('s, 'd, 'w, 'e) sim_lib \<Rightarrow> ('s, 'd, 'w, 'e) sim \<Rightarrow> bool" where
  "quiet L s \<longleftrightarrow> mInterfaces s = [] \<and> (\<forall>lg \<in> set (mLoggers s). lgm_downsampling lg \<noteq> 0)
     \<and> heap_ok mTime (mEvents s) \<and> (\<forall>ev \<in> set (mEvents s). \<forall>w. returned (execute (sl_cps L) ev w))"

lemma quiet_handleEvents:
  assumes "quiet L s"
  shows "\<exists>q w'. handleEvents (sl_cps L) t (mEvents s, w) = Ok (q, w') \<and> heap_ok mTime q
     \<and> set q \<subseteq> set (mEvents s)"
proof (cases "handleEvents (sl_cps L) t (mEvents s, w)")
  have heap: "heap_ok mTime (mEvents s)" using assms by (simp add: quiet_def)
  case (Ok r)
  then obtain q w' where r: "r = (q, w')" by (cases r)
  then obtain es where "heap_ok mTime q" "mset (mEvents s) = mset es + mset q"
    using evl.loop_Ok[OF heap Ok[unfolded r]] by (auto simp: evl.handled_def)
  moreover from this(2) have "set q \<subseteq> set (mEvents s)"
    by (metis mset_subset_eq_add_right set_mset_mono set_mset_mset)
  ultimately show ?thesis using Ok r by blast
next
  have heap: "heap_ok mTime (mEvents s)" using assms by (simp add: quiet_def)
  case (Throw x r)
  then obtain q w' where r: "r = (q, w')" by (cases r)
  then obtain es v where h: "evl.handled t (mEvents s) es q" "mset q \<noteq> {#}" "execute (sl_cps L) (hd q) v = Throw x w'"
    using evl.loop_Throw[OF heap Throw[unfolded r]] by auto
  then have "hd q \<in># mset (mEvents s)" by (cases q) (auto simp: evl.handled_def)
  then have "returned (execute (sl_cps L) (hd q) v)" using assms by (simp add: quiet_def)
  then show ?thesis using h(3) by simp
qed

lemma for_each_run_Nil_parts:
  "mInterfaces s = [] \<Longrightarrow> step_reads L s = Some (Ok s)" "mInterfaces s = [] \<Longrightarrow> step_writes L s = Some (Ok s)"
  "mInterfaces s = [] \<Longrightarrow> open_all L s = Some (Ok s)" "mInterfaces s = [] \<Longrightarrow> sync L s = Some (Ok s)"
  by (simp_all add: step_reads_def step_writes_def open_all_def sync_def)

text \<open>The contract of a solver with a fixed step: \<open>step(time)\<close> returns \<open>time\<close> plus its step, which
  neither \<open>step\<close> nor \<open>log\<close> changes.\<close>

locale fixed_step =
  fixes L :: "('s, 'd, 'w, 'e) sim_lib" and rnd :: "real \<Rightarrow> real" and dt_of :: "'s \<Rightarrow> real"
  assumes step_time: "fst (sl_step L t (sv, w)) = fp_add rnd t (dt_of sv)"
    and step_dt: "dt_of (fst (snd (sl_step L t (sv, w)))) = dt_of sv"
    and log_dt: "dt_of (sl_log L t sv) = dt_of sv"
begin

lemma quiet_step:
  assumes "quiet L s"
  shows "\<exists>s'. sim_mTime s' = fp_add rnd (sim_mTime s) (dt_of (mSolver s)) \<and> dt_of (mSolver s') = dt_of (mSolver s)
     \<and> mFinalTime s' = mFinalTime s \<and> sim_env s' = sim_env s \<and> quiet L s'
     \<and> Simulation_step L s = Some (if mTimeStepCount s < 2147483647 then Ok s' else Throw (UndefinedBehaviour ''mTimeStepCount++'') s')
     \<and> (mTimeStepCount s < 2147483647 \<longrightarrow> mTimeStepCount s' = mTimeStepCount s + 1)"
proof -
  obtain q w' where ev: "handleEvents (sl_cps L) (sim_mTime s) (mEvents s, sim_world s) = Ok (q, w')"
      and q: "heap_ok mTime q" "set q \<subseteq> set (mEvents s)"
    using quiet_handleEvents[OF assms] by blast
  obtain nt sv w2 where st: "sl_step L (sim_mTime s) (mSolver s, w') = (nt, sv, w2)" by (rule prod_cases3)
  let ?s2 = "s\<lparr>mEvents := q, mSolver := sl_log L (sim_mTime s) sv, sim_world := w2\<rparr>"
  let ?s3 = "?s2\<lparr>logger_at := logged L ?s2 (mLoggers s) (logger_at s), sim_mTime := nt\<rparr>"
  let ?s4 = "if mTimeStepCount s < 2147483647 then ?s3\<lparr>mTimeStepCount := mTimeStepCount s + 1\<rparr> else ?s3"
  have nz: "\<forall>lg \<in> set (mLoggers s). lgm_downsampling lg \<noteq> 0" "mInterfaces s = []"
    using assms by (simp_all add: quiet_def)
  have "step_logs L ?s2 = Some (Ok (?s2\<lparr>logger_at := logged L ?s2 (mLoggers s) (logger_at s)\<rparr>))"
    using nz by (simp add: step_logs_Ok)
  then have "Simulation_step L s = Some (if mTimeStepCount s < 2147483647 then Ok ?s4
      else Throw (UndefinedBehaviour ''mTimeStepCount++'') ?s4)"
    using nz ev st
    by (simp add: Simulation_step_def for_each_run_Nil_parts step_events_def step_solver_def
        step_advance_def int32_inc_def Let_def)
  moreover have "quiet L ?s4" using assms q by (auto simp: quiet_def)
  ultimately show ?thesis
    using step_time[of "sim_mTime s" "mSolver s" w'] step_dt[of "sim_mTime s" "mSolver s" w'] st log_dt
    by (intro exI[of _ ?s4]) auto
qed

lemma quiet_run_loop:
  assumes "quiet L s" and "mTimeStepCount s + int n \<le> 2147483647"
    and "\<And>k. k < n \<Longrightarrow> clock rnd (dt_of (mSolver s)) (sim_mTime s) k < mFinalTime s"
  shows "\<exists>s'. run_loop L s = run_loop L s' \<and> quiet L s' \<and> mTimeStepCount s' = mTimeStepCount s + int n
     \<and> sim_mTime s' = clock rnd (dt_of (mSolver s)) (sim_mTime s) n \<and> mFinalTime s' = mFinalTime s
     \<and> dt_of (mSolver s') = dt_of (mSolver s)"
  using assms
proof (induction n arbitrary: s)
  case (Suc n)
  obtain s1 where s1: "sim_mTime s1 = fp_add rnd (sim_mTime s) (dt_of (mSolver s))"
      "dt_of (mSolver s1) = dt_of (mSolver s)" "mFinalTime s1 = mFinalTime s" "quiet L s1"
      "Simulation_step L s = Some (Ok s1)" "mTimeStepCount s1 = mTimeStepCount s + 1"
    using quiet_step[OF Suc.prems(1)] Suc.prems(2) by auto
  have "sim_mTime s < mFinalTime s" using Suc.prems(3)[of 0] by simp
  then have run: "run_loop L s = run_loop L s1" by (subst run_loop.simps) (simp add: s1(5))
  have "clock rnd (dt_of (mSolver s1)) (sim_mTime s1) k < mFinalTime s1" if "k < n" for k
    using Suc.prems(3)[of "Suc k"] that by (simp add: s1 clock_Suc)
  then obtain s' where "run_loop L s1 = run_loop L s'" "quiet L s'" "mTimeStepCount s' = mTimeStepCount s1 + int n"
     "sim_mTime s' = clock rnd (dt_of (mSolver s1)) (sim_mTime s1) n" "mFinalTime s' = mFinalTime s1"
     "dt_of (mSolver s') = dt_of (mSolver s1)"
    using Suc.IH[OF s1(4)] Suc.prems(2) s1(6) by auto
  then show ?case using run s1 by (intro exI[of _ s']) (simp add: clock_Suc)
qed auto

lemma quiet_run:
  assumes "quiet L s" and "mTimeStepCount s + int n \<le> 2147483647"
    and "\<And>k. k < n \<Longrightarrow> clock rnd (dt_of (mSolver s)) (sim_mTime s) k < mFinalTime s"
    and "\<not> clock rnd (dt_of (mSolver s)) (sim_mTime s) n < mFinalTime s"
  shows "\<exists>s'. Simulation_run L s = Some (Ok s') \<and> mTimeStepCount s' = mTimeStepCount s + int n
     \<and> sim_mTime s' = clock rnd (dt_of (mSolver s)) (sim_mTime s) n"
proof -
  obtain s' where s': "run_loop L s = run_loop L s'" "quiet L s'" "mTimeStepCount s' = mTimeStepCount s + int n"
     "sim_mTime s' = clock rnd (dt_of (mSolver s)) (sim_mTime s) n" "mFinalTime s' = mFinalTime s"
    using quiet_run_loop[OF assms(1-3)] by blast
  have "run_loop L s' = Some (Ok s')" using assms(4) s' by (subst run_loop.simps) simp
  moreover have "mInterfaces s = []" using assms(1) by (simp add: quiet_def)
  ultimately show ?thesis
    using s' by (simp add: Simulation_run_def for_each_run_Nil_parts close_all_def flush_all_def)
qed

lemma quiet_run_overflow:
  assumes "quiet L s" and "mTimeStepCount s + int n = 2147483647"
    and "\<And>k. k \<le> n \<Longrightarrow> clock rnd (dt_of (mSolver s)) (sim_mTime s) k < mFinalTime s"
  shows "\<exists>s'. Simulation_run L s = Some (Throw (UndefinedBehaviour ''mTimeStepCount++'') s')"
proof -
  obtain s' where s': "run_loop L s = run_loop L s'" "quiet L s'" "mTimeStepCount s' = 2147483647"
     "sim_mTime s' = clock rnd (dt_of (mSolver s)) (sim_mTime s) n" "mFinalTime s' = mFinalTime s"
    using quiet_run_loop[OF assms(1), of n] assms(2,3) by auto
  obtain s2 where "Simulation_step L s' = Some (Throw (UndefinedBehaviour ''mTimeStepCount++'') s2)"
    using quiet_step[OF s'(2)] s'(3) by auto
  then have "run_loop L s' = Some (Throw (UndefinedBehaviour ''mTimeStepCount++'') s2)"
    using assms(3)[of n] s' by (subst run_loop.simps) simp
  moreover have "mInterfaces s = []" using assms(1) by (simp add: quiet_def)
  ultimately show ?thesis using s'(1) by (simp add: Simulation_run_def for_each_run_Nil_parts)
qed

end

section \<open>The simulation with the MNA solver\<close>

text \<open>The dispatch of the virtual methods to \<open>MnaSolver\<close>.\<close>

definition mna_lib :: "('w, 'lu) cps_mna \<Rightarrow> (real \<Rightarrow> real) \<Rightarrow> (real \<Rightarrow> string) \<Rightarrow> (nat \<Rightarrow> ('d, 'e) villas) \<Rightarrow>
    (attr \<Rightarrow> 'w \<Rightarrow> string) \<Rightarrow> ('lu mna, 'd, 'w, 'e) sim_lib" where
  "mna_lib cps rnd fmt vil toString =
     \<lparr>sl_cps = cps_attrs.truncate cps, sl_villas = vil, sl_step = MnaSolver_step cps rnd,
      sl_log = MnaSolver_log fmt, sl_fmt = fmt, sl_toString = toString\<rparr>"

lemma mna_parts_dt [simp]:
  "mna_mTimeStep (fst (mna_steps cps t cs (m, w))) = mna_mTimeStep m"
  "mna_mTimeStep (fst (mna_post_steps cps t (m, w))) = mna_mTimeStep m"
  "mna_mTimeStep (solve cps m) = mna_mTimeStep m"
  "mna_mTimeStep (updateSwitchStatus cps w m) = mna_mTimeStep m"
  by (simp_all add: mna_steps_def mna_post_steps_def solve_def updateSwitchStatus_def Let_def split_def)

lemma MnaSolver_step_time:
  "fst (MnaSolver_step cps rnd t (m, w)) = fp_add rnd t (mna_mTimeStep m)"
  "mna_mTimeStep (fst (snd (MnaSolver_step cps rnd t (m, w)))) = mna_mTimeStep m"
proof -
  let ?m0 = "m\<lparr>mRightSideVector := set_zero (mRightSideVector m)\<rparr>"
  let ?w0 = "fold (\<lambda>c. sigStep cps c t) (mSignalComponents m) w"
  obtain m1 w1 where 1: "mna_steps cps t (mPowerComponents m) (?m0, ?w0) = (m1, w1)" by fastforce
  obtain m2 w2 where 2: "mna_steps cps t (mSwitches m1) (m1, w1) = (m2, w2)" by fastforce
  obtain m3 w3 where 3: "mna_post_steps cps t (solve cps m2, w2) = (m3, w3)" by fastforce
  have "mna_mTimeStep m3 = mna_mTimeStep m"
    using mna_parts_dt(1)[of cps t "mPowerComponents m" ?m0 ?w0] mna_parts_dt(1)[of cps t "mSwitches m1" m1 w1]
      mna_parts_dt(2)[of cps t "solve cps m2" w2] by (simp add: 1 2 3)
  then show "fst (MnaSolver_step cps rnd t (m, w)) = fp_add rnd t (mna_mTimeStep m)"
    "mna_mTimeStep (fst (snd (MnaSolver_step cps rnd t (m, w)))) = mna_mTimeStep m"
    by (simp_all add: MnaSolver_step_def 1 2 3 Let_def)
qed

lemma MnaSolver_log_dt: "mna_mTimeStep (MnaSolver_log fmt t m) = mna_mTimeStep m"
  by (simp add: MnaSolver_log_def)

interpretation mna_clock: fixed_step "mna_lib cps rnd fmt vil toString" rnd mna_mTimeStep
  for cps :: "('w, 'lu) cps_mna" and rnd fmt and vil :: "nat \<Rightarrow> ('d, 'e) villas" and toString
  by unfold_locales (simp_all add: mna_lib_def MnaSolver_step_time MnaSolver_log_dt)


definition demo_sim :: "real \<Rightarrow> (matrix mna, val, demo_world, nat) sim" where
  "demo_sim final = addLogger 0 1 (sim_addEvent (SwitchEvent 0 10 True)
     (Simulation_new ''demo'' 1 final demo_stepping (\<lambda>_. undefined) (\<lambda>_. DataLogger_new True True) demo_start 0))"

definition demo_lib :: "(matrix mna, val, demo_world, nat) sim_lib" where
  "demo_lib = mna_lib demo_mna (\<lambda>x. x) (\<lambda>_. ''t'') (\<lambda>_. undefined) (\<lambda>_ _. ''v'')"

lemma demo_quiet: "quiet demo_lib (demo_sim final)"
  by (simp add: quiet_def demo_sim_def addLogger_def sim_addEvent_def Simulation_new_def heap_ok_addEvent
      addEvent_def heap_push_def sift_up.simps heap_ok_def demo_lib_def mna_lib_def)

lemma demo_sim_simps [simp]:
  "mTimeStepCount (demo_sim final) = 0" "sim_mTime (demo_sim final) = 0" "mFinalTime (demo_sim final) = final"
  "mna_mTimeStep (mSolver (demo_sim final)) = 1"
  by (simp_all add: demo_sim_def addLogger_def sim_addEvent_def Simulation_new_def demo_stepping_def
      demo_solver_def MnaSolver_new_def)


text \<open>a simulation that needs more steps than an \<open>int\<close> can count ends in undefined behaviour:
  \<open>mTimeStepCount++\<close> overflows. In particular a time step that is too small to change the time in
  floating point does not make \<open>run\<close> wait forever but reaches this overflow.\<close>

theorem Simulation_run_overflow:
  fixes cps :: "('w, 'lu) cps_mna" and s :: "('lu mna, 'd, 'w, 'e) sim"
  assumes "quiet (mna_lib cps rnd fmt vil toString) s" and "mTimeStepCount s + int n = 2147483647"
    and "\<forall>k \<le> n. clock rnd (mna_mTimeStep (mSolver s)) (sim_mTime s) k < mFinalTime s"
  shows "\<exists>s'. Simulation_run (mna_lib cps rnd fmt vil toString) s
     = Some (Throw (UndefinedBehaviour ''mTimeStepCount++'') s')"
  using mna_clock.quiet_run_overflow[OF assms(1,2)] assms(3) by blast

lemma clock_stuck: "clock (\<lambda>_. 0) dt 0 k = 0"
  by (induction k) (simp_all add: clock_Suc fp_add_def)

theorem Simulation_run_overflow_witness:
  "\<exists>s'. Simulation_run (mna_lib demo_mna (\<lambda>_. 0) (\<lambda>_. ''t'') (\<lambda>_. undefined) (\<lambda>_ _. ''v'')) (demo_sim 2)
     = Some (Throw (UndefinedBehaviour ''mTimeStepCount++'') s')"
  by (rule Simulation_run_overflow[of _ _ _ _ _ _ 2147483647])
     (use demo_quiet[of 2] in \<open>simp_all add: clock_stuck quiet_def demo_lib_def mna_lib_def\<close>)

lemma demo_step_Ok: "\<exists>s'. Simulation_step demo_lib (demo_sim 2) = Some (Ok s')"
  using mna_clock.quiet_step[OF demo_quiet[unfolded demo_lib_def], of 2] by (auto simp: demo_lib_def)

theorem step_executes_due_events_witness:
  "\<exists>s'. Simulation_step demo_lib (demo_sim 2) = Some (Ok s') \<and> mEvents s' = [] \<and> sim_mTime s' = 1"
proof -
  obtain s' where s': "Simulation_step demo_lib (demo_sim 2) = Some (Ok s')" using demo_step_Ok by blast
  have q: "heap_ok mTime (mEvents (demo_sim 2))" "mEvents (demo_sim 2) = [SwitchEvent 0 10 True]"
    using demo_quiet[of 2] by (simp_all add: quiet_def)
       (simp add: demo_sim_def addLogger_def sim_addEvent_def Simulation_new_def addEvent_def heap_push_def sift_up.simps)
  obtain es sv w1 where es: "mset (mEvents (demo_sim 2)) = mset es + mset (mEvents s')"
      "\<forall>ev \<in> set (mEvents s'). sim_mTime (demo_sim 2) < mTime ev"
      "sl_step demo_lib (sim_mTime (demo_sim 2)) (mSolver (demo_sim 2), w1) = (sim_mTime s', sv, sim_world s')"
    using step_executes_due_events[OF s' q(1)] by blast
  have "\<forall>ev \<in># mset (mEvents s'). ev = SwitchEvent 0 10 True"
    using es(1) q(2) by (metis add_mset_eq_single mset_single_iff mset.simps set_mset_single singletonD union_iff)
  then have "mEvents s' = []" using es(2) by (cases "mEvents s'") auto
  moreover have "sim_mTime s' = 1"
    using MnaSolver_step_time(1)[of demo_mna "\<lambda>x. x" 0 "mSolver (demo_sim 2)" w1] es(3)
    by (simp add: demo_lib_def mna_lib_def fp_add_def)
  ultimately show ?thesis using s' by blast
qed

theorem step_logs_when_due_witness:
  "\<exists>s'. Simulation_step demo_lib (demo_sim 2) = Some (Ok s')
     \<and> logger_at s' 0 = DataLogger_log (\<lambda>_. ''t'') (\<lambda>_ _. ''v'') 0 (sim_world s') (DataLogger_new True True)"
proof -
  obtain s' where s': "Simulation_step demo_lib (demo_sim 2) = Some (Ok s')" using demo_step_Ok by blast
  show ?thesis
    using step_logs_when_due[OF s', of "\<lparr>lgm_logger = 0, lgm_downsampling = 1\<rparr>"] s'
    by (simp add: demo_lib_def mna_lib_def) (simp add: demo_sim_def addLogger_def sim_addEvent_def Simulation_new_def)
qed

end
