(* ===== verification/Runs.thy ===== *)
theory Runs
  imports Simulation
begin

text \<open>
  Whole runs of a simulation (\<open>Simulation::run\<close> in \<open>Source/Simulation.cpp\<close>): the sequence of states
  in which the steps of the loop start, and what follows for the events, the loggers and the solver
  over all steps together.
\<close>

section \<open>The states of a run\<close>

text \<open>\<open>run_trace L s ss s'\<close>: the loop of \<open>run\<close>, entered in \<open>s\<close>, starts its steps in the states \<open>ss\<close> and
  ends in \<open>s'\<close>.\<close>

inductive run_trace ::
    "('s, 'd, 'w, 'e) sim_lib \<Rightarrow> ('s, 'd, 'w, 'e) sim \<Rightarrow> ('s, 'd, 'w, 'e) sim list \<Rightarrow> ('s, 'd, 'w, 'e) sim \<Rightarrow> bool"
  for L where
  final: "\<not> sim_mTime s < mFinalTime s \<Longrightarrow> run_trace L s [] s"
| step: "sim_mTime s < mFinalTime s \<Longrightarrow> Simulation_step L s = Some (Ok s1) \<Longrightarrow> run_trace L s1 ss s' \<Longrightarrow>
    run_trace L s (s # ss) s'"

inductive_simps run_trace_Nil [simp]: "run_trace L s [] s'"
inductive_simps run_trace_Cons: "run_trace L s (x # ss) s'"

lemma run_loop_unfold:
  "run_loop L b = (if sim_mTime b < mFinalTime b then then_run (Simulation_step L b) (run_loop L) else Some (Ok b))"
  by (subst run_loop.simps) (simp add: then_run_def split: option.splits outcome.splits)

lemma trace_run_loop: "run_trace L s ss s' \<Longrightarrow> run_loop L s = Some (Ok s')"
  by (induction rule: run_trace.induct) (simp_all add: run_loop_unfold)

lemma run_loop_trace:
  assumes "run_loop L s = Some (Ok s')"
  obtains ss where "run_trace L s ss s'"
proof -
  have "r = Ok s' \<Longrightarrow> \<exists>ss. run_trace L s ss s'" if "run_loop L s = Some r" for r
    using that
  proof (induction L s r rule: run_loop.raw_induct[rotated, consumes 1])
    case (1 loop L s r)
    show ?case
    proof (cases "sim_mTime s < mFinalTime s")
      case True
      then obtain s1 where s1: "Simulation_step L s = Some (Ok s1)" "loop L s1 = Some r"
        using 1(2,3) by (auto split: option.splits outcome.splits)
      then obtain ss where "run_trace L s1 ss s'" using 1(1,3) by blast
      then show ?thesis using run_trace.step[OF True s1(1)] by blast
    next
      case False
      then show ?thesis using 1(2,3) run_trace.final by (auto intro!: exI[of _ "[]"])
    qed
  qed
  then show thesis using assms that by blast
qed

lemma run_trace_invariant:
  assumes "run_trace L s ss s'" and "P s"
    and "\<And>u v. P u \<Longrightarrow> Simulation_step L u = Some (Ok v) \<Longrightarrow> P v"
  shows "P s' \<and> (\<forall>x \<in> set ss. P x)"
  using assms(1,2)
proof (induction rule: run_trace.induct)
  case (step s s1 ss s')
  then show ?case using assms(3)[OF step.prems step.hyps(2)] by simp
qed simp

lemma run_trace_constant:
  assumes "run_trace L s ss s'" and "\<And>u v. Simulation_step L u = Some (Ok v) \<Longrightarrow> f v = f u"
  shows "f s' = f s \<and> (\<forall>x \<in> set ss. f x = f s)"
proof (rule run_trace_invariant[OF assms(1)])
  show "f v = f s" if "f u = f s" "Simulation_step L u = Some (Ok v)" for u v
    using that(1) assms(2)[OF that(2)] by simp
qed simp

lemma Simulation_step_config:
  assumes "Simulation_step L s = Some (Ok s')"
  shows "mInterfaces s' = mInterfaces s \<and> mLoggers s' = mLoggers s \<and> mFinalTime s' = mFinalTime s
    \<and> mTimeStepCount s' = mTimeStepCount s + 1"
  by (rule Simulation_step_Ok[OF assms]) simp

lemma run_trace_count: "run_trace L s ss s' \<Longrightarrow> mTimeStepCount s' = mTimeStepCount s + int (length ss)"
  by (induction rule: run_trace.induct) (auto dest: Simulation_step_config)

lemma run_trace_before_final:
  assumes "run_trace L s ss s'"
  shows "(\<forall>x \<in> set ss. sim_mTime x < mFinalTime s) \<and> \<not> sim_mTime s' < mFinalTime s"
  using assms by (induction rule: run_trace.induct) (auto dest: Simulation_step_config)

text \<open>What \<open>run\<close> does before and after the loop leaves all but the interfaces, their environment and
  the world alone.\<close>

lemma frame_before:
  assumes "then_run (open_all L s) (sync L) = Some (Ok t)"
  shows "\<exists>ifs e w. t = s\<lparr>interface_at := ifs, sim_env := e, sim_world := w\<rparr>"
proof -
  let ?P = "\<lambda>t. \<exists>ifs e w. t = s\<lparr>interface_at := ifs, sim_env := e, sim_world := w\<rparr>"
  have change: "?P (u\<lparr>interface_at := ifs, sim_env := e, sim_world := w\<rparr>)" if "?P u" for u ifs e w
    using that by (elim exE) (intro exI[of _ ifs] exI[of _ e] exI[of _ w], simp)
  have put: "?P (put_interface p ie u)" if "?P u" for u p ie
    using change[OF that, where ifs = "(interface_at u)(p := fst ie)" and e = "snd ie" and w = "sim_world u"] by (simp add: put_interface_def)
  have get: "?P (u\<lparr>sim_env := e, sim_world := w\<rparr>)" if "?P u" for u e w
    using change[OF that, where ifs = "interface_at u" and e = e and w = w] by simp
  obtain u v where u: "open_all L s = Some (Ok u)"
    and v: "for_each_run (\<lambda>ifm. write_interface L (ifm_interface ifm)) (mInterfaces u) u = Some (Ok v)"
    and t: "for_each_run (\<lambda>ifm. read_interface L (ifm_interface ifm) (ifm_syncStart ifm)) (mInterfaces v) v = Some (Ok t)"
    using assms by (auto simp: sync_def then_run_Some_Ok)
  have "?P s" by (intro exI[of _ "interface_at s"] exI[of _ "sim_env s"] exI[of _ "sim_world s"]) simp
  then have "?P u"
    by (rule for_each_run_invariant[OF u[unfolded open_all_def]])
       (simp add: open_interface_def put split: outcome.splits, metis put)
  then have "?P v"
    by (rule for_each_run_invariant[OF v]) (auto simp only: write_interface_Ok intro: put)
  then show ?thesis
    by (rule for_each_run_invariant[OF t]) (auto simp only: read_interface_Ok intro: get)
qed

lemma Simulation_run_trace:
  assumes "Simulation_run L s = Some (Ok s')"
  obtains ifs e w ss s2 where
    "then_run (open_all L s) (sync L) = Some (Ok (s\<lparr>interface_at := ifs, sim_env := e, sim_world := w\<rparr>))"
    "run_trace L (s\<lparr>interface_at := ifs, sim_env := e, sim_world := w\<rparr>) ss s2" "s' = flush_all (close_all L s2)"
proof -
  obtain t s2 where t: "then_run (open_all L s) (sync L) = Some (Ok t)" and s2: "run_loop L t = Some (Ok s2)"
    and s': "s' = flush_all (close_all L s2)"
    using assms by (auto simp: Simulation_run_def then_run_Some_Ok)
  obtain ss where "run_trace L t ss s2" by (rule run_loop_trace[OF s2])
  with frame_before[OF t] t s' that show thesis by metis
qed

section \<open>Events\<close>

text \<open>One step executes the batch \<open>es\<close> of events in the world that reading the interfaces left.\<close>

definition executes :: "('s, 'd, 'w, 'e) sim_lib \<Rightarrow> ('s, 'd, 'w, 'e) sim \<Rightarrow> event list \<Rightarrow> bool" where
  "executes L s es \<longleftrightarrow> (\<exists>s0. step_reads L s = Some (Ok s0)
     \<and> returned (for_each (execute (sl_cps L)) es (sim_world s0)))"

lemma step_batch:
  assumes "Simulation_step L s = Some (Ok s')" and "heap_ok mTime (mEvents s)"
  obtains es where "executes L s es" "evl.handled (sim_mTime s) (mEvents s) es (mEvents s')"
    "\<forall>ev \<in> set (mEvents s'). sim_mTime s < mTime ev"
proof -
  from assms(1) obtain e w q w1 nt sv w2 ifs e2 where
    rd: "step_reads L s = Some (Ok (s\<lparr>sim_env := e, sim_world := w\<rparr>))" and
    ev: "handleEvents (sl_cps L) (sim_mTime s) (mEvents s, w) = Ok (q, w1)" and
    s': "s' = s\<lparr>sim_env := e2, sim_world := w2, mEvents := q, mSolver := sl_log L (sim_mTime s) sv,
       interface_at := ifs, logger_at := logged L (s\<lparr>sim_world := w2\<rparr>) (mLoggers s) (logger_at s),
       sim_mTime := nt, mTimeStepCount := mTimeStepCount s + 1\<rparr>"
    by (rule Simulation_step_Ok)
  obtain es where es: "evl.handled (sim_mTime s) (mEvents s) es q" "for_each (execute (sl_cps L)) es w = Ok w1"
      "\<forall>x \<in># mset q. sim_mTime s < mTime x"
    using evl.loop_Ok[OF assms(2) ev] by blast
  show thesis
    by (rule that[of es]) (use rd es in \<open>simp_all add: executes_def s'\<close>)
qed

text \<open>The batches \<open>ess\<close> of steps that start at the times \<open>ts\<close>: every event is executed in the first step
  that starts at its time or later.\<close>

definition at_first_step :: "real list \<Rightarrow> event list list \<Rightarrow> bool" where
  "at_first_step ts ess \<longleftrightarrow> length ess = length ts
     \<and> (\<forall>k < length ts. \<forall>ev \<in> set (ess ! k). mTime ev \<le> ts ! k \<and> (\<forall>j < k. ts ! j < mTime ev))"

lemma set_concat_nth: "set (concat ess) = {x. \<exists>k < length ess. x \<in> set (ess ! k)}"
  by (auto simp: in_set_conv_nth) (metis in_set_conv_nth nth_mem)+

lemma at_first_step_Cons:
  "at_first_step (t # ts) (es # ess) \<longleftrightarrow> (\<forall>ev \<in> set es. mTime ev \<le> t) \<and> at_first_step ts ess
     \<and> (\<forall>ev \<in> set (concat ess). t < mTime ev)"
  by (fastforce simp: at_first_step_def All_less_Suc2 set_concat_nth simp del: set_concat)

lemma run_trace_events:
  assumes "run_trace L s ss s'" and "heap_ok mTime (mEvents s)"
  shows "\<exists>ess. list_all2 (executes L) ss ess \<and> at_first_step (map sim_mTime ss) ess
     \<and> mset (mEvents s) = mset (concat ess) + mset (mEvents s') \<and> sorted (map mTime (concat ess))
     \<and> (\<forall>ev \<in> set (mEvents s'). \<forall>x \<in> set ss. sim_mTime x < mTime ev)"
  using assms
proof (induction rule: run_trace.induct)
  case (final s)
  then show ?case by (intro exI[of _ "[]"]) (simp add: at_first_step_def)
next
  case (step s s1 ss s')
  obtain es where es: "executes L s es" "evl.handled (sim_mTime s) (mEvents s) es (mEvents s1)"
    "\<forall>ev \<in> set (mEvents s1). sim_mTime s < mTime ev"
    by (rule step_batch[OF step.hyps(2) step.prems])
  then have h: "mset (mEvents s) = mset es + mset (mEvents s1)" "sorted (map mTime es)"
    "\<forall>ev \<in> set es. mTime ev \<le> sim_mTime s" "heap_ok mTime (mEvents s1)"
    by (simp_all add: evl.handled_def)
  obtain ess where ess: "list_all2 (executes L) ss ess" "at_first_step (map sim_mTime ss) ess"
     "mset (mEvents s1) = mset (concat ess) + mset (mEvents s')" "sorted (map mTime (concat ess))"
     "\<forall>ev \<in> set (mEvents s'). \<forall>x \<in> set ss. sim_mTime x < mTime ev"
    using step.IH[OF h(4)] by blast
  have "set (mEvents s1) = set (concat ess) \<union> set (mEvents s')"
    using ess(3) by (metis set_mset_mset set_mset_union)
  then have later: "sim_mTime s < mTime ev" if "ev \<in> set (concat ess) \<or> ev \<in> set (mEvents s')" for ev
    using es(3) that by blast
  then have "sorted (map mTime (es @ concat ess))"
    using h(2,3) ess(4) by (fastforce simp: sorted_append)
  moreover have "at_first_step (map sim_mTime (s # ss)) (es # ess)"
    using h(3) ess(2) later by (simp add: at_first_step_Cons)
  ultimately show ?case
    using es(1) ess h(1) later by (intro exI[of _ "es # ess"]) (auto simp: ac_simps)
qed

text \<open>C3: events over a whole run. When \<open>run\<close> returns, every event that was queued has been executed in
  exactly one step, the first step that starts at its time or later, or is still queued; all executions
  are in the order of the times of the events. Only the events later than the start of the last step are
  left. Every step starts before the final time, so an event at the final time is never executed.\<close>

theorem run_executes_each_event_once:
  assumes "Simulation_run L s = Some (Ok s')" and "heap_ok mTime (mEvents s)"
  shows "\<exists>s1 ss s2 ess. then_run (open_all L s) (sync L) = Some (Ok s1) \<and> run_trace L s1 ss s2
     \<and> s' = flush_all (close_all L s2) \<and> mTimeStepCount s' = mTimeStepCount s + int (length ss)
     \<and> list_all2 (executes L) ss ess \<and> at_first_step (map sim_mTime ss) ess
     \<and> mset (mEvents s) = mset (concat ess) + mset (mEvents s') \<and> sorted (map mTime (concat ess))
     \<and> (\<forall>ev \<in> set (mEvents s'). \<forall>x \<in> set ss. sim_mTime x < mTime ev)
     \<and> (\<forall>x \<in> set ss. sim_mTime x < mFinalTime s)
     \<and> (\<forall>ev \<in> set (mEvents s). mFinalTime s \<le> mTime ev \<longrightarrow> ev \<in> set (mEvents s'))"
proof -
  from assms(1) obtain ifs e w ss s2 where
    s1: "then_run (open_all L s) (sync L) = Some (Ok (s\<lparr>interface_at := ifs, sim_env := e, sim_world := w\<rparr>))" and
    tr: "run_trace L (s\<lparr>interface_at := ifs, sim_env := e, sim_world := w\<rparr>) ss s2" and
    s': "s' = flush_all (close_all L s2)"
    by (rule Simulation_run_trace)
  obtain ess where ess: "list_all2 (executes L) ss ess" "at_first_step (map sim_mTime ss) ess"
     "mset (mEvents s) = mset (concat ess) + mset (mEvents s2)" "sorted (map mTime (concat ess))"
     "\<forall>ev \<in> set (mEvents s2). \<forall>x \<in> set ss. sim_mTime x < mTime ev"
    using run_trace_events[OF tr] assms(2) by auto
  have early: "\<forall>x \<in> set ss. sim_mTime x < mFinalTime s" using run_trace_before_final[OF tr] by simp
  have "mTime ev < mFinalTime s" if ev: "ev \<in> set (concat ess)" for ev
  proof -
    obtain k where "k < length ess" "ev \<in> set (ess ! k)" using ev by (auto simp: set_concat_nth simp del: set_concat)
    then have "k < length ss" "mTime ev \<le> sim_mTime (ss ! k)" using ess(2) by (auto simp: at_first_step_def)
    then show ?thesis using early nth_mem[of k ss] by fastforce
  qed
  moreover have "set (mEvents s) = set (concat ess) \<union> set (mEvents s2)"
    using ess(3) by (metis set_mset_mset set_mset_union)
  ultimately have "ev \<in> set (mEvents s2)" if "ev \<in> set (mEvents s)" "mFinalTime s \<le> mTime ev" for ev
    using that by fastforce
  moreover have "mEvents s' = mEvents s2" "mTimeStepCount s' = mTimeStepCount s + int (length ss)"
    using run_trace_count[OF tr] by (simp_all add: s' flush_all_def close_all_def)
  ultimately show ?thesis using s1 tr s' ess early by metis
qed

text \<open>The example: a switch event at time 0 and two steps of length 1.\<close>

lemma demo_run: "\<exists>s'. Simulation_run demo_lib (demo_sim 2) = Some (Ok s') \<and> mTimeStepCount s' = 2"
proof -
  have "clock (\<lambda>x. x) 1 0 k < 2" if "k < 2" for k
    using that by (auto simp: clock_def fp_add_def less_Suc_eq numeral_2_eq_2)
  then show ?thesis
    using mna_clock.quiet_run[OF demo_quiet[unfolded demo_lib_def], of 2 2]
    by (auto simp: clock_def fp_add_def demo_lib_def numeral_2_eq_2)
qed

lemma demo_events: "mEvents (demo_sim final) = [SwitchEvent 0 10 True]"
  by (simp add: demo_sim_def addLogger_def sim_addEvent_def Simulation_new_def addEvent_def heap_push_def sift_up.simps)

theorem run_executes_each_event_once_witness:
  "\<exists>s' ss ess. Simulation_run demo_lib (demo_sim 2) = Some (Ok s') \<and> length ss = 2 \<and> list_all2 (executes demo_lib) ss ess
     \<and> at_first_step (map sim_mTime ss) ess \<and> {#SwitchEvent 0 10 True#} = mset (concat ess) + mset (mEvents s')"
proof -
  obtain s' where s': "Simulation_run demo_lib (demo_sim 2) = Some (Ok s')" "mTimeStepCount s' = 2"
    using demo_run by blast
  have "heap_ok mTime (mEvents (demo_sim 2))" using demo_quiet[of 2] by (simp add: quiet_def)
  from run_executes_each_event_once[OF s'(1) this] obtain ss ess where
    "mTimeStepCount s' = mTimeStepCount (demo_sim 2) + int (length ss)" "list_all2 (executes demo_lib) ss ess"
    "at_first_step (map sim_mTime ss) ess" "mset (mEvents (demo_sim 2)) = mset (concat ess) + mset (mEvents s')"
    by blast
  then show ?thesis using s' by (intro exI[of _ s'] exI[of _ ss] exI[of _ ess]) (simp add: demo_events)
qed

section \<open>Loggers\<close>

text \<open>The steps of a run as pairs of the states before and after each of them.\<close>

definition run_steps :: "('s, 'd, 'w, 'e) sim list \<Rightarrow> ('s, 'd, 'w, 'e) sim \<Rightarrow> (('s, 'd, 'w, 'e) sim \<times> ('s, 'd, 'w, 'e) sim) list" where
  "run_steps ss s' = zip ss (tl ss @ [s'])"

lemma run_steps_simps [simp]:
  "run_steps [] s' = []" "run_steps [x] s' = [(x, s')]" "run_steps (x # y # ss) s' = (x, y) # run_steps (y # ss) s'"
  by (simp_all add: run_steps_def)

lemma run_steps_trace:
  assumes "run_trace L s1 ss s'"
  shows "run_steps (s # ss) s' = (s, s1) # run_steps ss s'"
  using assms by (cases rule: run_trace.cases) auto

lemma run_trace_steps:
  assumes "run_trace L s ss s'" and "(x, y) \<in> set (run_steps ss s')"
  shows "Simulation_step L x = Some (Ok y)"
  using assms by (induction rule: run_trace.induct) (auto simp: run_steps_trace)

text \<open>The lines a logger with downsampling \<open>d\<close> writes: the time at the start of the step and the world
  after it, for the steps whose number \<open>d\<close> divides.\<close>

definition due_lines :: "32 word \<Rightarrow> ('s, 'd, 'w, 'e) sim list \<Rightarrow> ('s, 'd, 'w, 'e) sim \<Rightarrow> (real \<times> 'w) list" where
  "due_lines d ss s' = map (\<lambda>(x, y). (sim_mTime x, sim_world y))
     (filter (\<lambda>(x, y). unat d dvd nat (mTimeStepCount x)) (run_steps ss s'))"

lemma run_trace_counts:
  assumes "run_trace L s ss s'"
  shows "\<forall>k < length ss. mTimeStepCount (ss ! k) = mTimeStepCount s + int k"
  using assms
proof (induction rule: run_trace.induct)
  case (step s s1 ss s')
  have "mTimeStepCount s1 = mTimeStepCount s + 1" using Simulation_step_config[OF step.hyps(2)] by simp
  then show ?case using step.IH by (simp add: All_less_Suc2)
qed simp

lemma flush_all_logger: "logger_at (flush_all s) = logger_at s"
proof -
  have "fold (\<lambda>lg st. st(lgm_logger lg := DataLogger_flush (st (lgm_logger lg)))) lgs st = st" for lgs st
    by (induction lgs) (simp_all add: DataLogger_flush_def)
  then show ?thesis by (simp add: flush_all_def)
qed

lemma run_trace_logs:
  assumes "run_trace L s ss s'" and "lg \<in> set (mLoggers s)" and "distinct (map lgm_logger (mLoggers s))"
    and "0 \<le> mTimeStepCount s"
  shows "logger_at s' (lgm_logger lg) = fold (\<lambda>(t, w). DataLogger_log (sl_fmt L) (sl_toString L) t w)
     (due_lines (lgm_downsampling lg) ss s') (logger_at s (lgm_logger lg))"
  using assms
proof (induction rule: run_trace.induct)
  case (step s s1 ss s')
  have same: "mLoggers s1 = mLoggers s" "mTimeStepCount s1 = mTimeStepCount s + 1"
    using Simulation_step_config[OF step.hyps(2)] by simp_all
  show ?case
    using step_logs_when_due[OF step.hyps(2) step.prems] step.IH step.prems
    by (simp add: due_lines_def same run_steps_trace[OF step.hyps(3)])
qed (simp add: due_lines_def)

text \<open>C10: the log file of a whole run. When \<open>run\<close> returns, a logger with downsampling \<open>d\<close> that was registered
  once and had written nothing contains one table: a header with the names of its attributes, and one
  line for each of the steps \<open>0, d, 2 * d, ...\<close>, in order, with the time at which the step started and the
  values of the attributes after it.\<close>

theorem run_log_is_table:
  assumes "Simulation_run L s = Some (Ok s')" and "lg \<in> set (mLoggers s)"
    and "distinct (map lgm_logger (mLoggers s))" and "mTimeStepCount s = 0"
    and "mLogOpen (logger_at s (lgm_logger lg))" and "mEnabled (logger_at s (lgm_logger lg))"
    and "mLogFile (logger_at s (lgm_logger lg)) = []"
  shows "\<exists>s1 ss s2. then_run (open_all L s) (sync L) = Some (Ok s1) \<and> run_trace L s1 ss s2 \<and> s' = flush_all (close_all L s2)
     \<and> (\<forall>k < length ss. mTimeStepCount (ss ! k) = int k)
     \<and> mLogFile (logger_at s' (lgm_logger lg)) =
       (if ss = [] then [] else csv_line (''time'' # map fst (mAttributes (logger_at s (lgm_logger lg))))
          @ concat (map (\<lambda>(x, y). csv_line (sl_fmt L (sim_mTime x) #
              map (\<lambda>a. sl_toString L (snd a) (sim_world y)) (mAttributes (logger_at s (lgm_logger lg)))))
            (filter (\<lambda>(x, y). unat (lgm_downsampling lg) dvd nat (mTimeStepCount x)) (run_steps ss s2))))"
proof -
  from assms(1) obtain ifs e w ss s2 where
    s1: "then_run (open_all L s) (sync L) = Some (Ok (s\<lparr>interface_at := ifs, sim_env := e, sim_world := w\<rparr>))" and
    tr: "run_trace L (s\<lparr>interface_at := ifs, sim_env := e, sim_world := w\<rparr>) ss s2" and
    s': "s' = flush_all (close_all L s2)"
    by (rule Simulation_run_trace)
  let ?l = "logger_at s (lgm_logger lg)"
  let ?due = "filter (\<lambda>(x, y). unat (lgm_downsampling lg) dvd nat (mTimeStepCount x)) (run_steps ss s2)"
  have "logger_at s' (lgm_logger lg) = logger_at s2 (lgm_logger lg)" by (simp add: s' flush_all_logger close_all_def)
  also have "\<dots> = fold (\<lambda>(t, w). DataLogger_log (sl_fmt L) (sl_toString L) t w) (due_lines (lgm_downsampling lg) ss s2) ?l"
    using run_trace_logs[OF tr, of lg] assms(2-4) by simp
  finally have log: "logger_at s' (lgm_logger lg) = \<dots>" .
  have counts: "\<forall>k < length ss. mTimeStepCount (ss ! k) = int k"
    using run_trace_counts[OF tr] assms(4) by simp
  have "mLogFile (logger_at s' (lgm_logger lg)) =
       (if ss = [] then [] else csv_line (''time'' # map fst (mAttributes ?l))
          @ concat (map (\<lambda>(x, y). csv_line (sl_fmt L (sim_mTime x) #
              map (\<lambda>a. sl_toString L (snd a) (sim_world y)) (mAttributes ?l))) ?due))"
  proof (cases ss)
    case Nil
    then show ?thesis using assms(7) by (simp add: log due_lines_def)
  next
    case (Cons x xs)
    obtain y where "run_trace L y xs s2" using tr unfolding Cons by (auto simp: run_trace_Cons)
    then have first: "run_steps ss s2 = (x, y) # run_steps xs s2" unfolding Cons by (rule run_steps_trace)
    have "mTimeStepCount x = 0" using counts Cons by fastforce
    then have due: "?due = (x, y) # filter (\<lambda>(x, y). unat (lgm_downsampling lg) dvd nat (mTimeStepCount x)) (run_steps xs s2)"
      by (simp add: first)
    show ?thesis
      using attr_writer.table[OF assms(5-7), of "sl_fmt L" "sl_toString L" "(sim_mTime x, sim_world y)"]
      unfolding log due_lines_def due by (simp add: Cons case_prod_unfold o_def)
  qed
  with s1 tr s' counts show ?thesis by blast
qed

theorem run_log_is_table_witness:
  "\<exists>s' line. Simulation_run demo_lib (demo_sim 2) = Some (Ok s')
     \<and> mLogFile (logger_at s' 0) = csv_line [''time''] @ line @ line \<and> line = csv_line [''t'']"
proof -
  obtain s' where s': "Simulation_run demo_lib (demo_sim 2) = Some (Ok s')" "mTimeStepCount s' = 2"
    using demo_run by blast
  have lg: "\<lparr>lgm_logger = 0, lgm_downsampling = 1\<rparr> \<in> set (mLoggers (demo_sim 2))"
    "distinct (map lgm_logger (mLoggers (demo_sim 2)))" "logger_at (demo_sim 2) 0 = DataLogger_new True True"
    by (simp_all add: demo_sim_def addLogger_def sim_addEvent_def Simulation_new_def)
  obtain s1 ss s2 where r: "run_trace demo_lib s1 ss s2" "s' = flush_all (close_all demo_lib s2)"
    "then_run (open_all demo_lib (demo_sim 2)) (sync demo_lib) = Some (Ok s1)"
    "mLogFile (logger_at s' 0) = (if ss = [] then [] else csv_line [''time'']
       @ concat (map (\<lambda>(x, y). csv_line [''t'']) (filter (\<lambda>(x, y). 1 dvd nat (mTimeStepCount x)) (run_steps ss s2))))"
    using run_log_is_table[OF s'(1) lg(1,2)] by (auto simp: lg(3) DataLogger_new_def demo_lib_def mna_lib_def)
  have "mTimeStepCount s1 = 0" using frame_before[OF r(3)] by auto
  then have "length ss = 2"
    using run_trace_count[OF r(1)] s'(2) by (simp add: r(2) flush_all_def close_all_def)
  then obtain x y where "ss = [x, y]" by (auto simp: numeral_2_eq_2 length_Suc_conv)
  then show ?thesis using s'(1) r(4) by simp
qed

end
