(* ===== verification/RealTimeSimulation.thy ===== *)
theory RealTimeSimulation
  imports Runs Timer
begin

text \<open>
  The real-time simulation (\<open>Source/RealTimeSimulation.cpp\<close>, \<open>Include/dpsim/RealTimeSimulation.h\<close>),
  in the build with \<open>timerfd\<close>.

  The kernel's clocks and its timer are the record \<open>kernel\<close>; they act on the same environment as
  the interfaces, because a blocking call lets time pass. The class declares its own member
  \<open>mTimeStep\<close> beside the inherited one, here \<open>rt_mTimeStep\<close>.
\<close>

section \<open>State\<close>

record 'e kernel =
  system_now :: "'e \<Rightarrow> int \<times> 'e"
  steady_now :: "'e \<Rightarrow> int \<times> 'e"
  timerfd_settime :: "'e \<Rightarrow> int \<times> 'e"
  timerfd_read :: "'e \<Rightarrow> int \<times> 64 word \<times> 'e"

record ('s, 'd, 'w, 'e) rt_sim =
  rt_base :: "('s, 'd, 'w, 'e) sim"
  rt_mTimeStep :: real
  mTimer :: timer

text \<open>The constructor, after the base class is constructed; \<open>mTimer()\<close> has no flags.\<close>

definition RealTimeSimulation_new ::
    "int \<Rightarrow> int \<Rightarrow> real \<Rightarrow> ('s, 'd, 'w, 'e) sim \<Rightarrow> ('s, 'd, 'w, 'e) rt_sim outcome" where
  "RealTimeSimulation_new fd garbage timeStep base =
     (case Timer_new fd garbage 0 of
        Ok t \<Rightarrow> Ok \<lparr>rt_base = base, rt_mTimeStep = timeStep, mTimer = t\<rparr>
      | Throw x t \<Rightarrow> Throw x \<lparr>rt_base = base, rt_mTimeStep = timeStep, mTimer = t\<rparr>)"

section \<open>Operations\<close>

definition on_base ::
    "(('s, 'd, 'w, 'e) sim \<Rightarrow> ('s, 'd, 'w, 'e) sim outcome option) \<Rightarrow> ('s, 'd, 'w, 'e) rt_sim \<Rightarrow>
     ('s, 'd, 'w, 'e) rt_sim outcome option" where
  "on_base f s =
     map_option (\<lambda>r. case r of Ok b \<Rightarrow> Ok (s\<lparr>rt_base := b\<rparr>) | Throw x b \<Rightarrow> Throw x (s\<lparr>rt_base := b\<rparr>))
       (f (rt_base s))"

definition on_timer ::
    "(timer \<Rightarrow> timer outcome) \<Rightarrow> ('s, 'd, 'w, 'e) rt_sim \<Rightarrow> ('s, 'd, 'w, 'e) rt_sim outcome option" where
  "on_timer f s =
     Some (case f (mTimer s) of Ok t \<Rightarrow> Ok (s\<lparr>mTimer := t\<rparr>) | Throw x t \<Rightarrow> Throw x (s\<lparr>mTimer := t\<rparr>))"

definition set_env :: "'e \<Rightarrow> ('s, 'd, 'w, 'e) rt_sim \<Rightarrow> ('s, 'd, 'w, 'e) rt_sim" where
  "set_env e s = s\<lparr>rt_base := (rt_base s)\<lparr>sim_env := e\<rparr>\<rparr>"

text \<open>\<open>mTimer.setStartTime(startAt); mTimer.setInterval(mTimeStep); mTimer.start();\<close>\<close>

definition start_timer ::
    "'e kernel \<Rightarrow> (real \<Rightarrow> real) \<Rightarrow> int \<Rightarrow> ('s, 'd, 'w, 'e) rt_sim \<Rightarrow> ('s, 'd, 'w, 'e) rt_sim outcome option" where
  "start_timer K rnd startAt s =
     then_run (on_timer (\<lambda>t. setInterval_double rnd (rt_mTimeStep s) (setStartTime startAt t)) s) (\<lambda>s.
       let (rt, e) = system_now K (sim_env (rt_base s)); (steady, e) = steady_now K e;
           (ret, e) = timerfd_settime K e
       in on_timer (Timer_start rt steady ret) (set_env e s))"

definition sleep_timer ::
    "'e kernel \<Rightarrow> ('s, 'd, 'w, 'e) rt_sim \<Rightarrow> ('s, 'd, 'w, 'e) rt_sim outcome option" where
  "sleep_timer K s =
     (let (bytes, tk, e) = timerfd_read K (sim_env (rt_base s))
      in on_timer (Timer_sleep_timerfd bytes tk) (set_env e s))"

definition stop_timer ::
    "'e kernel \<Rightarrow> ('s, 'd, 'w, 'e) rt_sim \<Rightarrow> ('s, 'd, 'w, 'e) rt_sim outcome option" where
  "stop_timer K s =
     (let (ret, e) = timerfd_settime K (sim_env (rt_base s)) in on_timer (Timer_stop ret) (set_env e s))"

text \<open>The body of the main loop.\<close>

definition rt_body ::
    "'e kernel \<Rightarrow> ('s, 'd, 'w, 'e) sim_lib \<Rightarrow> ('s, 'd, 'w, 'e) rt_sim \<Rightarrow> ('s, 'd, 'w, 'e) rt_sim outcome option" where
  "rt_body K L s = then_run (on_base (Simulation_step L) s) (sleep_timer K)"

text \<open>The loop \<open>do { ... } while (mTime < mFinalTime)\<close>.\<close>

partial_function (option) rt_loop ::
    "'e kernel \<Rightarrow> ('s, 'd, 'w, 'e) sim_lib \<Rightarrow> ('s, 'd, 'w, 'e) rt_sim \<Rightarrow> ('s, 'd, 'w, 'e) rt_sim outcome option" where
  "rt_loop K L s =
     (case rt_body K L s of
        None \<Rightarrow> None
      | Some (Throw x s) \<Rightarrow> Some (Throw x s)
      | Some (Ok s) \<Rightarrow>
          if sim_mTime (rt_base s) < mFinalTime (rt_base s) then rt_loop K L s else Some (Ok s))"

definition rt_run_at ::
    "'e kernel \<Rightarrow> (real \<Rightarrow> real) \<Rightarrow> ('s, 'd, 'w, 'e) sim_lib \<Rightarrow> int \<Rightarrow> ('s, 'd, 'w, 'e) rt_sim \<Rightarrow>
     ('s, 'd, 'w, 'e) rt_sim outcome option" where
  "rt_run_at K rnd L startAt s =
     then_run (then_run (then_run (then_run (on_base (open_all L) s) (on_base (sync L)))
       (start_timer K rnd startAt)) (rt_loop K L))
       (\<lambda>s. stop_timer K (s\<lparr>rt_base := flush_all (close_all L (rt_base s))\<rparr>))"

text \<open>\<open>run(startIn)\<close>: now plus a duration.\<close>

definition rt_run_in ::
    "'e kernel \<Rightarrow> (real \<Rightarrow> real) \<Rightarrow> ('s, 'd, 'w, 'e) sim_lib \<Rightarrow> int \<Rightarrow> ('s, 'd, 'w, 'e) rt_sim \<Rightarrow>
     ('s, 'd, 'w, 'e) rt_sim outcome option" where
  "rt_run_in K rnd L startIn s =
     (let (now, e) = system_now K (sim_env (rt_base s)) in rt_run_at K rnd L (now + startIn) (set_env e s))"

section \<open>The real-time loop\<close>

text \<open>The environment after \<open>i\<close> reads of the timer, and the expirations of the reads before.\<close>

definition after_reads :: "'e kernel \<Rightarrow> 'e \<Rightarrow> nat \<Rightarrow> 'e" where
  "after_reads K e i = ((\<lambda>e. snd (snd (timerfd_read K e))) ^^ i) e"

definition expirations :: "'e kernel \<Rightarrow> 'e \<Rightarrow> nat \<Rightarrow> 64 word list" where
  "expirations K e n = map (\<lambda>i. fst (snd (timerfd_read K (after_reads K e i)))) [0..<n]"

lemma expirations_Suc:
  "expirations K e (Suc n) = fst (snd (timerfd_read K e)) # expirations K (snd (snd (timerfd_read K e))) n"
proof -
  have "after_reads K e (Suc i) = after_reads K (snd (snd (timerfd_read K e))) i" for i
    by (simp add: after_reads_def funpow_Suc_right del: funpow.simps)
  moreover have "after_reads K e 0 = e" by (simp add: after_reads_def)
  ultimately show ?thesis
    by (simp add: expirations_def upt_conv_Cons map_Suc_upt[symmetric] comp_def del: upt_Suc)
qed

text \<open>A kernel whose timer never reports an error.\<close>

definition kernel_ok :: "'e kernel \<Rightarrow> bool" where
  "kernel_ok K \<longleftrightarrow> (\<forall>e. 0 \<le> fst (timerfd_read K e)) \<and> (\<forall>e. 0 \<le> fst (timerfd_settime K e))"

lemma quiet_set_env [simp]: "quiet L (b\<lparr>sim_env := e\<rparr>) = quiet L b"
  by (simp add: quiet_def)

context fixed_step
begin

lemma rt_body_quiet:
  assumes "quiet L (rt_base s)" and "kernel_ok K" and "mFlags (mTimer s) AND fail_on_overrun = 0"
    and "mTimeStepCount (rt_base s) < 2147483647"
  defines "e \<equiv> sim_env (rt_base s)"
  shows "\<exists>s'. rt_body K L s = Some (Ok s') \<and> quiet L (rt_base s')
     \<and> sim_mTime (rt_base s') = fp_add rnd (sim_mTime (rt_base s)) (dt_of (mSolver (rt_base s)))
     \<and> dt_of (mSolver (rt_base s')) = dt_of (mSolver (rt_base s))
     \<and> mFinalTime (rt_base s') = mFinalTime (rt_base s)
     \<and> mTimeStepCount (rt_base s') = mTimeStepCount (rt_base s) + 1
     \<and> sim_env (rt_base s') = snd (snd (timerfd_read K e))
     \<and> mTimer s' = final_state (Timer_sleep_timerfd 8 (fst (snd (timerfd_read K e))) (mTimer s))"
proof -
  obtain b where b: "sim_mTime b = fp_add rnd (sim_mTime (rt_base s)) (dt_of (mSolver (rt_base s)))"
      "dt_of (mSolver b) = dt_of (mSolver (rt_base s))" "mFinalTime b = mFinalTime (rt_base s)"
      "sim_env b = sim_env (rt_base s)" "quiet L b" "Simulation_step L (rt_base s) = Some (Ok b)"
      "mTimeStepCount b = mTimeStepCount (rt_base s) + 1"
    using quiet_step[OF assms(1)] assms(4) by auto
  obtain bytes tk e' where rd: "timerfd_read K e = (bytes, tk, e')" by (rule prod_cases3)
  have "0 \<le> bytes" using assms(2) rd by (auto simp: kernel_ok_def dest: spec[of _ e])
  then show ?thesis
    using b assms(3) rd
    by (simp add: rt_body_def on_base_def sleep_timer_def on_timer_def set_env_def e_def
        Timer_sleep_timerfd_def count_ticks_def Let_def)
qed

lemma rt_loop_quiet:
  assumes "quiet L (rt_base s)" and "kernel_ok K" and "mFlags (mTimer s) AND fail_on_overrun = 0"
    and "mTimeStepCount (rt_base s) + int (Suc n) \<le> 2147483647"
    and "\<And>k. 0 < k \<Longrightarrow> k < Suc n \<Longrightarrow>
       clock rnd (dt_of (mSolver (rt_base s))) (sim_mTime (rt_base s)) k < mFinalTime (rt_base s)"
    and "\<not> clock rnd (dt_of (mSolver (rt_base s))) (sim_mTime (rt_base s)) (Suc n) < mFinalTime (rt_base s)"
  shows "\<exists>s'. rt_loop K L s = Some (Ok s') \<and> quiet L (rt_base s')
     \<and> mTimeStepCount (rt_base s') = mTimeStepCount (rt_base s) + int (Suc n)
     \<and> sim_mTime (rt_base s') = clock rnd (dt_of (mSolver (rt_base s))) (sim_mTime (rt_base s)) (Suc n)
     \<and> mTimer s' = sleeps_timerfd (expirations K (sim_env (rt_base s)) (Suc n)) (mTimer s)"
  using assms
proof (induction n arbitrary: s)
  case 0
  obtain s1 where s1: "rt_body K L s = Some (Ok s1)" "quiet L (rt_base s1)"
     "sim_mTime (rt_base s1) = fp_add rnd (sim_mTime (rt_base s)) (dt_of (mSolver (rt_base s)))"
     "mFinalTime (rt_base s1) = mFinalTime (rt_base s)"
     "mTimeStepCount (rt_base s1) = mTimeStepCount (rt_base s) + 1"
     "mTimer s1 = final_state (Timer_sleep_timerfd 8 (fst (snd (timerfd_read K (sim_env (rt_base s))))) (mTimer s))"
    using rt_body_quiet[OF 0(1-3)] 0(4) by auto
  show ?case
    using 0(6) s1 by (subst rt_loop.simps) (simp add: clock_Suc expirations_Suc sleeps_timerfd_def, simp add: expirations_def)
next
  case (Suc n)
  obtain s1 where s1: "rt_body K L s = Some (Ok s1)" "quiet L (rt_base s1)"
     "sim_mTime (rt_base s1) = fp_add rnd (sim_mTime (rt_base s)) (dt_of (mSolver (rt_base s)))"
     "dt_of (mSolver (rt_base s1)) = dt_of (mSolver (rt_base s))"
     "mFinalTime (rt_base s1) = mFinalTime (rt_base s)"
     "mTimeStepCount (rt_base s1) = mTimeStepCount (rt_base s) + 1"
     "sim_env (rt_base s1) = snd (snd (timerfd_read K (sim_env (rt_base s))))"
     "mTimer s1 = final_state (Timer_sleep_timerfd 8 (fst (snd (timerfd_read K (sim_env (rt_base s))))) (mTimer s))"
    using rt_body_quiet[OF Suc.prems(1-3)] Suc.prems(4) by auto
  have flags: "mFlags (mTimer s1) AND fail_on_overrun = 0"
    using Suc.prems(3) by (simp add: s1 Timer_sleep_timerfd_def count_ticks_final)
  have clk: "clock rnd (dt_of (mSolver (rt_base s1))) (sim_mTime (rt_base s1)) k
      = clock rnd (dt_of (mSolver (rt_base s))) (sim_mTime (rt_base s)) (Suc k)" for k
    by (simp add: s1 clock_Suc)
  have "sim_mTime (rt_base s1) < mFinalTime (rt_base s1)" using Suc.prems(5)[of 1] by (simp add: s1 clock_Suc)
  then have loop: "rt_loop K L s = rt_loop K L s1" by (subst rt_loop.simps) (simp add: s1(1))
  obtain s' where "rt_loop K L s1 = Some (Ok s')" "quiet L (rt_base s')"
     "mTimeStepCount (rt_base s') = mTimeStepCount (rt_base s1) + int (Suc n)"
     "sim_mTime (rt_base s') = clock rnd (dt_of (mSolver (rt_base s1))) (sim_mTime (rt_base s1)) (Suc n)"
     "mTimer s' = sleeps_timerfd (expirations K (sim_env (rt_base s1)) (Suc n)) (mTimer s1)"
    using Suc.IH[OF s1(2) Suc.prems(2) flags] Suc.prems(4-6) unfolding clk s1(5,6) by auto
  then show ?case
    using loop by (simp add: s1(6-8) clk expirations_Suc[of K _ "Suc n"] sleeps_timerfd_def del: clock_Suc)
qed

end

lemma sleeps_timerfd_state:
  "mState (sleeps_timerfd tks t) = mState t"
  by (induction tks arbitrary: t)
     (simp_all add: sleeps_timerfd_def Timer_sleep_timerfd_def count_ticks_final)

lemma start_timer_quiet:
  assumes "kernel_ok K" and "mState (mTimer s) = stopped"
    and "0 \<le> rnd (rt_mTimeStep s * 1000000000)" and "rnd (rt_mTimeStep s * 1000000000) < 2 ^ 64"
  shows "\<exists>t e. start_timer K rnd startAt s = Some (Ok (s\<lparr>rt_base := (rt_base s)\<lparr>sim_env := e\<rparr>, mTimer := t\<rparr>))
     \<and> mState t = running \<and> mTicks t = 0 \<and> mOverruns t = 0 \<and> mFlags t = mFlags (mTimer s)"
proof -
  obtain rt e1 where 1: "system_now K (sim_env (rt_base s)) = (rt, e1)" by fastforce
  obtain st e2 where 2: "steady_now K e1 = (st, e2)" by fastforce
  obtain ret e3 where 3: "timerfd_settime K e2 = (ret, e3)" by fastforce
  have "0 \<le> ret" using assms(1) 3 by (auto simp: kernel_ok_def dest: spec[of _ e2])
  define t1 where "t1 = (setStartTime startAt (mTimer s))\<lparr>mTickInterval :=
      sint (word_of_int \<lfloor>rnd (rt_mTimeStep s * 1000000000)\<rfloor> :: 64 word)\<rparr>"
  have t1: "setInterval_double rnd (rt_mTimeStep s) (setStartTime startAt (mTimer s)) = Ok t1"
    using assms(3,4) by (simp add: setInterval_double_def t1_def)
  obtain t where t: "Timer_start rt st ret t1 = Ok t" "mState t = running" "mTicks t = 0" "mOverruns t = 0"
      "mFlags t = mFlags (mTimer s)"
    using \<open>0 \<le> ret\<close> assms(2) by (simp add: Timer_start_def t1_def setStartTime_def Let_def)
  have "start_timer K rnd startAt s = Some (Ok (s\<lparr>rt_base := (rt_base s)\<lparr>sim_env := e3\<rparr>, mTimer := t\<rparr>))"
    using t(1) by (simp add: start_timer_def on_timer_def t1 1 2 3 set_env_def)
  then show ?thesis using t by blast
qed


text \<open>A kernel that reports three expirations at the first wait and one at each later one.\<close>

definition demo_kernel :: "nat kernel" where
  "demo_kernel = \<lparr>system_now = (\<lambda>e. (0, e)), steady_now = (\<lambda>e. (0, e)), timerfd_settime = (\<lambda>e. (0, e)),
     timerfd_read = (\<lambda>e. (8, if e = 0 then 3 else 1, Suc e))\<rparr>"

definition demo_rt :: "real \<Rightarrow> (matrix mna, val, demo_world, nat) rt_sim" where
  "demo_rt final = final_state (RealTimeSimulation_new 3 0 1 (demo_sim final))"


section \<open>Equivalence of the two simulations\<close>

text \<open>The simulation with another environment. Without interfaces a step neither looks at the
  environment nor changes it.\<close>

abbreviation with_env :: "'e \<Rightarrow> ('s, 'd, 'w, 'e) sim \<Rightarrow> ('s, 'd, 'w, 'e) sim" where
  "with_env e b \<equiv> b\<lparr>sim_env := e\<rparr>"

lemma log_logger_env:
  "when_due d (log_logger L p) (with_env e b) = through (with_env e) (when_due d (log_logger L p) b)"
  by (simp add: when_due_def log_logger_def split: option.splits)

lemma step_parts_env:
  "step_logs L (with_env e b) = through (with_env e) (step_logs L b)"
  "step_advance nt (with_env e b) = through (with_env e) (step_advance nt b)"
  "step_events L (with_env e b) = through (with_env e) (step_events L b)"
  "step_solver L (with_env e b) = map_prod id (with_env e) (step_solver L b)"
proof -
  show "step_logs L (with_env e b) = through (with_env e) (step_logs L b)"
    unfolding step_logs_def by (simp add: log_logger_env for_each_run_through)
qed (auto simp: step_advance_def step_events_def step_solver_def Let_def split: option.splits outcome.splits prod.splits)

lemma step_parts_keep:
  "mInterfaces (snd (step_solver L b)) = mInterfaces b"
  "step_events L b = Some (Ok b') \<Longrightarrow> mInterfaces b' = mInterfaces b"
  by (auto simp: step_solver_def step_events_def split: prod.splits outcome.splits)

lemma Simulation_step_env:
  assumes "mInterfaces b = []"
  shows "Simulation_step L (with_env e b) = through (with_env e) (Simulation_step L b)"
proof -
  define rest where "rest = (\<lambda>b. let (nt, b) = step_solver L b
      in then_run (then_run (step_writes L b) (step_logs L)) (step_advance nt))"
  have rest: "rest (with_env e b) = through (with_env e) (rest b)" if "mInterfaces b = []" for b :: "('a, 'b, 'c, 'd) sim"
  proof -
    obtain nt b1 where st: "step_solver L b = (nt, b1)" by fastforce
    have "mInterfaces b1 = []" using step_parts_keep(1)[of L b] that st by simp
    then show ?thesis
      by (simp add: rest_def step_parts_env st for_each_run_Nil_parts then_run_through)
  qed
  have "then_run (step_events L (with_env e b)) rest = through (with_env e) (then_run (step_events L b) rest)"
    unfolding step_parts_env by (rule then_run_through) (use assms in \<open>auto intro!: rest dest: step_parts_keep(2)\<close>)
  then show ?thesis
    using assms by (simp add: Simulation_step_def rest_def for_each_run_Nil_parts)
qed

lemma Simulation_step_mInterfaces:
  "Simulation_step L b = Some (Ok b') \<Longrightarrow> mInterfaces b' = mInterfaces b \<and> mFinalTime b' = mFinalTime b"
  by (erule Simulation_step_Ok) simp

text \<open>The offline simulation inside a real-time one, with a given environment.\<close>

abbreviation seen :: "'e \<Rightarrow> ('s, 'd, 'w, 'e) rt_sim \<Rightarrow> ('s, 'd, 'w, 'e) sim" where
  "seen e s \<equiv> with_env e (rt_base s)"

text \<open>With a timer that works and does not fail on overruns, waiting changes the environment and the
  counters of the timer only.\<close>

lemma sleep_timer_ok:
  assumes "kernel_ok K" and "mFlags (mTimer s) AND fail_on_overrun = 0"
  shows "\<exists>e t. sleep_timer K s = Some (Ok (s\<lparr>rt_base := seen e s, mTimer := t\<rparr>))
     \<and> mFlags t = mFlags (mTimer s) \<and> mState t = mState (mTimer s)"
proof -
  obtain bytes tk e where rd: "timerfd_read K (sim_env (rt_base s)) = (bytes, tk, e)" by (rule prod_cases3)
  have "0 \<le> bytes" using assms(1) rd by (auto simp: kernel_ok_def dest: spec[of _ "sim_env (rt_base s)"])
  then show ?thesis using assms(2) rd
    by (intro exI[of _ e] exI[of _ "final_state (Timer_sleep_timerfd bytes tk (mTimer s))"])
       (simp add: sleep_timer_def on_timer_def set_env_def Timer_sleep_timerfd_def count_ticks_def Let_def)
qed

text \<open>A turn of the real-time loop is a step of the offline simulation, seen with a fixed environment.\<close>

lemma rt_body_through:
  assumes "kernel_ok K" and "mFlags (mTimer s) AND fail_on_overrun = 0" and "mInterfaces (rt_base s) = []"
  shows "Simulation_step L (seen e s) = through (seen e) (rt_body K L s)"
    and "rt_body K L s = Some (Ok s') \<Longrightarrow>
      mFlags (mTimer s') = mFlags (mTimer s) \<and> mState (mTimer s') = mState (mTimer s) \<and> mInterfaces (rt_base s') = []"
proof -
  have step: "Simulation_step L (seen e s) = through (with_env e) (Simulation_step L (rt_base s))"
    by (rule Simulation_step_env[OF assms(3)])
  show "Simulation_step L (seen e s) = through (seen e) (rt_body K L s)"
  proof (cases "\<exists>b. Simulation_step L (rt_base s) = Some (Ok b)")
    case True
    then obtain b where b: "Simulation_step L (rt_base s) = Some (Ok b)" ..
    show ?thesis using sleep_timer_ok[OF assms(1), of "s\<lparr>rt_base := b\<rparr>"] assms(2)
      by (auto simp: step b rt_body_def on_base_def)
  next
    case False
    then show ?thesis
      by (auto simp: step rt_body_def on_base_def then_run_def split: option.splits outcome.splits)
  qed
  assume body: "rt_body K L s = Some (Ok s')"
  then obtain b where b: "Simulation_step L (rt_base s) = Some (Ok b)" "sleep_timer K (s\<lparr>rt_base := b\<rparr>) = Some (Ok s')"
    by (cases "Simulation_step L (rt_base s)") (auto simp: rt_body_def on_base_def then_run_Some_Ok split: outcome.splits)
  then show "mFlags (mTimer s') = mFlags (mTimer s) \<and> mState (mTimer s') = mState (mTimer s) \<and> mInterfaces (rt_base s') = []"
    using sleep_timer_ok[OF assms(1), of "s\<lparr>rt_base := b\<rparr>"] assms(2,3) Simulation_step_mInterfaces[OF b(1)] by auto
qed

text \<open>The states in which the two loops are compared.\<close>

definition paced :: "('s, 'd, 'w, 'e) rt_sim \<Rightarrow> bool" where
  "paced s \<longleftrightarrow> mFlags (mTimer s) AND fail_on_overrun = 0 \<and> mInterfaces (rt_base s) = []"

lemma rt_body_paced:
  assumes "kernel_ok K" and "paced s"
  shows "Simulation_step L (seen e s) = through (seen e) (rt_body K L s)"
    and "rt_body K L s = Some (Ok s') \<Longrightarrow> paced s' \<and> mState (mTimer s') = mState (mTimer s)"
proof -
  note s = assms(2)[unfolded paced_def]
  show "Simulation_step L (seen e s) = through (seen e) (rt_body K L s)"
    by (rule rt_body_through(1)[OF assms(1) s[THEN conjunct1] s[THEN conjunct2]])
  assume "rt_body K L s = Some (Ok s')"
  from rt_body_through(2)[OF assms(1) s[THEN conjunct1] s[THEN conjunct2] this]
  show "paced s' \<and> mState (mTimer s') = mState (mTimer s)" using s by (simp add: paced_def)
qed

lemma rt_loop_unfold:
  "rt_loop K L s = then_run (rt_body K L s)
     (\<lambda>s. if sim_mTime (rt_base s) < mFinalTime (rt_base s) then rt_loop K L s else Some (Ok s))"
  by (subst rt_loop.simps) (simp add: then_run_def split: option.splits outcome.splits)

lemma rt_loop_to_run_loop:
  assumes "rt_loop K L s = Some r" and "kernel_ok K" and "paced s"
  shows "then_run (Simulation_step L (seen e s)) (run_loop L) = Some (map_outcome (seen e) r)"
  using assms
proof (induction K L s r arbitrary: e rule: rt_loop.raw_induct[rotated, consumes 1])
  case (1 loop K L s r)
  note body = rt_body_paced[OF 1(3,4)]
  show ?case
  proof (cases "rt_body K L s")
    case (Some r')
    show ?thesis
    proof (cases r')
      case (Ok s')
      show ?thesis
        using 1(2) 1(1)[of K L s' r, OF _ 1(3)] body(2)[of L s'] Some
        by (subst run_loop_unfold[abs_def]) (auto simp: body(1) Some Ok split: if_splits)
    qed (use 1(2) Some in \<open>auto simp: body(1)\<close>)
  qed (use 1(2) in simp)
qed

lemma run_loop_to_rt_loop:
  assumes "run_loop L b = Some r" and "b = seen e s" and "kernel_ok K" and "paced s"
  shows "\<exists>r'. (if sim_mTime b < mFinalTime b then rt_loop K L s else Some (Ok s)) = Some r' \<and> r = map_outcome (seen e) r'"
  using assms
proof (induction L b r arbitrary: s rule: run_loop.raw_induct[rotated, consumes 1])
  case (1 loop L b r)
  note body = rt_body_paced[OF 1(4,5)]
  show ?case
  proof (cases "sim_mTime b < mFinalTime b")
    case less: True
    show ?thesis
    proof (cases "rt_body K L s")
      case (Some r')
      show ?thesis
      proof (cases r')
        case (Ok s')
        have "loop L (seen e s') = Some r" "paced s'"
          using 1(2,3) less body(2)[of L s'] by (auto simp: body(1) Some Ok)
        then show ?thesis
          using less 1(1)[of L "seen e s'" r s', OF _ _ 1(4)]
          by (subst rt_loop_unfold) (simp add: Some Ok)
      qed (use 1(2,3) less Some in \<open>auto simp: body(1) rt_loop_unfold\<close>)
    qed (use 1(2,3) less in \<open>simp add: body(1)\<close>)
  qed (use 1(2,3) in \<open>auto split: if_splits\<close>)
qed

lemma loops_agree:
  assumes "kernel_ok K" and "paced s" and "sim_mTime (rt_base s) < mFinalTime (rt_base s)"
  shows "run_loop L (seen e s) = through (seen e) (rt_loop K L s)"
proof (cases "rt_loop K L s")
  case (Some r)
  then show ?thesis
    using rt_loop_to_run_loop[OF Some assms(1,2), of e] assms(3) by (simp add: run_loop_unfold[of L "seen e s"])
next
  case None
  then have "run_loop L (seen e s) \<noteq> Some r" for r
    using run_loop_to_rt_loop[OF _ refl assms(1,2), of L e r] assms(3) by auto
  then show ?thesis using None by (cases "run_loop L (seen e s)") auto
qed

lemma rt_loop_timer_state:
  assumes "rt_loop K L s = Some (Ok s')" and "kernel_ok K" and "paced s"
  shows "mState (mTimer s') = mState (mTimer s) \<and> mInterfaces (rt_base s') = []"
proof -
  have "r = Ok s' \<Longrightarrow> ?thesis" if "rt_loop K L s = Some r" for r
    using that assms(2,3)
  proof (induction K L s r rule: rt_loop.raw_induct[rotated, consumes 1])
    case (1 loop K L s r)
    show ?case
    proof (cases "rt_body K L s")
      case (Some r')
      then obtain s1 where s1: "r' = Ok s1" using 1(2,3) by (cases r') auto
      have p: "paced s1" "mState (mTimer s1) = mState (mTimer s)"
        using rt_body_paced(2)[OF 1(4,5)] Some s1 by auto
      show ?thesis
        using 1(1)[of K L s1 r, OF _ 1(3,4) p(1)] 1(2,3) p by (auto simp: Some s1 paced_def split: if_splits)
    qed (use 1(2) in simp)
  qed
  then show ?thesis using assms(1) by blast
qed

text \<open>C17: the real-time simulation computes what the offline simulation computes. Without interfaces, with
  a timer that works and does not fail on overruns, and with some time left to simulate, \<open>run\<close> of the
  real-time simulation and \<open>run\<close> of the offline simulation have the same outcome, whatever the solver
  and the kernel's clock do: both return, with the same time, steps, solver, loggers, queue of events
  and attributes, or both throw the same exception in the same state, or both do not return.\<close>

theorem real_time_equals_offline:
  fixes s :: "('s, 'd, 'w, 'e) rt_sim"
  assumes "kernel_ok K" and "mInterfaces (rt_base s) = []" and "mFlags (mTimer s) = 0" and "mState (mTimer s) = stopped"
    and "0 \<le> rnd (rt_mTimeStep s * 1000000000)" and "rnd (rt_mTimeStep s * 1000000000) < 2 ^ 64"
    and "sim_mTime (rt_base s) < mFinalTime (rt_base s)"
  shows "Simulation_run L (rt_base s) =
    map_option (map_outcome (\<lambda>s'. (rt_base s')\<lparr>sim_env := sim_env (rt_base s)\<rparr>)) (rt_run_at K rnd L startAt s)"
proof -
  define e where "e = sim_env (rt_base s)"
  obtain t e1 where st: "start_timer K rnd startAt s = Some (Ok (s\<lparr>rt_base := (rt_base s)\<lparr>sim_env := e1\<rparr>, mTimer := t\<rparr>))"
      "mState t = running" "mFlags t = 0"
    using start_timer_quiet[of K s rnd startAt] assms by auto
  let ?s1 = "s\<lparr>rt_base := (rt_base s)\<lparr>sim_env := e1\<rparr>, mTimer := t\<rparr>"
  have paced: "paced ?s1" using st(3) assms(2) by (simp add: paced_def)
  have base: "seen e ?s1 = rt_base s" by (simp add: e_def)
  have loop: "run_loop L (rt_base s) = through (seen e) (rt_loop K L ?s1)"
    using loops_agree[OF assms(1) paced, of L e] assms(7) unfolding base by simp
  have stop: "Some (Ok (flush_all (close_all L (seen e s2)))) =
      through (seen e) (stop_timer K (s2\<lparr>rt_base := flush_all (close_all L (rt_base s2))\<rparr>))"
    if "rt_loop K L ?s1 = Some (Ok s2)" for s2
  proof -
    have s2: "mState (mTimer s2) = running" "mInterfaces (rt_base s2) = []"
      using rt_loop_timer_state[OF that assms(1) paced] st(2) by auto
    obtain ret e' where r: "timerfd_settime K (sim_env (rt_base s2)) = (ret, e')" by fastforce
    then have "0 \<le> ret" using assms(1) by (auto simp: kernel_ok_def dest: spec[of _ "sim_env (rt_base s2)"])
    then show ?thesis
      using s2 r by (simp add: close_all_def flush_all_def stop_timer_def on_timer_def set_env_def Timer_stop_def)
  qed
  have "Simulation_run L (rt_base s) = then_run (run_loop L (rt_base s)) (\<lambda>b. Some (Ok (flush_all (close_all L b))))"
    using assms(2) by (simp add: Simulation_run_def for_each_run_Nil_parts)
  also have "\<dots> = through (seen e) (then_run (rt_loop K L ?s1) (\<lambda>s. stop_timer K (s\<lparr>rt_base := flush_all (close_all L (rt_base s))\<rparr>)))"
    unfolding loop by (rule then_run_through) (rule stop)
  also have "then_run (rt_loop K L ?s1) (\<lambda>s. stop_timer K (s\<lparr>rt_base := flush_all (close_all L (rt_base s))\<rparr>)) =
      rt_run_at K rnd L startAt s"
    using assms(2) st(1) by (simp add: rt_run_at_def on_base_def for_each_run_Nil_parts)
  finally show ?thesis by (simp add: e_def)
qed

theorem real_time_equals_offline_witness:
  "sim_mTime (rt_base (demo_rt 2)) < mFinalTime (rt_base (demo_rt 2)) \<and>
   Simulation_run demo_lib (rt_base (demo_rt 2)) =
    map_option (map_outcome (\<lambda>s'. (rt_base s')\<lparr>sim_env := sim_env (rt_base (demo_rt 2))\<rparr>))
      (rt_run_at demo_kernel (\<lambda>x. x) demo_lib 5 (demo_rt 2))"
proof -
  have rt: "rt_base (demo_rt 2) = demo_sim 2" "rt_mTimeStep (demo_rt 2) = 1" "mState (mTimer (demo_rt 2)) = stopped"
    "mFlags (mTimer (demo_rt 2)) = 0" and ok: "kernel_ok demo_kernel"
    by (simp_all add: demo_rt_def RealTimeSimulation_new_def Timer_new_def kernel_ok_def demo_kernel_def)
  have sim: "mInterfaces (demo_sim 2) = []" "sim_mTime (demo_sim 2) < mFinalTime (demo_sim 2)"
    using demo_quiet[of 2] by (simp_all add: quiet_def)
  show ?thesis
    using real_time_equals_offline[of demo_kernel "demo_rt 2" "\<lambda>x. x" demo_lib 5] ok sim by (simp add: rt)
qed

end
