(* ===== verification/MNAShape.thy ===== *)
theory MNAShape
  imports Runs
begin

text \<open>
  The sizes of the matrices and vectors of the MNA solver (\<open>Source/MNASolver.cpp\<close>): an invariant of the
  solver's state, from \<open>initialize\<close> over every step of a simulation. Eigen refuses, or computes
  nonsense with, operands of different sizes, so this is the type invariant of the solver.
\<close>

section \<open>The invariant\<close>

definition is_matrix :: "nat \<Rightarrow> matrix \<Rightarrow> bool" where
  "is_matrix n g \<longleftrightarrow> length g = n \<and> (\<forall>row \<in> set g. length row = n)"

text \<open>The components stamp into what they are given without changing its size, and a factorisation of a
  square matrix solves for vectors of its size.\<close>

definition shape_laws :: "('w, 'lu) cps_mna \<Rightarrow> bool" where
  "shape_laws cps \<longleftrightarrow>
     (\<forall>c w g n. is_matrix n g \<longrightarrow> is_matrix n (mnaApplySystemMatrixStamp cps c w g))
   \<and> (\<forall>c b w g n. is_matrix n g \<longrightarrow> is_matrix n (mnaApplySwitchSystemMatrixStamp cps c b w g))
   \<and> (\<forall>c w v. length (mnaApplyRightSideVectorStamp cps c w v) = length v)
   \<and> (\<forall>c t w g r l. case mnaStep cps c t (w, g, r, l) of (w', g', r', l') \<Rightarrow>
        (\<forall>n. is_matrix n g \<longrightarrow> is_matrix n g') \<and> length r' = length r \<and> length l' = length l)
   \<and> (\<forall>c t w r l. case mnaPostStep cps c t (w, r, l) of (w', r', l') \<Rightarrow> length r' = length r \<and> length l' = length l)
   \<and> (\<forall>g v. is_matrix (length v) g \<longrightarrow> length (lu_solve cps (lu cps g) v) = length v)"

text \<open>All matrices are square of size \<open>n\<close>, the number of unknowns, both vectors have \<open>n\<close> entries, and there
  are as many switched matrices as the code creates.\<close>

definition shaped :: "nat \<Rightarrow> 'lu mna \<Rightarrow> bool" where
  "shaped n m \<longleftrightarrow> mna_dim m = n \<and> is_matrix n (mTmpSystemMatrix m)
     \<and> length (mRightSideVector m) = n \<and> length (mLeftSideVector m) = n
     \<and> (\<forall>(k, a) \<in> set (mSwitchedMatrices m). is_matrix n a)
     \<and> map fst (mSwitchedMatrices m) = map of_nat [0..<2 * length (mSwitches m)]"

text \<open>Every factorisation that \<open>solve\<close> can select exists and is one of a matrix of that size.\<close>

definition factorised :: "('w, 'lu) cps_mna \<Rightarrow> nat \<Rightarrow> 'lu mna \<Rightarrow> bool" where
  "factorised cps n m \<longleftrightarrow> (\<exists>g. is_matrix n g \<and> mTmpLuFactorization m = lu cps g)
     \<and> length (mSwitches m) \<le> 2 \<and> unat (mCurrentSwitchStatus m) < 2 ^ length (mSwitches m)
     \<and> (mSwitches m \<noteq> [] \<longrightarrow> (\<forall>k. unat k < 2 ^ length (mSwitches m) \<longrightarrow>
          (\<exists>g. is_matrix n g \<and> mLuFactorizations m k = Some (lu cps g))))"

definition mna_wf :: "('w, 'lu) cps_mna \<Rightarrow> 'lu mna \<Rightarrow> bool" where
  "mna_wf cps m \<longleftrightarrow> shaped (mna_dim m) m \<and> factorised cps (mna_dim m) m"

section \<open>The parts of a step\<close>

lemma is_matrix_zero: "is_matrix n (zero_matrix n)"
  by (auto simp: is_matrix_def zero_matrix_def zero_vec_def)

lemma is_matrix_set_zero: "is_matrix n g \<Longrightarrow> is_matrix n (map set_zero g)"
  by (auto simp: is_matrix_def set_zero_def)

lemma stamp_all_shape: "shape_laws cps \<Longrightarrow> is_matrix n g \<Longrightarrow> is_matrix n (stamp_all cps w cs g)"
  unfolding stamp_all_def by (rule fold_invariant[where Q = "\<lambda>_. True"]) (auto simp: shape_laws_def)

lemma switched_matrix_shape: "shape_laws cps \<Longrightarrow> is_matrix n g \<Longrightarrow> is_matrix n (switched_matrix cps w m k g)"
  unfolding switched_matrix_def
  by (rule fold_invariant[where Q = "\<lambda>_. True"]) (simp_all add: stamp_all_shape, simp add: shape_laws_def)

definition part_shape :: "nat \<Rightarrow> 'w \<times> matrix \<times> vec \<times> vec \<Rightarrow> bool" where
  "part_shape n s \<longleftrightarrow> (case s of (w, g, r, l) \<Rightarrow> is_matrix n g \<and> length r = n \<and> length l = n)"

lemma fold_mnaStep_shape:
  assumes "shape_laws cps" and "part_shape n s"
  shows "part_shape n (fold (\<lambda>c. mnaStep cps c t) cs s)"
proof (rule fold_invariant[where Q = "\<lambda>_. True"])
  show "part_shape n (mnaStep cps c t s)" if "part_shape n s" for c and s :: "'a \<times> matrix \<times> vec \<times> vec"
    using assms(1) that by (cases s) (fastforce simp: shape_laws_def part_shape_def split: prod.splits)
qed (use assms(2) in auto)

definition post_shape :: "nat \<Rightarrow> 'w \<times> vec \<times> vec \<Rightarrow> bool" where
  "post_shape n s \<longleftrightarrow> (case s of (w, r, l) \<Rightarrow> length r = n \<and> length l = n)"

lemma fold_mnaPostStep_shape:
  assumes "shape_laws cps" and "post_shape n s"
  shows "post_shape n (fold (\<lambda>c. mnaPostStep cps c t) cs s)"
proof (rule fold_invariant[where Q = "\<lambda>_. True"])
  show "post_shape n (mnaPostStep cps c t s)" if "post_shape n s" for c and s :: "'a \<times> vec \<times> vec"
    using assms(1) that by (cases s) (fastforce simp: shape_laws_def post_shape_def split: prod.splits)
qed (use assms(2) in auto)

lemma mna_dim_update [simp]:
  "mna_dim (m\<lparr>mTmpSystemMatrix := g\<rparr>) = mna_dim m" "mna_dim (m\<lparr>mRightSideVector := r\<rparr>) = mna_dim m"
  "mna_dim (m\<lparr>mLeftSideVector := l\<rparr>) = mna_dim m" "mna_dim (m\<lparr>mTmpLuFactorization := f\<rparr>) = mna_dim m"
  "mna_dim (m\<lparr>mLuFactorizations := fs\<rparr>) = mna_dim m" "mna_dim (m\<lparr>mCurrentSwitchStatus := s\<rparr>) = mna_dim m"
  "mna_dim (m\<lparr>mSwitchedMatrices := gs\<rparr>) = mna_dim m" "mna_dim (m\<lparr>mInitLeftVectorLog := a\<rparr>) = mna_dim m"
  "mna_dim (m\<lparr>mInitRightVectorLog := a\<rparr>) = mna_dim m" "mna_dim (m\<lparr>mLeftVectorLog := a\<rparr>) = mna_dim m"
  "mna_dim (m\<lparr>mRightVectorLog := a\<rparr>) = mna_dim m"
  by (simp_all add: mna_dim_def)

lemma mna_steps_shape:
  assumes "shape_laws cps" and "shaped n m" and "mna_steps cps t cs (m, w) = (m', w')"
  shows "shaped n m'" and "\<exists>g r l. m' = m\<lparr>mTmpSystemMatrix := g, mRightSideVector := r, mLeftSideVector := l\<rparr>"
proof -
  obtain v g r l where f: "fold (\<lambda>c. mnaStep cps c t) cs (w, mTmpSystemMatrix m, mRightSideVector m, mLeftSideVector m) = (v, g, r, l)"
    by (rule prod_cases4)
  have m': "m' = m\<lparr>mTmpSystemMatrix := g, mRightSideVector := r, mLeftSideVector := l\<rparr>"
    using assms(3) f by (simp add: mna_steps_def)
  then show "\<exists>g r l. m' = m\<lparr>mTmpSystemMatrix := g, mRightSideVector := r, mLeftSideVector := l\<rparr>" by blast
  have "part_shape n (v, g, r, l)"
    using fold_mnaStep_shape[OF assms(1), of n "(w, mTmpSystemMatrix m, mRightSideVector m, mLeftSideVector m)" t cs] assms(2)
    by (simp add: f) (simp add: part_shape_def shaped_def)
  then show "shaped n m'" using assms(2) by (simp add: m' shaped_def part_shape_def)
qed

lemma mna_post_steps_shape:
  assumes "shape_laws cps" and "shaped n m" and "mna_post_steps cps t (m, w) = (m', w')"
  shows "shaped n m'" and "\<exists>r l. m' = m\<lparr>mRightSideVector := r, mLeftSideVector := l\<rparr>"
proof -
  obtain v r l where f: "fold (\<lambda>c. mnaPostStep cps c t) (mPowerComponents m) (w, mRightSideVector m, mLeftSideVector m) = (v, r, l)"
    by (rule prod_cases3)
  have m': "m' = m\<lparr>mRightSideVector := r, mLeftSideVector := l\<rparr>" using assms(3) f by (simp add: mna_post_steps_def)
  then show "\<exists>r l. m' = m\<lparr>mRightSideVector := r, mLeftSideVector := l\<rparr>" by blast
  have "post_shape n (v, r, l)"
    using fold_mnaPostStep_shape[OF assms(1), of n "(w, mRightSideVector m, mLeftSideVector m)" t "mPowerComponents m"] assms(2)
    by (simp add: f) (simp add: post_shape_def shaped_def)
  then show "shaped n m'" using assms(2) by (simp add: m' shaped_def post_shape_def)
qed

lemma factorised_vectors [simp]:
  "factorised cps n (m\<lparr>mTmpSystemMatrix := g\<rparr>) = factorised cps n m"
  "factorised cps n (m\<lparr>mRightSideVector := r\<rparr>) = factorised cps n m"
  "factorised cps n (m\<lparr>mLeftSideVector := l\<rparr>) = factorised cps n m"
  by (simp_all add: factorised_def)

lemma solve_shape:
  assumes "shape_laws cps" and "shaped n m" and "factorised cps n m"
  shows "shaped n (solve cps m) \<and> factorised cps n (solve cps m)"
proof -
  have sizes: "length (lu_solve cps (lu cps g) (mRightSideVector m)) = n" if "is_matrix n g" for g
    using assms(1,2) that by (auto simp: shape_laws_def shaped_def)
  show ?thesis
  proof (cases "mSwitches m = []")
    case True
    then have "mSwitchedMatrices m = []" using assms(2) by (simp add: shaped_def)
    moreover obtain g where "is_matrix n g" "mTmpLuFactorization m = lu cps g" using assms(3) by (auto simp: factorised_def)
    ultimately show ?thesis using assms(2,3) sizes by (simp add: solve_def shaped_def factorised_def)
  next
    case False
    obtain g where g: "is_matrix n g" "mLuFactorizations m (mCurrentSwitchStatus m) = Some (lu cps g)"
      using assms(3) False by (auto simp: factorised_def)
    have "map fst (mSwitchedMatrices m) = map of_nat [0..<2 * length (mSwitches m)]" using assms(2) by (simp add: shaped_def)
    then have "mSwitchedMatrices m \<noteq> []" using False by auto
    then have "solve cps m = m\<lparr>mLeftSideVector := lu_solve cps (lu cps g) (mRightSideVector m)\<rparr>"
      using g(2) by (simp add: solve_def fun_upd_idem)
    then show ?thesis using assms(2,3) sizes[OF g(1)] by (simp add: shaped_def factorised_def)
  qed
qed

lemma high_bits_clear: "unat (s :: 32 word) < 2 ^ n \<Longrightarrow> n \<le> i \<Longrightarrow> \<not> bit s i"
  using bit_take_bit_iff[of n "unat s" i] by (simp add: take_bit_nat_eq_self bit_unsigned_iff)

lemma updateSwitchStatus_shape:
  assumes "shaped n m" and "factorised cps n m"
  shows "shaped n (updateSwitchStatus cps w m) \<and> factorised cps n (updateSwitchStatus cps w m)"
proof -
  have small: "length (mSwitches m) \<le> SWITCH_NUM" "length (mSwitches m) \<le> 2"
    using assms(2) by (auto simp: factorised_def SWITCH_NUM_def)
  have "\<not> bit (mCurrentSwitchStatus (updateSwitchStatus cps w m)) i" if "length (mSwitches m) \<le> i" for i
    using bit_updateSwitchStatus[OF small(1), of cps w i] high_bits_clear[of "mCurrentSwitchStatus m" "length (mSwitches m)" i]
      assms(2) that by (simp add: factorised_def)
  then have "unat (mCurrentSwitchStatus (updateSwitchStatus cps w m)) < 2 ^ length (mSwitches m)"
    by (intro status_below small(2)) blast
  then show ?thesis using assms by (simp add: updateSwitchStatus_def shaped_def factorised_def)
qed

text \<open>One step of the solver, and its log.\<close>

lemma MnaSolver_step_wf:
  assumes "shape_laws cps" and "mna_wf cps m" and "MnaSolver_step cps rnd t (m, w) = (t', m', w')"
  shows "mna_wf cps m'"
proof -
  define n where "n = mna_dim m"
  define m0 where "m0 = m\<lparr>mRightSideVector := set_zero (mRightSideVector m)\<rparr>"
  define w0 where "w0 = fold (\<lambda>c. sigStep cps c t) (mSignalComponents m) w"
  obtain m1 w1 where 1: "mna_steps cps t (mPowerComponents m) (m0, w0) = (m1, w1)" by fastforce
  obtain m2 w2 where 2: "mna_steps cps t (mSwitches m1) (m1, w1) = (m2, w2)" by fastforce
  obtain m3 w3 where 3: "mna_post_steps cps t (solve cps m2, w2) = (m3, w3)" by fastforce
  have m': "m' = updateSwitchStatus cps (update_voltages cps m3 w3) m3"
    using assms(3) by (simp add: MnaSolver_step_def m0_def[symmetric] w0_def[symmetric] 1 2 3 Let_def) auto
  have s0: "shaped n m0" "factorised cps n m0"
    using assms(2) by (simp_all add: mna_wf_def m0_def n_def shaped_def set_zero_def)
  have s1: "shaped n m1" "factorised cps n m1"
    using mna_steps_shape[OF assms(1) s0(1) 1] s0(2) by auto
  have s2: "shaped n m2" "factorised cps n m2"
    using mna_steps_shape[OF assms(1) s1(1) 2] s1(2) by auto
  note s = solve_shape[OF assms(1) s2]
  have s3: "shaped n m3" "factorised cps n m3"
    using mna_post_steps_shape[OF assms(1) conjunct1[OF s] 3] s by auto
  have "shaped n m' \<and> factorised cps n m'" unfolding m' by (rule updateSwitchStatus_shape[OF s3])
  moreover from this have "mna_dim m' = n" by (simp add: shaped_def)
  ultimately show ?thesis by (simp add: mna_wf_def)
qed

lemma MnaSolver_log_wf: "mna_wf cps m \<Longrightarrow> mna_wf cps (MnaSolver_log fmt t m)"
  by (simp add: MnaSolver_log_def mna_wf_def shaped_def factorised_def)

lemma Simulation_step_wf:
  assumes "shape_laws cps" and "mna_wf cps (mSolver s)" and "Simulation_step (mna_lib cps rnd fmt vil toString) s = Some (Ok s')"
  shows "mna_wf cps (mSolver s')"
proof -
  obtain w1 nt sv w2 where "MnaSolver_step cps rnd (sim_mTime s) (mSolver s, w1) = (nt, sv, w2)"
      "mSolver s' = MnaSolver_log fmt (sim_mTime s) sv"
    by (rule Simulation_step_Ok[OF assms(3)]) (simp add: mna_lib_def)
  then show ?thesis using MnaSolver_step_wf[OF assms(1,2)] MnaSolver_log_wf by metis
qed

section \<open>Initialisation\<close>

lemma shaped_update [simp]:
  "shaped n (m\<lparr>mTmpLuFactorization := f\<rparr>) = shaped n m"
  "shaped n (m\<lparr>mLuFactorizations := fs\<rparr>) = shaped n m"
  "shaped n (m\<lparr>mCurrentSwitchStatus := st\<rparr>) = shaped n m"
  "shaped n (m\<lparr>mInitLeftVectorLog := a\<rparr>) = shaped n m"
  "shaped n (m\<lparr>mInitRightVectorLog := a\<rparr>) = shaped n m"
  by (simp_all add: shaped_def)

text \<open>The state after the topology is prepared: vectors and matrices of the right size, the switches of
  the topology, and nothing factorised yet.\<close>

definition unfactorised :: "nat \<Rightarrow> comp list \<Rightarrow> 'lu mna \<Rightarrow> bool" where
  "unfactorised n sws m \<longleftrightarrow> shaped n m \<and> mSwitches m = sws \<and> mLuFactorizations m = Map.empty \<and> mCurrentSwitchStatus m = 0"

lemma prepare_topology_parts:
  fixes m :: "'lu mna"
  shows "mLuFactorizations (fst (prepare_topology cps sys (m, w))) = mLuFactorizations m"
    and "mCurrentSwitchStatus (fst (prepare_topology cps sys (m, w))) = mCurrentSwitchStatus m"
    and "length (mRightSideVector (fst (prepare_topology cps sys (m, w)))) = mna_dim (fst (prepare_topology cps sys (m, w)))"
    and "length (mLeftSideVector (fst (prepare_topology cps sys (m, w)))) = mna_dim (fst (prepare_topology cps sys (m, w)))"
proof -
  let ?m = "identifyTopologyObjects cps (m\<lparr>mSystem := sys\<rparr>)"
  obtain m1 w1 where 1: "createVirtualNodes cps (?m, w) = (m1, w1)" by fastforce
  have f: "fst (prepare_topology cps sys (m, w)) = createEmptyVectors (sortExecutionPriority cps (assignSimNodes m1))"
    by (simp add: prepare_topology_def 1 Let_def)
  have "mLuFactorizations m1 = mLuFactorizations m" "mCurrentSwitchStatus m1 = mCurrentSwitchStatus m"
    using 1 by (auto simp: createVirtualNodes_def identifyTopologyObjects_def Let_def split: prod.splits)
  then show "mLuFactorizations (fst (prepare_topology cps sys (m, w))) = mLuFactorizations m"
    "mCurrentSwitchStatus (fst (prepare_topology cps sys (m, w))) = mCurrentSwitchStatus m"
    unfolding f by (simp_all add: createEmptyVectors_def sortExecutionPriority_def assignSimNodes_def split: prod.splits)
  show "length (mRightSideVector (fst (prepare_topology cps sys (m, w)))) = mna_dim (fst (prepare_topology cps sys (m, w)))"
    "length (mLeftSideVector (fst (prepare_topology cps sys (m, w)))) = mna_dim (fst (prepare_topology cps sys (m, w)))"
    unfolding f by (simp_all add: createEmptyVectors_def zero_vec_def)
qed

lemma prepare_shape:
  assumes "prepare_topology cps sys (MnaSolver_new cps complex opened logging dt domain ss, w) = (m1, w1)"
    and "createEmptySystemMatrix m1 = Ok m2"
  shows "unfactorised (mna_dim m2) (filter (asSwitch cps) (sysComponents sys)) m2"
proof -
  have m1: "length (mRightSideVector m1) = mna_dim m1" "length (mLeftSideVector m1) = mna_dim m1"
    "mSwitches m1 = filter (asSwitch cps) (sysComponents sys)" "mLuFactorizations m1 = Map.empty" "mCurrentSwitchStatus m1 = 0"
    using prepare_topology_switches(1)[of cps sys "MnaSolver_new cps complex opened logging dt domain ss" w]
      prepare_topology_parts[of cps sys "MnaSolver_new cps complex opened logging dt domain ss" w]
    by (simp_all add: assms(1)) (simp_all add: MnaSolver_new_def)
  have "m2 = m1\<lparr>mTmpSystemMatrix := zero_matrix (mna_dim m1), mSwitchedMatrices :=
      map (\<lambda>i. (of_nat i, zero_matrix (mna_dim m1))) [0..<length (mSwitches m1) * 2]\<rparr>"
    using assms(2) by (auto simp: createEmptySystemMatrix_def Let_def split: if_splits)
  then show ?thesis
    using m1 by (auto simp: unfactorised_def shaped_def is_matrix_zero mult.commute comp_def)
qed

text \<open>The steady state run.\<close>

definition steady_ok :: "('w, 'lu) cps_mna \<Rightarrow> nat \<Rightarrow> comp list \<Rightarrow> 'lu mna \<Rightarrow> bool" where
  "steady_ok cps n sws m \<longleftrightarrow> unfactorised n sws m \<and> (\<exists>g. is_matrix n g \<and> mTmpLuFactorization m = lu cps g)"

lemma steady_body_ok:
  assumes "shape_laws cps" and "steady_ok cps n sws (fst s)"
  shows "steady_ok cps n sws (fst (steady_body cps fmt t s))"
proof -
  obtain m w where s: "s = (m, w)" by (cases s)
  define m0 where "m0 = m\<lparr>mRightSideVector := set_zero (mRightSideVector m)\<rparr>"
  define w0 where "w0 = fold (\<lambda>c. sigStep cps c t) (mSignalComponents m) w"
  obtain m1 w1 where 1: "mna_steps cps t (mPowerComponents m) (m0, w0) = (m1, w1)" by fastforce
  define m2 where "m2 = m1\<lparr>mLeftSideVector := lu_solve cps (mTmpLuFactorization m1) (mRightSideVector m1)\<rparr>"
  obtain m3 w3 where 3: "mna_post_steps cps t (m2, w1) = (m3, w3)" by fastforce
  have body: "fst (steady_body cps fmt t s) = init_log fmt t m3"
    by (simp add: s steady_body_def m0_def[symmetric] w0_def[symmetric] 1 m2_def[symmetric] 3 Let_def)
  have s0: "shaped n m0" using assms(2) by (simp add: s steady_ok_def unfactorised_def m0_def shaped_def set_zero_def)
  obtain g0 r0 l0 where m1: "m1 = m0\<lparr>mTmpSystemMatrix := g0, mRightSideVector := r0, mLeftSideVector := l0\<rparr>" and s1: "shaped n m1"
    using mna_steps_shape[OF assms(1) s0 1] by auto
  obtain g where g: "is_matrix n g" "mTmpLuFactorization m1 = lu cps g"
    using assms(2) by (auto simp: s steady_ok_def m1 m0_def)
  then have "length (lu_solve cps (lu cps g) (mRightSideVector m1)) = n"
    using assms(1) s1 by (auto simp: shape_laws_def shaped_def)
  then have "shaped n m2" using s1 g by (simp add: m2_def shaped_def)
  then obtain r l where m3: "m3 = m2\<lparr>mRightSideVector := r, mLeftSideVector := l\<rparr>" and s3: "shaped n m3"
    using mna_post_steps_shape[OF assms(1) _ 3] by blast
  have "mSwitches m3 = sws" "mLuFactorizations m3 = Map.empty" "mCurrentSwitchStatus m3 = 0"
    using assms(2) by (simp_all add: m3 m2_def m1 m0_def s steady_ok_def unfactorised_def)
  moreover have "mTmpLuFactorization m3 = lu cps g" using g by (simp add: m3 m2_def)
  ultimately show ?thesis
    using s3 g(1) by (auto simp: body steady_ok_def unfactorised_def init_log_def)
qed

lemma steady_loop_ok:
  assumes "steady_loop cps rnd fmt t prev s = Some (Ok s')" and "shape_laws cps" and "steady_ok cps n sws (fst s)"
  shows "steady_ok cps n sws (fst s')"
proof -
  have "r = Ok s' \<Longrightarrow> ?thesis" if "steady_loop cps rnd fmt t prev s = Some r" for r
    using that assms(2,3)
  proof (induction cps rnd fmt t prev s r rule: steady_loop.raw_induct[rotated, consumes 1])
    case (1 loop cps rnd fmt t prev s r)
    note body = steady_body_ok[OF 1(4,5), of fmt t]
    show ?case
      using 1(2,3) 1(1)[OF _ 1(3,4) body] body 1(5) by (auto simp: Let_def split: if_splits)
  qed
  then show ?thesis using assms(1) by blast
qed

lemma steadyStateInitialization_ok:
  assumes "steadyStateInitialization cps rnd fmt (m, w) = Some (Ok (m', w'))" and "shape_laws cps" and "unfactorised n sws m"
  shows "unfactorised n sws m'"
proof -
  define v where "v = set_behaviours cps Initialization m w"
  define g where "g = stamp_all cps v (mSwitches m) (stamp_all cps v (mPowerComponents m) (mTmpSystemMatrix m))"
  define m0 where "m0 = m\<lparr>mTmpSystemMatrix := g, mTmpLuFactorization := lu cps g\<rparr>"
  have "is_matrix n g" using assms(2,3) by (simp add: g_def stamp_all_shape unfactorised_def shaped_def)
  then have "steady_ok cps n sws (fst (m0, v))"
    using assms(3) by (auto simp: m0_def steady_ok_def unfactorised_def shaped_def)
  moreover obtain m1 where "steady_loop cps rnd fmt 0 (zero_vec (unat (2 * mNumNodes m))) (m0, v) = Some (Ok (m1, w'))"
    and m': "m' = m1\<lparr>mTmpSystemMatrix := map set_zero (mTmpSystemMatrix m1), mRightSideVector := set_zero (mRightSideVector m1)\<rparr>"
    using assms(1)
    by (auto simp: steadyStateInitialization_def Let_def v_def[symmetric] g_def[symmetric] m0_def[symmetric] and_then_Ok_iff)
  ultimately have "unfactorised n sws m1" using steady_loop_ok[OF _ assms(2)] by (fastforce simp: steady_ok_def)
  then show ?thesis by (simp add: m' unfactorised_def shaped_def is_matrix_set_zero) (simp add: set_zero_def)
qed

lemma initialize_matrices_wf:
  assumes "initialize_matrices cps (m, w) = (m', w')" and "shape_laws cps" and "unfactorised n sws m" and "length sws \<le> 2"
  shows "mna_wf cps m'"
proof -
  have m: "shaped n m" "mSwitches m = sws" "mLuFactorizations m = Map.empty" "mCurrentSwitchStatus m = 0"
    using assms(3) by (simp_all add: unfactorised_def)
  define g where "g = stamp_all cps w' (mSwitches m) (stamp_all cps w' (mPowerComponents m) (mTmpSystemMatrix m))"
  define m1 where "m1 = m\<lparr>mTmpSystemMatrix := g, mTmpLuFactorization := lu cps g\<rparr>"
  define sw where "sw = map (\<lambda>(key, a). (key, switched_matrix cps w' m1 key a)) (mSwitchedMatrices m)"
  define lus where "lus = map_of (map (\<lambda>(key, a). (key, lu cps a)) sw)"
  define m2 where "m2 = m1\<lparr>mSwitchedMatrices := sw, mLuFactorizations := lus\<rparr>"
  have m': "m' = (updateSwitchStatus cps w' m2)\<lparr>mRightSideVector :=
      fold (\<lambda>c. mnaApplyRightSideVectorStamp cps c w') (mPowerComponents m) (mRightSideVector m)\<rparr>"
    using assms(1) m(3) by (auto simp: initialize_matrices_def Let_def updateSwitchStatus_def g_def m1_def sw_def lus_def m2_def)
  have gm: "is_matrix n g" using assms(2) m(1) by (simp add: g_def stamp_all_shape shaped_def)
  have sw: "\<forall>(k, a) \<in> set sw. is_matrix n a" "map fst sw = map of_nat [0..<2 * length sws]"
    using m(1,2) assms(2) by (auto simp: sw_def shaped_def switched_matrix_shape comp_def split_def)
  have s2: "shaped n m2" using m(1,2) gm sw by (simp add: m2_def m1_def shaped_def)
  have "\<exists>a. is_matrix n a \<and> lus k = Some (lu cps a)" if "unat k < 2 ^ length sws" "sws \<noteq> []" for k
  proof -
    have "(2::nat) ^ length sws = 2 * length sws" using that(2) assms(4) by (cases sws; cases "tl sws") auto
    then have "k \<in> set (map fst sw)" unfolding sw(2) using that(1) by (auto intro!: image_eqI[of _ _ "unat k"])
    then obtain a where "(k, a) \<in> set sw" by auto
    then have "k \<in> fst ` set (map (\<lambda>(key, a). (key, lu cps a)) sw)" by force
    then obtain f where f: "lus k = Some f" unfolding lus_def by (metis map_of_eq_None_iff not_None_eq)
    then have "(k, f) \<in> set (map (\<lambda>(key, a). (key, lu cps a)) sw)" unfolding lus_def by (rule map_of_SomeD)
    then show ?thesis using sw(1) f by auto
  qed
  then have f2: "factorised cps n m2"
    using gm assms(4) m(2,4) by (auto simp: factorised_def m2_def m1_def)
  have len: "length (fold (\<lambda>c. mnaApplyRightSideVectorStamp cps c w') cs v) = length v" for cs v
    using assms(2) by (induction cs arbitrary: v) (simp_all add: shape_laws_def)
  have "shaped n m' \<and> factorised cps n m'"
    using updateSwitchStatus_shape[OF s2 f2, of w'] m(1) by (simp add: m' len shaped_def)
  moreover from this have "mna_dim m' = n" by (simp add: shaped_def)
  ultimately show ?thesis by (simp add: mna_wf_def)
qed

lemma MnaSolver_initialize_wf:
  assumes "MnaSolver_initialize cps rnd fmt sys (MnaSolver_new cps complex opened logging dt domain ss, w) = Some (Ok (m, w'))"
    and "shape_laws cps" and "length (filter (asSwitch cps) (sysComponents sys)) \<le> 2"
  shows "mna_wf cps m"
proof -
  obtain m1 w1 where 1: "prepare_topology cps sys (MnaSolver_new cps complex opened logging dt domain ss, w) = (m1, w1)" by fastforce
  obtain m2 where 2: "createEmptySystemMatrix m1 = Ok m2"
    using assms(1) by (auto simp: MnaSolver_initialize_def 1 split: if_splits outcome.splits)
  obtain w2 where comps: "initialize_components cps (m2, w1) = (m2, w2)" by (simp add: initialize_components_def Let_def)
  note u2 = prepare_shape[OF 1 2]
  obtain m3 w3 where 3: "m3 = m2 \<or> steadyStateInitialization cps rnd fmt (m2, w2) = Some (Ok (m3, w3))"
      "initialize_matrices cps (m3, w3) = (m, w')"
    using assms(1) by (auto simp: MnaSolver_initialize_def 1 2 comps and_then_Ok_iff Let_def split: if_splits)
  have "unfactorised (mna_dim m2) (filter (asSwitch cps) (sysComponents sys)) m3"
    using 3(1) u2 steadyStateInitialization_ok[OF _ assms(2)] by blast
  then show ?thesis by (rule initialize_matrices_wf[OF 3(2) assms(2) _ assms(3)])
qed

text \<open>C9: the solver never meets operands of the wrong size. If a topology with at most two switches is
  initialised, then in every state of every run of the simulation with this solver all matrices are
  square of the number of unknowns, both vectors have that length, and the status of the switches selects
  an existing factorisation of a matrix of that size, whatever the events, interfaces and loggers do.\<close>

theorem run_keeps_shapes:
  fixes s :: "('lu mna, 'd, 'w, 'e) sim"
  assumes "shape_laws cps" and "length (filter (asSwitch cps) (sysComponents sys)) \<le> 2"
    and "MnaSolver_initialize cps rnd fmt sys (MnaSolver_new cps complex opened logging dt domain ss, w) = Some (Ok (mSolver s, w'))"
    and "Simulation_run (mna_lib cps rnd fmt vil toString) s = Some (Ok s')"
  shows "\<exists>s1 st s2. run_trace (mna_lib cps rnd fmt vil toString) s1 st s2
     \<and> s' = flush_all (close_all (mna_lib cps rnd fmt vil toString) s2)
     \<and> (\<forall>x \<in> set (s' # st). mna_wf cps (mSolver x)
         \<and> (mSwitches (mSolver x) \<noteq> [] \<longrightarrow>
              (\<exists>g. is_matrix (mna_dim (mSolver x)) g \<and> mLuFactorizations (mSolver x) (mCurrentSwitchStatus (mSolver x)) = Some (lu cps g))))"
proof -
  let ?L = "mna_lib cps rnd fmt vil toString"
  from assms(4) obtain ifs e w1 st s2 where
    tr: "run_trace ?L (s\<lparr>interface_at := ifs, sim_env := e, sim_world := w1\<rparr>) st s2" and
    s': "s' = flush_all (close_all ?L s2)"
    by (rule Simulation_run_trace)
  have "mna_wf cps (mSolver s)" by (rule MnaSolver_initialize_wf[OF assms(3,1,2)])
  then have "mna_wf cps (mSolver s2) \<and> (\<forall>x \<in> set st. mna_wf cps (mSolver x))"
    by (intro run_trace_invariant[OF tr]) (auto intro: Simulation_step_wf[OF assms(1)])
  then have wf: "\<forall>x \<in> set (s' # st). mna_wf cps (mSolver x)" by (simp add: s' flush_all_def close_all_def)
  then have "\<forall>x \<in> set (s' # st). mna_wf cps (mSolver x) \<and> (mSwitches (mSolver x) \<noteq> [] \<longrightarrow>
      (\<exists>g. is_matrix (mna_dim (mSolver x)) g \<and> mLuFactorizations (mSolver x) (mCurrentSwitchStatus (mSolver x)) = Some (lu cps g)))"
    by (fastforce simp: mna_wf_def factorised_def)
  with tr s' show ?thesis by blast
qed

definition demo_topology :: system_topology where
  "demo_topology = \<lparr>sysComponents = [1, 10], sysNodes = [demo_node Single], mSystemFrequency = 50, mSystemOmega = 314\<rparr>"

lemma demo_shape_laws: "shape_laws demo_mna"
proof -
  have "is_matrix n (demo_stamp x g)" if "is_matrix n g" for n x g
    using that by (auto simp: is_matrix_def demo_stamp_def split: list.splits)
  moreover have "mnaApplyRightSideVectorStamp demo_mna c w v = v" for c w v
    by (simp add: demo_mna_def cps_attrs.defs cps_mna.defs)
  ultimately show ?thesis by (simp add: shape_laws_def)
qed

lemma demo_initialize:
  "\<exists>m w'. MnaSolver_initialize demo_mna rnd fmt demo_topology (MnaSolver_new demo_mna True True True 1 DP False, demo_start) = Some (Ok (m, w'))"
proof -
  let ?m = "MnaSolver_new demo_mna True True True 1 DP False"
  obtain m1 w1 where 1: "prepare_topology demo_mna demo_topology (?m, demo_start) = (m1, w1)" by fastforce
  have "mSwitches m1 = [10]" "\<not> mSteadyStateInit m1"
    using prepare_topology_switches[of demo_mna demo_topology ?m demo_start]
    by (simp_all add: 1) (simp_all add: demo_topology_def MnaSolver_new_def)
  moreover have "sysComponents demo_topology \<noteq> []" by (simp add: demo_topology_def)
  ultimately show ?thesis
    by (simp add: MnaSolver_initialize_def 1 createEmptySystemMatrix_def Let_def SWITCH_NUM_def initialize_components_def)
qed

text \<open>A run of one step (the rounding of the example ends the second addition of the clock at 5).\<close>

theorem run_keeps_shapes_witness:
  "\<exists>(s :: (matrix mna, val, demo_world, nat) sim) s'. Simulation_run (mna_lib demo_mna (\<lambda>_. 5) (\<lambda>_. ''t'') (\<lambda>_. undefined) (\<lambda>_ _. ''v'')) s = Some (Ok s')
     \<and> mna_wf demo_mna (mSolver s') \<and> mTimeStepCount s' = 1"
proof -
  let ?L = "mna_lib demo_mna (\<lambda>_. 5) (\<lambda>_. ''t'') (\<lambda>_. undefined :: (val, nat) villas) (\<lambda>_ _. ''v'')"
  obtain m w' where m: "MnaSolver_initialize demo_mna (\<lambda>_. 5) (\<lambda>_. ''t'') demo_topology
      (MnaSolver_new demo_mna True True True 1 DP False, demo_start) = Some (Ok (m, w'))"
    using demo_initialize by blast
  define s where "s = (demo_sim 2)\<lparr>mSolver := m\<rparr>"
  have "quiet ?L s" using demo_quiet[of 2] by (simp add: quiet_def s_def demo_lib_def mna_lib_def)
  then obtain s' where s': "Simulation_run ?L s = Some (Ok s')" "mTimeStepCount s' = 1"
    using mna_clock.quiet_run[of demo_mna "\<lambda>_. 5" "\<lambda>_. ''t''" "\<lambda>_. undefined" "\<lambda>_ _. ''v''" s 1]
    by (auto simp: s_def clock_def fp_add_def)
  have "length (filter (asSwitch demo_mna) (sysComponents demo_topology)) \<le> 2" by (simp add: demo_topology_def)
  from run_keeps_shapes[OF demo_shape_laws this, of "\<lambda>_. 5" "\<lambda>_. ''t''" True True True 1 DP False demo_start s w'] m s'(1)
  have "mna_wf demo_mna (mSolver s')" by (auto simp: s_def)
  then show ?thesis using s' by (intro exI[of _ s] exI[of _ s']) (simp add: s_def)
qed

end
