(* ===== verification/Switching.thy ===== *)
theory Switching
  imports Runs
begin

text \<open>
  From a switch event to the system matrix, over the event queue (\<open>Event.cpp\<close>), the simulation
  (\<open>Simulation.cpp\<close>) and the MNA solver (\<open>MNASolver.cpp\<close>): the positions of the switches through one
  step and through a whole run, and the status words that select the matrices of the steps.
\<close>

section \<open>One step\<close>

text \<open>What the events \<open>es\<close> make of a switch that is closed or not before them.\<close>

definition switch_after :: "comp \<Rightarrow> event list \<Rightarrow> bool \<Rightarrow> bool" where
  "switch_after c es b0 =
     fold (\<lambda>ev b. case ev of SwitchEvent t c' cl \<Rightarrow> if c' = c then cl else b | _ \<Rightarrow> b) es b0"

fun is_switch_event :: "event \<Rightarrow> bool" where
  "is_switch_event (SwitchEvent t c cl) = True"
| "is_switch_event (AttributeEvent t a v) = False"

text \<open>Documented behaviour of switches: \<open>close\<close> and \<open>open\<close> operate that switch alone, and no component
  operates a switch during a step.\<close>

definition switch_laws :: "('w, 'lu) cps_mna \<Rightarrow> bool" where
  "switch_laws cps \<longleftrightarrow>
     (\<forall>c c' w. mnaIsClosed cps c (sw_close cps c' w) \<longleftrightarrow> c' = c \<or> mnaIsClosed cps c w)
   \<and> (\<forall>c c' w. mnaIsClosed cps c (sw_open cps c' w) \<longleftrightarrow> c' \<noteq> c \<and> mnaIsClosed cps c w)
   \<and> (\<forall>c c' t w. mnaIsClosed cps c (sigStep cps c' t w) \<longleftrightarrow> mnaIsClosed cps c w)
   \<and> (\<forall>c c' t s. mnaIsClosed cps c (fst (mnaStep cps c' t s)) \<longleftrightarrow> mnaIsClosed cps c (fst s))
   \<and> (\<forall>c c' t s. mnaIsClosed cps c (fst (mnaPostStep cps c' t s)) \<longleftrightarrow> mnaIsClosed cps c (fst s))
   \<and> (\<forall>c i v w. mnaIsClosed cps c (mnaUpdateVoltage cps i v w) \<longleftrightarrow> mnaIsClosed cps c w)"

lemma fold_keeps:
  assumes "\<And>x s. P (f x s) = P s"
  shows "P (fold f xs s) = P s"
  using assms by (induction xs arbitrary: s) simp_all

lemma execute_switches:
  assumes "switch_laws cps" and "for_each (execute (cps_attrs.truncate cps)) es w = Ok w'" and "\<forall>ev \<in> set es. is_switch_event ev"
  shows "mnaIsClosed cps c w' \<longleftrightarrow> switch_after c es (mnaIsClosed cps c w)"
  using assms(2,3)
proof (induction es arbitrary: w)
  case (Cons ev es)
  obtain t c' b where ev: "ev = SwitchEvent t c' b" using Cons.prems(2) by (cases ev) auto
  let ?w = "if b then sw_close cps c' w else sw_open cps c' w"
  have "mnaIsClosed cps c w' \<longleftrightarrow> switch_after c es (mnaIsClosed cps c ?w)"
    using Cons.IH[of ?w] Cons.prems by (cases b) (simp_all add: ev cps_attrs.truncate_def)
  moreover have "mnaIsClosed cps c ?w \<longleftrightarrow> (if c' = c then b else mnaIsClosed cps c w)"
    using assms(1) by (auto simp: switch_laws_def)
  ultimately show ?case by (simp add: switch_after_def ev)
qed (simp add: switch_after_def)

lemma MnaSolver_step_switches:
  assumes "switch_laws cps" and "MnaSolver_step cps rnd time (m, w) = (time', m', w')" and "length (mSwitches m) \<le> SWITCH_NUM"
  shows "mSwitches m' = mSwitches m"
    and "i < length (mSwitches m) \<Longrightarrow> bit (mCurrentSwitchStatus m') i \<longleftrightarrow> mnaIsClosed cps (mSwitches m ! i) w"
    and "mLuFactorizations m k = Some f \<Longrightarrow> mLuFactorizations m' k = Some f"
    and "mnaIsClosed cps c w' \<longleftrightarrow> mnaIsClosed cps c w"
proof -
  note laws = assms(1)[unfolded switch_laws_def]
  let ?w0 = "fold (\<lambda>c. sigStep cps c time) (mSignalComponents m) w"
  obtain wp gp rp lp where p: "fold (\<lambda>c. mnaStep cps c time) (mPowerComponents m)
      (?w0, mTmpSystemMatrix m, set_zero (mRightSideVector m), mLeftSideVector m) = (wp, gp, rp, lp)"
    by (rule prod_cases4)
  obtain w1 g r l where q: "fold (\<lambda>c. mnaStep cps c time) (mSwitches m) (wp, gp, rp, lp) = (w1, g, r, l)"
    by (rule prod_cases4)
  define ms where "ms = solve cps (m\<lparr>mTmpSystemMatrix := g, mRightSideVector := r, mLeftSideVector := l\<rparr>)"
  obtain w2 r2 l2 where t: "fold (\<lambda>c. mnaPostStep cps c time) (mPowerComponents m) (w1, r, mLeftSideVector ms) = (w2, r2, l2)"
    by (rule prod_cases3)
  have ms: "mSwitches ms = mSwitches m" "mPowerComponents ms = mPowerComponents m" "mNumNetNodes ms = mNumNetNodes m"
    "mRightSideVector ms = r" "mLuFactorizations m k = Some f \<Longrightarrow> mLuFactorizations ms k = Some f" for k f
    by (auto simp: ms_def solve_def Let_def)
  have w': "w' = fold (\<lambda>i. mnaUpdateVoltage cps (of_nat i) l2) [0..<unat (mNumNetNodes m)] w2"
    and m': "m' = updateSwitchStatus cps w' (ms\<lparr>mRightSideVector := r2, mLeftSideVector := l2\<rparr>)"
    using assms(2) t ms by (auto simp: MnaSolver_step_def mna_steps_def mna_post_steps_def update_voltages_def p q Let_def ms_def[symmetric])
  have "mnaIsClosed cps c w' = mnaIsClosed cps c w2" for c
    unfolding w' by (rule fold_keeps) (use laws in simp)
  moreover have "mnaIsClosed cps c w2 = mnaIsClosed cps c w1" for c
    using fold_keeps[where P = "\<lambda>s. mnaIsClosed cps c (fst s)" and f = "\<lambda>c. mnaPostStep cps c time"
      and xs = "mPowerComponents m" and s = "(w1, r, mLeftSideVector ms)"] laws by (simp add: t)
  moreover have "mnaIsClosed cps c w1 = mnaIsClosed cps c wp" for c
    using fold_keeps[where P = "\<lambda>s. mnaIsClosed cps c (fst s)" and f = "\<lambda>c. mnaStep cps c time"
      and xs = "mSwitches m" and s = "(wp, gp, rp, lp)"] laws by (simp add: q)
  moreover have "mnaIsClosed cps c wp = mnaIsClosed cps c ?w0" for c
    using fold_keeps[where P = "\<lambda>s. mnaIsClosed cps c (fst s)" and f = "\<lambda>c. mnaStep cps c time"
      and xs = "mPowerComponents m" and s = "(?w0, mTmpSystemMatrix m, set_zero (mRightSideVector m), mLeftSideVector m)"] laws
    by (simp add: p)
  moreover have "mnaIsClosed cps c ?w0 = mnaIsClosed cps c w" for c by (rule fold_keeps) (use laws in simp)
  ultimately have pos: "mnaIsClosed cps c w' = mnaIsClosed cps c w" for c by simp
  then show "mnaIsClosed cps c w' \<longleftrightarrow> mnaIsClosed cps c w" .
  show "mSwitches m' = mSwitches m" using ms by (simp add: m' updateSwitchStatus_def)
  show "bit (mCurrentSwitchStatus m') i \<longleftrightarrow> mnaIsClosed cps (mSwitches m ! i) w" if "i < length (mSwitches m)"
    unfolding m' using bit_updateSwitchStatus[of "ms\<lparr>mRightSideVector := r2, mLeftSideVector := l2\<rparr>" cps w' i] assms(3) that
    by (simp add: ms pos)
  show "mLuFactorizations m' k = Some f" if "mLuFactorizations m k = Some f"
    using ms(5)[OF that] by (simp add: m' updateSwitchStatus_def)
qed

lemma MnaSolver_log_switches [simp]:
  "mSwitches (MnaSolver_log fmt t m) = mSwitches m" "mCurrentSwitchStatus (MnaSolver_log fmt t m) = mCurrentSwitchStatus m"
  "mLuFactorizations (MnaSolver_log fmt t m) = mLuFactorizations m"
  by (simp_all add: MnaSolver_log_def)

lemma switch_step:
  fixes cps :: "('w, 'lu) cps_mna" and s :: "('lu mna, 'd, 'w, 'e) sim"
  assumes "Simulation_step (mna_lib cps rnd fmt vil toString) s = Some (Ok s')" and "heap_ok mTime (mEvents s)"
    and "mInterfaces s = []" and "\<forall>ev \<in> set (mEvents s). is_switch_event ev"
    and "switch_laws cps" and "length (mSwitches (mSolver s)) \<le> SWITCH_NUM"
  shows "\<exists>es. evl.handled (sim_mTime s) (mEvents s) es (mEvents s') \<and> (\<forall>ev \<in> set (mEvents s'). sim_mTime s < mTime ev)
     \<and> mSwitches (mSolver s') = mSwitches (mSolver s)
     \<and> (\<forall>c. mnaIsClosed cps c (sim_world s') \<longleftrightarrow> switch_after c es (mnaIsClosed cps c (sim_world s)))
     \<and> (\<forall>i < length (mSwitches (mSolver s)). bit (mCurrentSwitchStatus (mSolver s')) i \<longleftrightarrow>
          switch_after (mSwitches (mSolver s) ! i) es (mnaIsClosed cps (mSwitches (mSolver s) ! i) (sim_world s)))
     \<and> (\<forall>k f. mLuFactorizations (mSolver s) k = Some f \<longrightarrow> mLuFactorizations (mSolver s') k = Some f)"
proof -
  let ?L = "mna_lib cps rnd fmt vil toString"
  from assms(1) obtain e w q w1 nt sv w2 ifs e2 where
    rd: "step_reads ?L s = Some (Ok (s\<lparr>sim_env := e, sim_world := w\<rparr>))" and
    ev: "handleEvents (sl_cps ?L) (sim_mTime s) (mEvents s, w) = Ok (q, w1)" and
    st: "sl_step ?L (sim_mTime s) (mSolver s, w1) = (nt, sv, w2)" and
    s': "s' = s\<lparr>sim_env := e2, sim_world := w2, mEvents := q, mSolver := sl_log ?L (sim_mTime s) sv,
       interface_at := ifs, logger_at := logged ?L (s\<lparr>sim_world := w2\<rparr>) (mLoggers s) (logger_at s),
       sim_mTime := nt, mTimeStepCount := mTimeStepCount s + 1\<rparr>"
    by (rule Simulation_step_Ok)
  have w: "w = sim_world s"
    using rd assms(3) by (auto simp: for_each_run_Nil_parts dest: arg_cong[where f = sim_world])
  obtain es where es: "evl.handled (sim_mTime s) (mEvents s) es q" "for_each (execute (sl_cps ?L)) es w = Ok w1"
      "\<forall>x \<in># mset q. sim_mTime s < mTime x"
    using evl.loop_Ok[OF assms(2) ev] by blast
  have sub: "mset (mEvents s) = mset es + mset q" using es(1) by (simp add: evl.handled_def)
  have "\<forall>ev \<in> set es. is_switch_event ev"
    using assms(4) sub by (metis set_mset_mset union_iff)
  then have pos: "mnaIsClosed cps c w1 \<longleftrightarrow> switch_after c es (mnaIsClosed cps c (sim_world s))" for c
    using execute_switches[OF assms(5), of es w w1 c] es(2) by (simp add: mna_lib_def w)
  have step: "MnaSolver_step cps rnd (sim_mTime s) (mSolver s, w1) = (nt, sv, w2)" using st by (simp add: mna_lib_def)
  note sw = MnaSolver_step_switches[OF assms(5) step assms(6)]
  show ?thesis
    using es sw pos by (intro exI[of _ es]) (simp add: s' mna_lib_def)
qed

text \<open>From an event to the matrix, over the event queue, the simulation and the MNA solver. Without
  interfaces and with switch events only, a step executes the events \<open>es\<close>, in order of time: those that
  are due at its start, and no others. After the step the status word, which selects the matrix of the
  next step, has for every switch the position that the last event on it asked for, or the old position
  if there was none; and the factorisations that were computed at the start are still in place.\<close>

theorem switch_event_selects_next_matrix:
  fixes cps :: "('w, 'lu) cps_mna" and s :: "('lu mna, 'd, 'w, 'e) sim"
  assumes "Simulation_step (mna_lib cps rnd fmt vil toString) s = Some (Ok s')" and "heap_ok mTime (mEvents s)"
    and "mInterfaces s = []" and "\<forall>ev \<in> set (mEvents s). is_switch_event ev"
    and "switch_laws cps" and "length (mSwitches (mSolver s)) \<le> SWITCH_NUM"
  shows "\<exists>es. sorted (map mTime es) \<and> mset (mEvents s) = mset es + mset (mEvents s')
     \<and> (\<forall>ev \<in> set es. mTime ev \<le> sim_mTime s) \<and> (\<forall>ev \<in> set (mEvents s'). sim_mTime s < mTime ev)
     \<and> mSwitches (mSolver s') = mSwitches (mSolver s)
     \<and> (\<forall>i < length (mSwitches (mSolver s)). bit (mCurrentSwitchStatus (mSolver s')) i \<longleftrightarrow>
          switch_after (mSwitches (mSolver s) ! i) es (mnaIsClosed cps (mSwitches (mSolver s) ! i) (sim_world s)))
     \<and> (\<forall>k f. mLuFactorizations (mSolver s) k = Some f \<longrightarrow> mLuFactorizations (mSolver s') k = Some f)"
  using switch_step[OF assms] by (auto simp: evl.handled_def)

text \<open>Closing switch 10 at time 0: the first step reads it, the second step uses its matrix.\<close>

theorem switch_event_selects_next_matrix_witness:
  "\<exists>s'. Simulation_step demo_lib (demo_sim 2) = Some (Ok s') \<and> mEvents s' = []
     \<and> bit (mCurrentSwitchStatus (mSolver s')) 0 \<and> \<not> bit (mCurrentSwitchStatus (mSolver (demo_sim 2))) 0"
proof -
  obtain s' where s': "Simulation_step demo_lib (demo_sim 2) = Some (Ok s')" using demo_step_Ok by blast
  have q: "heap_ok mTime (mEvents (demo_sim 2))" "mInterfaces (demo_sim 2) = []" "mEvents (demo_sim 2) = [SwitchEvent 0 10 True]"
    using demo_quiet[of 2] by (simp_all add: quiet_def)
       (simp add: demo_sim_def addLogger_def sim_addEvent_def Simulation_new_def addEvent_def heap_push_def sift_up.simps)
  have sv: "mSolver (demo_sim 2) = demo_stepping"
    by (simp add: demo_sim_def addLogger_def sim_addEvent_def Simulation_new_def)
  have sw: "mSwitches demo_stepping = [10]" "mCurrentSwitchStatus demo_stepping = 0"
    by (simp_all add: demo_stepping_def demo_solver_def MnaSolver_new_def)
  have laws: "switch_laws demo_mna"
    by (auto simp: switch_laws_def demo_mna_def demo_cps_def cps_attrs.defs cps_mna.defs)
  obtain es where es: "mset (mEvents (demo_sim 2)) = mset es + mset (mEvents s')"
      "\<forall>ev \<in> set (mEvents s'). sim_mTime (demo_sim 2) < mTime ev"
      "\<forall>i < length (mSwitches demo_stepping). bit (mCurrentSwitchStatus (mSolver s')) i \<longleftrightarrow>
          switch_after (mSwitches demo_stepping ! i) es (mnaIsClosed demo_mna (mSwitches demo_stepping ! i) (sim_world (demo_sim 2)))"
    using switch_event_selects_next_matrix[OF s'[unfolded demo_lib_def] q(1,2) _ laws] by (auto simp: q(3) sv sw(1) SWITCH_NUM_def)
  have "\<forall>ev \<in># mset (mEvents s'). ev = SwitchEvent 0 10 True"
    using es(1) q(3) by (metis mset.simps set_mset_single singletonD union_iff add_mset_eq_single mset_single_iff)
  then have "mEvents s' = []" using es(2) by (cases "mEvents s'") auto
  moreover from this have "es = [SwitchEvent 0 10 True]" using es(1) q(3) by simp
  ultimately show ?thesis using s' es(3) by (auto simp: sv sw switch_after_def)
qed

section \<open>A whole run\<close>

lemma switch_after_append [simp]: "switch_after c (es @ fs) b = switch_after c fs (switch_after c es b)"
  by (simp add: switch_after_def)

lemma switch_after_Nil [simp]: "switch_after c [] b = b"
  by (simp add: switch_after_def)

text \<open>The states \<open>u\<close> whose solver still has the switches and the factorisations of \<open>m\<close> and whose status
  word holds the positions \<open>p\<close>.\<close>

definition holds_positions :: "(comp \<Rightarrow> bool) \<Rightarrow> 'lu mna \<Rightarrow> 'lu mna \<Rightarrow> bool" where
  "holds_positions p m m' \<longleftrightarrow> mSwitches m' = mSwitches m
     \<and> (\<forall>i < length (mSwitches m). bit (mCurrentSwitchStatus m') i \<longleftrightarrow> p (mSwitches m ! i))
     \<and> (\<forall>k f. mLuFactorizations m k = Some f \<longrightarrow> mLuFactorizations m' k = Some f)"

lemma holds_positions_later:
  assumes "holds_positions p m1 m'" and "mSwitches m1 = mSwitches m"
    and "\<forall>k f. mLuFactorizations m k = Some f \<longrightarrow> mLuFactorizations m1 k = Some f"
  shows "holds_positions p m m'"
  using assms by (simp add: holds_positions_def)

lemma run_trace_positions:
  fixes cps :: "('w, 'lu) cps_mna" and s :: "('lu mna, 'd, 'w, 'e) sim"
  assumes "run_trace (mna_lib cps rnd fmt vil toString) s ss s'" and "heap_ok mTime (mEvents s)"
    and "mInterfaces s = []" and "\<forall>ev \<in> set (mEvents s). is_switch_event ev"
    and "switch_laws cps" and "length (mSwitches (mSolver s)) \<le> SWITCH_NUM"
  shows "\<exists>ess. at_first_step (map sim_mTime ss) ess \<and> sorted (map mTime (concat ess))
     \<and> mset (mEvents s) = mset (concat ess) + mset (mEvents s')
     \<and> (\<forall>ev \<in> set (mEvents s'). \<forall>x \<in> set ss. sim_mTime x < mTime ev)
     \<and> (\<forall>k < length ss. holds_positions
          (\<lambda>c. switch_after c (concat (take (Suc k) ess)) (mnaIsClosed cps c (sim_world s)))
          (mSolver s) (mSolver ((ss @ [s']) ! Suc k)))"
  using assms(1-4,6)
proof (induction rule: run_trace.induct)
  case (final s)
  then show ?case by (intro exI[of _ "[]"]) (simp add: at_first_step_def)
next
  case (step s s1 ss s')
  obtain es where es: "evl.handled (sim_mTime s) (mEvents s) es (mEvents s1)" "\<forall>ev \<in> set (mEvents s1). sim_mTime s < mTime ev"
    and sv: "mSwitches (mSolver s1) = mSwitches (mSolver s)"
      "\<And>c. mnaIsClosed cps c (sim_world s1) \<longleftrightarrow> switch_after c es (mnaIsClosed cps c (sim_world s))"
      "\<forall>i < length (mSwitches (mSolver s)). bit (mCurrentSwitchStatus (mSolver s1)) i \<longleftrightarrow>
          switch_after (mSwitches (mSolver s) ! i) es (mnaIsClosed cps (mSwitches (mSolver s) ! i) (sim_world s))"
      "\<forall>k f. mLuFactorizations (mSolver s) k = Some f \<longrightarrow> mLuFactorizations (mSolver s1) k = Some f"
    using switch_step[OF step.hyps(2) step.prems(1-3) assms(5) step.prems(4)] by blast
  have h: "mset (mEvents s) = mset es + mset (mEvents s1)" "sorted (map mTime es)"
    "\<forall>ev \<in> set es. mTime ev \<le> sim_mTime s" "heap_ok mTime (mEvents s1)"
    using es(1) by (simp_all add: evl.handled_def)
  have sw: "\<forall>ev \<in> set (mEvents s1). is_switch_event ev"
    using step.prems(3) h(1) by (metis set_mset_mset union_iff)
  obtain ess where ess: "at_first_step (map sim_mTime ss) ess" "sorted (map mTime (concat ess))"
     "mset (mEvents s1) = mset (concat ess) + mset (mEvents s')"
     "\<forall>ev \<in> set (mEvents s'). \<forall>x \<in> set ss. sim_mTime x < mTime ev"
     "\<forall>k < length ss. holds_positions
          (\<lambda>c. switch_after c (concat (take (Suc k) ess)) (mnaIsClosed cps c (sim_world s1)))
          (mSolver s1) (mSolver ((ss @ [s']) ! Suc k))"
    using step.IH[OF h(4) _ sw] step.prems Simulation_step_config[OF step.hyps(2)] by (auto simp: sv(1))
  have later: "\<forall>ev \<in> set (concat ess) \<union> set (mEvents s'). sim_mTime s < mTime ev"
    using es(2) ess(3) by (metis set_mset_mset set_mset_union)
  have "(ss @ [s']) ! 0 = s1" using step.hyps(3) by (cases rule: run_trace.cases) auto
  then have "holds_positions (\<lambda>c. switch_after c (concat (take (Suc k) (es # ess))) (mnaIsClosed cps c (sim_world s)))
      (mSolver s) (mSolver (((s # ss) @ [s']) ! Suc k))" if "k < length (s # ss)" for k
    using that sv ess(5) by (cases k) (auto simp: holds_positions_def)
  moreover have "at_first_step (map sim_mTime (s # ss)) (es # ess)"
    using h(3) ess(1) later by (simp add: at_first_step_Cons)
  moreover have "mTime x \<le> mTime y" if "x \<in> set es" "y \<in> set (concat ess)" for x y
    using bspec[OF h(3) that(1)] bspec[OF later, of y] that(2) by (auto simp del: set_concat)
  then have "sorted (map mTime (concat (es # ess)))"
    using h(2) ess(2) by (auto simp: sorted_append simp del: set_concat)
  moreover have "mset (mEvents s) = mset (concat (es # ess)) + mset (mEvents s')" using h(1) ess(3) by simp
  moreover have "\<forall>ev \<in> set (mEvents s'). \<forall>x \<in> set (s # ss). sim_mTime x < mTime ev" using ess(4) later by simp
  ultimately show ?case by blast
qed

text \<open>Without interfaces \<open>run\<close> enters its loop in the state it was called in.\<close>

lemma run_without_interfaces:
  assumes "Simulation_run L s = Some (Ok s')" and "mInterfaces s = []"
  obtains ss s2 where "run_trace L s ss s2" "s' = flush_all (close_all L s2)"
proof -
  have "then_run (open_all L s) (sync L) = Some (Ok s)"
    using assms(2) by (simp add: open_all_def sync_def then_run_def)
  with assms(1) show thesis
    by (auto simp: Simulation_run_def then_run_Some_Ok elim!: run_loop_trace intro: that)
qed

end
