(* ===== verification/Coupling.thy ===== *)
theory Coupling
  imports Runs
begin

text \<open>
  Two simulations that exchange samples over shared memory, as the example programs
  \<open>Examples/Cxx/Shmem/ShmemDistributed*.cpp\<close> start them: each is a process that runs
  \<open>Simulation::run\<close>, and the queues of VILLAS are between them. The processes interleave; an action of
  a process is the part of \<open>run\<close> between two points at which it can wait for the other one.
\<close>

section \<open>The queues between the processes\<close>

text \<open>The documented behaviour of one end of the shared memory interface: \<open>out\<close> and \<open>inn\<close> are the
  contents of the two queues. There is room for at least \<open>room\<close> values in a sample and a free sample and
  a free place in the queue at any time; reading an empty queue gives 0.\<close>

definition endpoint :: "nat \<Rightarrow> ('d, 'e) villas \<Rightarrow> ('e \<Rightarrow> 'd sample list) \<Rightarrow> ('e \<Rightarrow> 'd sample list) \<Rightarrow> bool" where
  "endpoint room v out inn \<longleftrightarrow>
     (\<forall>e ret smp e'. shmem_int_alloc v e = (ret, smp, e') \<longrightarrow>
        1 \<le> ret \<and> sample_ok smp \<and> int room \<le> capacity smp \<and> out e' = out e \<and> inn e' = inn e)
   \<and> (\<forall>smp e ret e'. shmem_int_write v smp e = (ret, e') \<longrightarrow> 1 \<le> ret \<and> out e' = out e @ [smp] \<and> inn e' = inn e)
   \<and> (\<forall>x e ret smp e'. shmem_int_read v (x, e) = (ret, smp, e') \<longrightarrow> out e' = out e
        \<and> (case inn e of [] \<Rightarrow> ret = 0 \<and> inn e' = [] | s # q \<Rightarrow> 1 \<le> ret \<and> smp = s \<and> inn e' = q))
   \<and> (\<forall>smp e. out (sample_decref v smp e) = out e \<and> inn (sample_decref v smp e) = inn e)"

lemma endpoint_alloc:
  "endpoint room v out inn \<Longrightarrow> shmem_int_alloc v e = (ret, smp, e') \<Longrightarrow>
   1 \<le> ret \<and> sample_ok smp \<and> int room \<le> capacity smp \<and> out e' = out e \<and> inn e' = inn e"
  unfolding endpoint_def by blast

lemma endpoint_write:
  "endpoint room v out inn \<Longrightarrow> shmem_int_write v smp e = (ret, e') \<Longrightarrow> 1 \<le> ret \<and> out e' = out e @ [smp] \<and> inn e' = inn e"
  unfolding endpoint_def by blast

lemma endpoint_read:
  "endpoint room v out inn \<Longrightarrow> shmem_int_read v (x, e) = (ret, smp, e') \<Longrightarrow> out e' = out e
     \<and> (case inn e of [] \<Rightarrow> ret = 0 \<and> inn e' = [] | s # q \<Rightarrow> 1 \<le> ret \<and> smp = s \<and> inn e' = q)"
  unfolding endpoint_def by blast

lemma endpoint_decref:
  "endpoint room v out inn \<Longrightarrow> out (sample_decref v smp e) = out e \<and> inn (sample_decref v smp e) = inn e"
  unfolding endpoint_def by blast

text \<open>An interface whose exports are the values \<open>slots\<close> of the world in the slots 0, 1, ..., and whose
  imports \<open>puts\<close> store the given slots.\<close>

definition wired :: "('w \<Rightarrow> 'd) list \<Rightarrow> (('d \<Rightarrow> 'w \<Rightarrow> 'w outcome) \<times> nat) list \<Rightarrow> ('d, 'w) interface \<Rightarrow> bool" where
  "wired slots puts i \<longleftrightarrow> mExports i = map (\<lambda>(k, slot). export_at slot (int k)) (enumerate 0 slots)
     \<and> mImports i = map (\<lambda>(put, k). import_at put (int k)) puts"

text \<open>A sample that carries the values of the world \<open>w\<close>, and what storing them makes of a world.\<close>

definition carries :: "('w \<Rightarrow> 'd) list \<Rightarrow> 'w \<Rightarrow> 'd sample \<Rightarrow> bool" where
  "carries slots w smp \<longleftrightarrow> sample_ok smp \<and> int (length slots) \<le> s_length smp
     \<and> (\<forall>k < length slots. s_data smp ! k = (slots ! k) w)"

definition receive :: "('v \<Rightarrow> 'd) list \<Rightarrow> 'v \<Rightarrow> (('d \<Rightarrow> 'w \<Rightarrow> 'w outcome) \<times> nat) list \<Rightarrow> 'w \<Rightarrow> 'w outcome" where
  "receive slots v puts = for_each (\<lambda>(put, k). put ((slots ! k) v)) puts"

lemma exports_carry:
  assumes "sample_ok smp" and "int (n + length slots) \<le> capacity smp" and "int n \<le> s_length smp"
  shows "\<exists>smp'. for_each (\<lambda>ex. ex w) (map (\<lambda>(k, slot). export_at slot (int k)) (enumerate n slots)) smp = Ok smp'
     \<and> sample_ok smp' \<and> int (n + length slots) \<le> s_length smp'
     \<and> (\<forall>k < n. s_data smp' ! k = s_data smp ! k) \<and> (\<forall>k < length slots. s_data smp' ! (n + k) = (slots ! k) w)"
  using assms
proof (induction slots arbitrary: n smp)
  case (Cons slot slots)
  define smp1 where "smp1 = smp\<lparr>s_length := max (s_length smp) (int n + 1), s_data := (s_data smp)[n := slot w]\<rparr>"
  have step: "export_at slot (int n) w smp = Ok smp1"
    using Cons.prems by (simp add: export_at_Ok smp1_def)
  have ok: "sample_ok smp1" "int (Suc n + length slots) \<le> capacity smp1" "int (Suc n) \<le> s_length smp1"
    using Cons.prems by (auto simp: smp1_def sample_ok_def)
  obtain smp' where smp': "for_each (\<lambda>ex. ex w) (map (\<lambda>(k, slot). export_at slot (int k)) (enumerate (Suc n) slots)) smp1 = Ok smp'"
     "sample_ok smp'" "int (Suc n + length slots) \<le> s_length smp'"
     "\<forall>k < Suc n. s_data smp' ! k = s_data smp1 ! k" "\<forall>k < length slots. s_data smp' ! (Suc n + k) = (slots ! k) w"
    using Cons.IH[OF ok] by auto
  have "n < length (s_data smp)" using Cons.prems by (simp add: sample_ok_def)
  then have "s_data smp' ! n = slot w" "\<forall>k < n. s_data smp' ! k = s_data smp ! k"
    using smp'(4) by (simp_all add: smp1_def)
  moreover have "s_data smp' ! (n + k) = ((slot # slots) ! k) w" if "k < length (slot # slots)" for k
    using that smp'(5) calculation(1) by (cases k) auto
  ultimately show ?case using step smp'(1-3) by (intro exI[of _ smp']) simp
qed simp

lemma write_sends:
  assumes "endpoint room v out inn" and "wired slots puts i" and "length slots \<le> room" and "mSequence i < 2147483647"
  shows "\<exists>i' e' smp. writeValues cps v w (i, e) = Some (Ok (i', e')) \<and> wired slots puts i'
     \<and> out e' = out e @ [smp] \<and> inn e' = inn e \<and> carries slots w smp"
proof -
  obtain ret smp0 e1 where al: "shmem_int_alloc v e = (ret, smp0, e1)" by (rule prod_cases3)
  then have al': "1 \<le> ret" "sample_ok smp0" "int room \<le> capacity smp0" "out e1 = out e" "inn e1 = inn e"
    using endpoint_alloc[OF assms(1)] by blast+
  obtain smp1 where smp1: "for_each (\<lambda>ex. ex w) (mExports i) smp0 = Ok smp1" "carries slots w smp1"
    using exports_carry[OF al'(2), of 0 slots w] al'(2,3) assms(2,3) by (auto simp: wired_def carries_def sample_ok_def)
  define smp where "smp = smp1\<lparr>sequence := mSequence i, ts_origin := clock_realtime v e1\<rparr>"
  obtain ret2 e2 where wr: "shmem_int_write v smp e1 = (ret2, e2)" by fastforce
  then have wr': "1 \<le> ret2" "out e2 = out e1 @ [smp]" "inn e2 = inn e1"
    using endpoint_write[OF assms(1)] by blast+
  have "retry (shmem_int_write v smp) e1 = Some (ret2, e2)"
    using wr wr'(1) by (subst retry.simps) simp
  moreover have "carries slots w smp" using smp1(2) by (simp add: smp_def carries_def sample_ok_def)
  ultimately show ?thesis
    using al al' smp1(1) wr' assms(2,4)
    by (simp add: writeValues_def int32_inc_def Let_def smp_def[symmetric]) (simp add: wired_def)
qed

lemma imports_receive:
  assumes "carries slots u smp" and "\<forall>(put, k) \<in> set puts. k < length slots"
  shows "for_each (\<lambda>imp. imp smp) (map (\<lambda>(put, k). import_at put (int k)) puts) w = receive slots u puts w"
  using assms(2)
proof (induction puts arbitrary: w)
  case (Cons p puts)
  obtain put k where p: "p = (put, k)" by (cases p)
  have "k < length slots" using Cons.prems p by simp
  then have "import_at put (int k) smp w = put ((slots ! k) u) w"
    using assms(1) by (auto simp: import_at_def carries_def sample_ok_def)
  moreover have "for_each (\<lambda>imp. imp smp) (map (\<lambda>(put, k). import_at put (int k)) puts) = receive slots u puts"
    using Cons by (intro ext) simp
  ultimately show ?case by (simp add: p receive_def)
qed (simp add: receive_def)

lemma read_receives:
  assumes "endpoint room v out inn" and "wired slots puts i" and "inn e = smp # q"
    and "carries slots' u smp" and "\<forall>(put, k) \<in> set puts. k < length slots'" and "receive slots' u puts w = Ok w'"
  shows "\<exists>e'. readValues cps v i True (e, w) = Some (Ok (e', w')) \<and> inn e' = q \<and> out e' = out e"
proof -
  obtain ret smp' e1 where rd: "shmem_int_read v (null_sample v, e) = (ret, smp', e1)" by (rule prod_cases3)
  then have rd': "1 \<le> ret" "smp' = smp" "inn e1 = q" "out e1 = out e"
    using endpoint_read[OF assms(1) rd] assms(3) by simp_all
  have "retry (shmem_int_read v) (null_sample v, e) = Some (ret, smp, e1)"
    using rd rd'(1,2) by (subst retry.simps) simp
  moreover have "for_each (\<lambda>imp. imp smp) (mImports i) w = Ok w'"
    using imports_receive[OF assms(4,5)] assms(2,6) by (simp add: wired_def)
  ultimately show ?thesis
    using rd' endpoint_decref[OF assms(1)] by (simp add: readValues_def run_imports_def)
qed

lemma read_blocks:
  assumes "endpoint room v out inn" and "inn e = []"
  shows "readValues cps v i True (e, w) = None"
proof -
  have step: "fst (shmem_int_read v s) = 0 \<and> inn (snd (retried (shmem_int_read v) s)) = []" if "inn (snd s) = []" for s
    using that endpoint_read[OF assms(1)] by (cases s; cases "shmem_int_read v s") (fastforce simp: retried_def)
  have "inn (snd ((retried (shmem_int_read v) ^^ n) s)) = []" if "inn (snd s) = []" for n s
    using that by (induction n) (simp_all add: step)
  then have "fst (shmem_int_read v ((retried (shmem_int_read v) ^^ n) (null_sample v, e))) = 0" for n
    using step assms(2) by (metis snd_conv)
  then have "retry (shmem_int_read v) (null_sample v, e) = None" using retry_returns_iff by metis
  then show ?thesis by (simp add: readValues_def)
qed

section \<open>A run as a sequence of actions\<close>

text \<open>Where \<open>run\<close> is: before \<open>sync\<close>, between its two loops, before the reads of a step, after them, at the
  end. \<open>Aborted\<close>: an exception has left \<open>run\<close>.\<close>

datatype phase = Starting | SyncReading | Reading | Computing | Finished | Aborted

text \<open>The part of a step after the reads.\<close>

definition step_rest ::
    "('s, 'd, 'w, 'e) sim_lib \<Rightarrow> ('s, 'd, 'w, 'e) sim \<Rightarrow> ('s, 'd, 'w, 'e) sim outcome option" where
  "step_rest L s = then_run (step_events L s) (\<lambda>s.
     let (nextTime, s) = step_solver L s
     in then_run (then_run (step_writes L s) (step_logs L)) (step_advance nextTime))"

definition loop_phase :: "('s, 'd, 'w, 'e) sim \<Rightarrow> phase" where
  "loop_phase s = (if sim_mTime s < mFinalTime s then Reading else Finished)"

fun action ::
    "('s, 'd, 'w, 'e) sim_lib \<Rightarrow> phase \<Rightarrow> ('s, 'd, 'w, 'e) sim \<Rightarrow> (phase \<times> ('s, 'd, 'w, 'e) sim) outcome option" where
  "action L Starting s = through (Pair SyncReading)
     (for_each_run (\<lambda>ifm. write_interface L (ifm_interface ifm)) (mInterfaces s) s)"
| "action L SyncReading s = through (\<lambda>s. (loop_phase s, s))
     (for_each_run (\<lambda>ifm. read_interface L (ifm_interface ifm) (ifm_syncStart ifm)) (mInterfaces s) s)"
| "action L Reading s = through (Pair Computing) (step_reads L s)"
| "action L Computing s = through (\<lambda>s. (loop_phase s, s)) (step_rest L s)"
| "action L Finished s = None"
| "action L Aborted s = None"

text \<open>A process that is left alone makes its actions one after the other; this is \<open>run\<close> after \<open>open\<close>.\<close>

inductive alone ::
    "('s, 'd, 'w, 'e) sim_lib \<Rightarrow> phase \<times> ('s, 'd, 'w, 'e) sim \<Rightarrow> phase \<times> ('s, 'd, 'w, 'e) sim \<Rightarrow> bool"
  for L where
  "action L ph s = Some (Ok x) \<Longrightarrow> alone L (ph, s) x"

inductive_simps alone_simps: "alone L (ph, s) x"

lemma then_run_assoc: "then_run (then_run r f) g = then_run r (\<lambda>s. then_run (f s) g)"
  by (simp add: then_run_def split: option.split outcome.split)

lemma Simulation_step_split: "Simulation_step L s = then_run (step_reads L s) (step_rest L)"
  unfolding Simulation_step_def step_rest_def by (simp add: then_run_assoc)

lemma map_outcome_Ok [simp]: "map_outcome g r = Ok y \<longleftrightarrow> (\<exists>x. r = Ok x \<and> y = g x)"
  by (cases r) auto

lemma alone_loop: "run_trace L s ss s' \<Longrightarrow> (alone L)\<^sup>*\<^sup>* (loop_phase s, s) (Finished, s')"
proof (induction rule: run_trace.induct)
  case (step s s1 ss s')
  obtain t where t: "step_reads L s = Some (Ok t)" "step_rest L t = Some (Ok s1)"
    using step.hyps(2) by (auto simp: Simulation_step_split then_run_Some_Ok)
  have "alone L (Reading, s) (Computing, t)" "alone L (Computing, t) (loop_phase s1, s1)"
    using t by (simp_all add: alone_simps)
  then show ?case using step.IH step.hyps(1) by (simp add: loop_phase_def converse_rtranclp_into_rtranclp)
qed (simp add: loop_phase_def)

lemma alone_run_loop:
  assumes "(alone L)\<^sup>*\<^sup>* x (Finished, s')"
  shows "case x of (ph, s) \<Rightarrow> (case ph of
      Starting \<Rightarrow> then_run (sync L s) (run_loop L) = Some (Ok s')
    | SyncReading \<Rightarrow> then_run (for_each_run (\<lambda>ifm. read_interface L (ifm_interface ifm) (ifm_syncStart ifm)) (mInterfaces s) s)
        (run_loop L) = Some (Ok s')
    | Reading \<Rightarrow> then_run (Simulation_step L s) (run_loop L) = Some (Ok s')
    | Computing \<Rightarrow> then_run (step_rest L s) (run_loop L) = Some (Ok s')
    | Finished \<Rightarrow> s = s'
    | Aborted \<Rightarrow> False)"
  using assms
proof (induction rule: converse_rtranclp_induct)
  case (step x y)
  have loop: "run_loop L s = Some (Ok s')"
    if "case loop_phase s of Reading \<Rightarrow> then_run (Simulation_step L s) (run_loop L) = Some (Ok s') | _ \<Rightarrow> s = s'" for s
    using that by (auto simp: run_loop_unfold[of L s] loop_phase_def split: if_splits)
  obtain ph s where x: "x = (ph, s)" by (cases x)
  have act: "action L ph s = Some (Ok y)" using step.hyps(1) by (simp add: x alone_simps)
  show ?case
  proof (cases ph)
    case Starting
    then show ?thesis using act step.IH by (auto simp: x sync_def then_run_assoc then_run_Some_Ok)
  next
    case SyncReading
    then show ?thesis using act step.IH loop
      by (auto simp: x then_run_Some_Ok loop_phase_def split: if_splits)
  next
    case Reading
    then show ?thesis using act step.IH by (auto simp: x Simulation_step_split then_run_assoc then_run_Some_Ok)
  next
    case Computing
    then show ?thesis using act step.IH loop
      by (auto simp: x then_run_Some_Ok loop_phase_def split: if_splits)
  qed (use act in simp_all)
qed simp

theorem run_is_actions:
  "(alone L)\<^sup>*\<^sup>* (Starting, s) (Finished, s') \<longleftrightarrow> then_run (sync L s) (run_loop L) = Some (Ok s')"
proof
  assume "(alone L)\<^sup>*\<^sup>* (Starting, s) (Finished, s')"
  from alone_run_loop[OF this] show "then_run (sync L s) (run_loop L) = Some (Ok s')" by simp
next
  assume "then_run (sync L s) (run_loop L) = Some (Ok s')"
  then obtain t u where
    "for_each_run (\<lambda>ifm. write_interface L (ifm_interface ifm)) (mInterfaces s) s = Some (Ok t)"
    "for_each_run (\<lambda>ifm. read_interface L (ifm_interface ifm) (ifm_syncStart ifm)) (mInterfaces t) t = Some (Ok u)"
    "run_loop L u = Some (Ok s')"
    by (auto simp: sync_def then_run_Some_Ok)
  moreover from this obtain ss where "run_trace L u ss s'" by (rule_tac run_loop_trace)
  ultimately have "alone L (Starting, s) (SyncReading, t)" "alone L (SyncReading, t) (loop_phase u, u)"
    "(alone L)\<^sup>*\<^sup>* (loop_phase u, u) (Finished, s')"
    by (simp_all add: alone_simps alone_loop)
  then show "(alone L)\<^sup>*\<^sup>* (Starting, s) (Finished, s')" by (meson converse_rtranclp_into_rtranclp)
qed

section \<open>Two processes\<close>

text \<open>The state of both processes and the environment they share; what a process holds as its environment
  is only used while it acts.\<close>

type_synonym ('s, 't, 'd, 'v, 'w, 'e) pair_state =
  "phase \<times> ('s, 'd, 'v, 'e) sim \<times> phase \<times> ('t, 'd, 'w, 'e) sim \<times> 'e"

inductive coupled ::
    "('s, 'd, 'v, 'e) sim_lib \<Rightarrow> ('t, 'd, 'w, 'e) sim_lib \<Rightarrow> ('s, 't, 'd, 'v, 'w, 'e) pair_state \<Rightarrow>
     ('s, 't, 'd, 'v, 'w, 'e) pair_state \<Rightarrow> bool"
  for K L where
  left: "action K p (a\<lparr>sim_env := e\<rparr>) = Some (Ok (p', a')) \<Longrightarrow> coupled K L (p, a, q, b, e) (p', a', q, b, sim_env a')"
| left_throws: "action K p (a\<lparr>sim_env := e\<rparr>) = Some (Throw x (p', a')) \<Longrightarrow>
    coupled K L (p, a, q, b, e) (Aborted, a', q, b, sim_env a')"
| right: "action L q (b\<lparr>sim_env := e\<rparr>) = Some (Ok (q', b')) \<Longrightarrow> coupled K L (p, a, q, b, e) (p, a, q', b', sim_env b')"
| right_throws: "action L q (b\<lparr>sim_env := e\<rparr>) = Some (Throw x (q', b')) \<Longrightarrow>
    coupled K L (p, a, q, b, e) (p, a, Aborted, b', sim_env b')"

inductive_cases coupledE: "coupled K L (p, a, q, b, e) st"

text \<open>A simulation as \<open>addInterface(&intf)\<close> leaves it: one interface, synchronous at the start and in
  every step.\<close>

definition synchronous :: "nat \<Rightarrow> ('s, 'd, 'w, 'e) sim \<Rightarrow> bool" where
  "synchronous p s \<longleftrightarrow> mInterfaces s =
     [\<lparr>ifm_interface = p, ifm_sync = True, ifm_syncStart = True, ifm_downsampling = 1\<rparr>]"

lemma addInterface_synchronous:
  "mInterfaces s = [] \<Longrightarrow> synchronous p (addInterface_sync p True s)"
  by (simp add: synchronous_def addInterface_sync_def addInterface_def)

lemma process_writes:
  assumes "endpoint room (sl_villas L p) out inn" and "synchronous p s" and "wired slots puts (interface_at s p)"
    and "length slots \<le> room" and "mSequence (interface_at s p) < 2147483647"
  shows "\<exists>ifs e' smp. action L Starting (s\<lparr>sim_env := e\<rparr>) = Some (Ok (SyncReading, s\<lparr>interface_at := ifs, sim_env := e'\<rparr>))
     \<and> wired slots puts (ifs p) \<and> out e' = out e @ [smp] \<and> inn e' = inn e \<and> carries slots (sim_world s) smp"
proof -
  obtain i' e' smp where "writeValues (sl_cps L) (sl_villas L p) (sim_world s) (interface_at s p, e) = Some (Ok (i', e'))"
    "wired slots puts i'" "out e' = out e @ [smp]" "inn e' = inn e" "carries slots (sim_world s) smp"
    using write_sends[OF assms(1,3,4,5)] by blast
  then show ?thesis using assms(2)
    by (intro exI[of _ "(interface_at s)(p := i')"] exI[of _ e'] exI[of _ smp])
       (simp add: synchronous_def write_interface_def put_interface_def)
qed

lemma process_reads:
  assumes "endpoint room (sl_villas L p) out inn" and "synchronous p s" and "wired slots puts (interface_at s p)"
    and "inn e = smp # q" and "carries slots' u smp" and "\<forall>(put, k) \<in> set puts. k < length slots'"
    and "receive slots' u puts (sim_world s) = Ok w'" and "sim_mTime s < mFinalTime s"
  shows "\<exists>e'. action L SyncReading (s\<lparr>sim_env := e\<rparr>) = Some (Ok (Reading, s\<lparr>sim_env := e', sim_world := w'\<rparr>))
     \<and> inn e' = q \<and> out e' = out e"
proof -
  obtain e' where "readValues (sl_cps L) (sl_villas L p) (interface_at s p) True (e, sim_world s) = Some (Ok (e', w'))"
    "inn e' = q" "out e' = out e"
    using read_receives[OF assms(1,3,4,5,6,7)] by blast
  then show ?thesis using assms(2,8)
    by (intro exI[of _ e']) (simp add: synchronous_def read_interface_def loop_phase_def)
qed

lemma process_blocks:
  assumes "endpoint room (sl_villas L p) out inn" and "synchronous p s" and "inn e = []" and "ph = SyncReading \<or> ph = Reading"
  shows "action L ph (s\<lparr>sim_env := e\<rparr>) = None"
  using read_blocks[OF assms(1,3), of "sl_cps L" "interface_at s p" "sim_world s"] assms(2,4)
  by (auto simp: synchronous_def read_interface_def step_reads_def when_due_def due_def)

section \<open>Two synchronous processes wait for each other\<close>

text \<open>How far one of the two processes can get: it holds the state \<open>s0\<close> it started with, and after the
  synchronisation the world \<open>v\<close>.\<close>

definition got_to ::
    "nat \<Rightarrow> ('w \<Rightarrow> 'd) list \<Rightarrow> (('d \<Rightarrow> 'w \<Rightarrow> 'w outcome) \<times> nat) list \<Rightarrow> ('s, 'd, 'w, 'e) sim \<Rightarrow> 'w \<Rightarrow> phase \<Rightarrow>
     ('s, 'd, 'w, 'e) sim \<Rightarrow> bool" where
  "got_to p slots puts s0 v ph s \<longleftrightarrow> ph \<in> {Starting, SyncReading, Reading} \<and> wired slots puts (interface_at s p)
     \<and> (ph = Starting \<longrightarrow> interface_at s = interface_at s0)
     \<and> s0\<lparr>interface_at := interface_at s, sim_env := sim_env s, sim_world := (if ph = Reading then v else sim_world s0)\<rparr> = s"

text \<open>The queue from a process in phase \<open>ph\<close> to one in phase \<open>ph'\<close>: the first sample is in it until it is
  read.\<close>

definition in_flight :: "('w \<Rightarrow> 'd) list \<Rightarrow> 'w \<Rightarrow> phase \<Rightarrow> phase \<Rightarrow> 'd sample list \<Rightarrow> bool" where
  "in_flight slots w ph ph' q \<longleftrightarrow> (if ph = Starting \<or> ph' = Reading then q = [] else \<exists>smp. q = [smp] \<and> carries slots w smp)"

fun rank :: "phase \<Rightarrow> nat" where
  "rank Starting = 0" | "rank SyncReading = 1" | "rank _ = 2"

text \<open>What a process needs to take part, and what it knows about the other one.\<close>

definition partner ::
    "nat \<Rightarrow> ('s, 'd, 'w, 'e) sim_lib \<Rightarrow> nat \<Rightarrow> ('w \<Rightarrow> 'd) list \<Rightarrow> (('d \<Rightarrow> 'w \<Rightarrow> 'w outcome) \<times> nat) list \<Rightarrow>
     ('e \<Rightarrow> 'd sample list) \<Rightarrow> ('e \<Rightarrow> 'd sample list) \<Rightarrow> nat \<Rightarrow> ('s, 'd, 'w, 'e) sim \<Rightarrow> bool" where
  "partner room L p slots puts out inn n s0 \<longleftrightarrow> endpoint room (sl_villas L p) out inn \<and> synchronous p s0
     \<and> wired slots puts (interface_at s0 p) \<and> mSequence (interface_at s0 p) < 2147483647
     \<and> length slots \<le> room \<and> (\<forall>(put, k) \<in> set puts. k < n) \<and> sim_mTime s0 < mFinalTime s0"

lemma process_action:
  assumes "partner room L p slots puts out inn (length slots') s0" and "got_to p slots puts s0 v ph s"
    and "receive slots' u puts (sim_world s0) = Ok v"
    and "in_flight slots (sim_world s0) ph ph' (out e)" and "in_flight slots' u ph' ph (inn e)"
    and "action L ph (s\<lparr>sim_env := e\<rparr>) = Some r" and "ph' = Reading \<longrightarrow> ph \<noteq> Starting"
  shows "\<exists>ph1 s1. r = Ok (ph1, s1) \<and> got_to p slots puts s0 v ph1 s1
     \<and> in_flight slots (sim_world s0) ph1 ph' (out (sim_env s1)) \<and> in_flight slots' u ph' ph1 (inn (sim_env s1))
     \<and> rank ph1 = Suc (rank ph) \<and> (ph1 = Reading \<longrightarrow> ph' \<noteq> Starting)"
proof -
  note P = assms(1)[unfolded partner_def]
  obtain ifs e0 where s: "s = s0\<lparr>interface_at := ifs, sim_env := e0, sim_world := (if ph = Reading then v else sim_world s0)\<rparr>"
    and wired: "wired slots puts (interface_at s p)"
    using assms(2) unfolding got_to_def by metis
  have sync: "synchronous p s" "sim_mTime s < mFinalTime s" using P by (simp_all add: s synchronous_def)
  consider "ph = Starting" | "ph = SyncReading" | "ph = Reading" using assms(2) by (auto simp: got_to_def)
  then show ?thesis
  proof cases
    case 1
    then have "mSequence (interface_at s p) < 2147483647" using P assms(2) by (auto simp: got_to_def)
    moreover have "sim_world s = sim_world s0" using 1 by (simp add: s)
    ultimately have "mSequence (interface_at s p) < 2147483647" "sim_world s = sim_world s0" .
    with process_writes[of room L p out inn s slots puts e] P sync wired
    obtain ifs' e' smp where w: "action L Starting (s\<lparr>sim_env := e\<rparr>) = Some (Ok (SyncReading, s\<lparr>interface_at := ifs', sim_env := e'\<rparr>))"
      "wired slots puts (ifs' p)" "out e' = out e @ [smp]" "inn e' = inn e" "carries slots (sim_world s0) smp"
      by auto
    have "ph' \<noteq> Reading" using assms(7) 1 by blast
    then show ?thesis using 1 w assms(4-6)
      by (intro exI[of _ SyncReading] exI[of _ "s\<lparr>interface_at := ifs', sim_env := e'\<rparr>"])
         (simp add: got_to_def in_flight_def s)
  next
    case 2
    have "inn e \<noteq> []"
      using process_blocks[of room L p out inn s e ph] P sync assms(6) 2 by auto
    then obtain smp where q: "inn e = [smp]" "carries slots' u smp" "ph' \<noteq> Starting"
      using assms(5) 2 by (auto simp: in_flight_def split: if_splits)
    obtain e' where rd: "action L SyncReading (s\<lparr>sim_env := e\<rparr>) = Some (Ok (Reading, s\<lparr>sim_env := e', sim_world := v\<rparr>))"
      "inn e' = []" "out e' = out e"
      using process_reads[of room L p out inn s slots puts e smp "[]" slots' u v] P sync wired q assms(3) 2 by (auto simp: s)
    then show ?thesis using 2 assms(4,6) q(3) wired
      by (intro exI[of _ Reading] exI[of _ "s\<lparr>sim_env := e', sim_world := v\<rparr>"])
         (auto simp: got_to_def in_flight_def s)
  next
    case 3
    then have "inn e = []" using assms(5) by (simp add: in_flight_def)
    then show ?thesis using process_blocks[of room L p out inn s e ph] P sync assms(6) 3 by auto
  qed
qed

lemma process_waits:
  assumes "partner room L p slots puts out inn (length slots') s0" and "got_to p slots puts s0 v ph s"
    and "receive slots' u puts (sim_world s0) = Ok v" and "in_flight slots' u ph' ph (inn e)"
  shows "action L ph (s\<lparr>sim_env := e\<rparr>) = None \<longleftrightarrow> ph = Reading \<or> (ph = SyncReading \<and> ph' = Starting)"
proof -
  note P = assms(1)[unfolded partner_def]
  obtain ifs e0 where s: "s = s0\<lparr>interface_at := ifs, sim_env := e0, sim_world := (if ph = Reading then v else sim_world s0)\<rparr>"
    and wired: "wired slots puts (interface_at s p)"
    using assms(2) unfolding got_to_def by metis
  have sync: "synchronous p s" "sim_mTime s < mFinalTime s" using P by (simp_all add: s synchronous_def)
  consider "ph = Starting" | "ph = SyncReading" "inn e = []" "ph' = Starting" | "ph = Reading" "inn e = []"
    | smp where "ph = SyncReading" "inn e = [smp]" "carries slots' u smp" "ph' \<noteq> Starting"
    using assms(2,4) by (cases "ph' = Starting") (auto simp: got_to_def in_flight_def split: if_splits)
  then show ?thesis
  proof cases
    case 1
    then have "mSequence (interface_at s p) < 2147483647" using P assms(2) by (auto simp: got_to_def)
    then show ?thesis using process_writes[of room L p out inn s slots puts e] P sync wired 1 by auto
  next
    case 4
    then show ?thesis
      using process_reads[of room L p out inn s slots puts e smp "[]" slots' u v] P sync wired assms(3) by (auto simp: s)
  qed (use process_blocks[of room L p out inn s e ph] P sync in auto)
qed

text \<open>The invariant of the pair, symmetric in the two processes.\<close>

definition together where
  "together p slots puts a0 va q slots' puts' b0 vb ab ba st \<longleftrightarrow> (case st of (pa, a, pb, b, e) \<Rightarrow>
     got_to p slots puts a0 va pa a \<and> got_to q slots' puts' b0 vb pb b
     \<and> in_flight slots (sim_world a0) pa pb (ab e) \<and> in_flight slots' (sim_world b0) pb pa (ba e)
     \<and> (pa = Reading \<longrightarrow> pb \<noteq> Starting) \<and> (pb = Reading \<longrightarrow> pa \<noteq> Starting))"

definition progress :: "('s, 't, 'd, 'v, 'w, 'e) pair_state \<Rightarrow> nat" where
  "progress st = (case st of (pa, a, pb, b, e) \<Rightarrow> rank pa + rank pb)"

lemma coupled_together:
  assumes "partner room K p slots puts ab ba (length slots') a0" and "partner room' L q slots' puts' ba ab (length slots) b0"
    and "receive slots' (sim_world b0) puts (sim_world a0) = Ok va" and "receive slots (sim_world a0) puts' (sim_world b0) = Ok vb"
    and "together p slots puts a0 va q slots' puts' b0 vb ab ba st" and "coupled K L st st'"
  shows "together p slots puts a0 va q slots' puts' b0 vb ab ba st' \<and> progress st' = Suc (progress st)"
proof -
  obtain pa a pb b e where st: "st = (pa, a, pb, b, e)" by (cases st)
  have inv: "got_to p slots puts a0 va pa a" "got_to q slots' puts' b0 vb pb b"
    "in_flight slots (sim_world a0) pa pb (ab e)" "in_flight slots' (sim_world b0) pb pa (ba e)"
    "pa = Reading \<longrightarrow> pb \<noteq> Starting" "pb = Reading \<longrightarrow> pa \<noteq> Starting"
    using assms(5) by (simp_all add: together_def st)
  note A = process_action[OF assms(1) inv(1) assms(3) inv(3,4) _ inv(6)]
  note B = process_action[OF assms(2) inv(2) assms(4) inv(4,3) _ inv(5)]
  from assms(6)[unfolded st] show ?thesis
  proof (cases rule: coupledE[consumes 1, case_names left left_throws right right_throws])
    case (left p' a')
    with A[OF left(2)] inv show ?thesis by (auto simp: together_def progress_def st)
  next
    case (left_throws x p' a')
    with A[OF left_throws(2)] show ?thesis by auto
  next
    case (right q' b')
    with B[OF right(2)] inv show ?thesis by (auto simp: together_def progress_def st)
  next
    case (right_throws x q' b')
    with B[OF right_throws(2)] show ?thesis by auto
  qed
qed

lemma together_waits:
  assumes "partner room K p slots puts ab ba (length slots') a0" and "partner room' L q slots' puts' ba ab (length slots) b0"
    and "receive slots' (sim_world b0) puts (sim_world a0) = Ok va" and "receive slots (sim_world a0) puts' (sim_world b0) = Ok vb"
    and "together p slots puts a0 va q slots' puts' b0 vb ab ba (pa, a, pb, b, e)"
  shows "(\<nexists>st'. coupled K L (pa, a, pb, b, e) st') \<longleftrightarrow> pa = Reading \<and> pb = Reading"
proof -
  have inv: "got_to p slots puts a0 va pa a" "got_to q slots' puts' b0 vb pb b"
    "in_flight slots (sim_world a0) pa pb (ab e)" "in_flight slots' (sim_world b0) pb pa (ba e)"
    using assms(5) by (simp_all add: together_def)
  have "(\<nexists>st'. coupled K L (pa, a, pb, b, e) st') \<longleftrightarrow>
      action K pa (a\<lparr>sim_env := e\<rparr>) = None \<and> action L pb (b\<lparr>sim_env := e\<rparr>) = None"
  proof -
    have "\<exists>st'. coupled K L (pa, a, pb, b, e) st'" if "action K pa (a\<lparr>sim_env := e\<rparr>) = Some r" for r
      using that by (cases r; cases "final_state r"; simp; blast intro: coupled.intros)
    moreover have "\<exists>st'. coupled K L (pa, a, pb, b, e) st'" if "action L pb (b\<lparr>sim_env := e\<rparr>) = Some r" for r
      using that by (cases r; cases "final_state r"; simp; blast intro: coupled.intros)
    moreover have False if "coupled K L (pa, a, pb, b, e) st'" "action K pa (a\<lparr>sim_env := e\<rparr>) = None"
        "action L pb (b\<lparr>sim_env := e\<rparr>) = None" for st'
      using that by (auto elim: coupledE)
    ultimately show ?thesis by (metis not_None_eq)
  qed
  then show ?thesis
    using process_waits[OF assms(1) inv(1) assms(3) inv(4)] process_waits[OF assms(2) inv(2) assms(4) inv(3)] assms(5)
    by (auto simp: together_def)
qed

text \<open>C11: two simulations with synchronous interfaces, coupled with each other, never make a step. \<open>sync\<close>
  lets both send their initial values and then wait for and store those of the other one, in whatever
  order they act. But each step begins with another blocking read, and the first write in the loop comes
  after it: after exactly four actions both processes wait for a sample that nobody sends. No time step
  is made, and nothing can happen any more.\<close>

theorem synchronous_pair_deadlocks:
  fixes K :: "('s, 'd, 'v, 'e) sim_lib" and L :: "('t, 'd, 'w, 'e) sim_lib"
  assumes "partner room K p slots puts ab ba (length slots') a0" and "partner room' L q slots' puts' ba ab (length slots) b0"
    and "receive slots' (sim_world b0) puts (sim_world a0) = Ok va" and "receive slots (sim_world a0) puts' (sim_world b0) = Ok vb"
    and "ab e0 = []" and "ba e0 = []" and "(coupled K L ^^ n) (Starting, a0, Starting, b0, e0) (pa, a, pb, b, e)"
  shows "n \<le> 4 \<and> mTimeStepCount a = mTimeStepCount a0 \<and> mTimeStepCount b = mTimeStepCount b0
     \<and> ((\<nexists>st'. coupled K L (pa, a, pb, b, e) st') \<longleftrightarrow> n = 4)
     \<and> (n = 4 \<longrightarrow> pa = Reading \<and> pb = Reading \<and> sim_world a = va \<and> sim_world b = vb \<and> ab e = [] \<and> ba e = [])"
proof -
  let ?inv = "together p slots puts a0 va q slots' puts' b0 vb ab ba"
  have "?inv st \<and> progress st = n" if "(coupled K L ^^ n) (Starting, a0, Starting, b0, e0) st" for n st
    using that
  proof (induction n arbitrary: st)
    case 0
    then show ?case using assms(1,2,5,6)
      by (auto simp: together_def progress_def got_to_def in_flight_def partner_def)
  next
    case (Suc n)
    then obtain st1 where "(coupled K L ^^ n) (Starting, a0, Starting, b0, e0) st1" "coupled K L st1 st" by auto
    then show ?case using Suc.IH coupled_together[OF assms(1-4)] by metis
  qed
  from this[OF assms(7)] have inv: "?inv (pa, a, pb, b, e)" "rank pa + rank pb = n" by (simp_all add: progress_def)
  have ph: "pa \<in> {Starting, SyncReading, Reading}" "pb \<in> {Starting, SyncReading, Reading}"
    using inv(1) by (simp_all add: together_def got_to_def)
  have a: "a0\<lparr>interface_at := interface_at a, sim_env := sim_env a, sim_world := (if pa = Reading then va else sim_world a0)\<rparr> = a"
    and b: "b0\<lparr>interface_at := interface_at b, sim_env := sim_env b, sim_world := (if pb = Reading then vb else sim_world b0)\<rparr> = b"
    using inv(1) by (simp_all add: together_def got_to_def)
  have "mTimeStepCount a = mTimeStepCount a0" "mTimeStepCount b = mTimeStepCount b0"
    by (subst a[symmetric], simp) (subst b[symmetric], simp)
  moreover have four: "n = 4 \<longleftrightarrow> pa = Reading \<and> pb = Reading" "n \<le> 4" using ph inv(2) by auto
  moreover have "sim_world a = va \<and> sim_world b = vb" if "pa = Reading" "pb = Reading"
    by (subst a[symmetric], subst b[symmetric]) (simp add: that)
  moreover have "ab e = [] \<and> ba e = []" if "pa = Reading" "pb = Reading"
    using that inv(1) by (simp add: together_def in_flight_def)
  ultimately show ?thesis using together_waits[OF assms(1-4) inv(1)] by blast
qed

text \<open>The example: both sides export attribute 1 and import into attribute 2.\<close>

definition left_end :: "(val, val sample list \<times> val sample list) villas" where
  "left_end = demo_villas\<lparr>shmem_int_read := (\<lambda>(s, ab, ba). case ba of [] \<Rightarrow> (0, s, ab, ba) | x # q \<Rightarrow> (1, x, ab, q)),
     shmem_int_write := (\<lambda>s (ab, ba). (1, ab @ [s], ba)), queue_signalled_available := (\<lambda>(ab, ba). int (length ba))\<rparr>"

definition right_end :: "(val, val sample list \<times> val sample list) villas" where
  "right_end = demo_villas\<lparr>shmem_int_read := (\<lambda>(s, ab, ba). case ab of [] \<Rightarrow> (0, s, ab, ba) | x # q \<Rightarrow> (1, x, q, ba)),
     shmem_int_write := (\<lambda>s (ab, ba). (1, ab, ba @ [s])), queue_signalled_available := (\<lambda>(ab, ba). int (length ab))\<rparr>"

lemma demo_ends: "endpoint 4 left_end fst snd" "endpoint 4 right_end snd fst"
  by (auto simp: endpoint_def left_end_def right_end_def demo_villas_def demo_sample_def sample_ok_def split: list.splits)

definition demo_end_lib ::
    "(val, val sample list \<times> val sample list) villas \<Rightarrow> (unit, val, demo_world, val sample list \<times> val sample list) sim_lib" where
  "demo_end_lib v = \<lparr>sl_cps = demo_cps, sl_villas = (\<lambda>_. v), sl_step = (\<lambda>t (s, w). (t + 1, s, w)), sl_log = (\<lambda>_ s. s),
     sl_fmt = (\<lambda>_. ''t''), sl_toString = (\<lambda>_ _. ''v'')\<rparr>"

definition demo_end :: "real \<Rightarrow> (unit, val, demo_world, val sample list \<times> val sample list) sim" where
  "demo_end x = addInterface_sync 0 True (Simulation_new ''end'' 1 10 ()
     (\<lambda>_. addExport_Real demo_cps demo_slots 1 0 (addImport_Real demo_cps demo_slots 2 0 (Interface_new demo_villas ''/w'' ''/r'')))
     (\<lambda>_. DataLogger_new False False) (demo_start\<lparr>demo_attrs := (\<lambda>_. RealV x)\<rparr>) ([], []))"

definition demo_exports :: "(demo_world \<Rightarrow> val) list" where
  "demo_exports = [\<lambda>w. put_f demo_slots (val_real (attr_get demo_cps 1 w))]"

definition demo_imports :: "((val \<Rightarrow> demo_world \<Rightarrow> demo_world outcome) \<times> nat) list" where
  "demo_imports = [(\<lambda>d. attr_set demo_cps 2 (RealV (get_f demo_slots d)), 0)]"

lemma demo_partner:
  assumes "endpoint 4 v out inn"
  shows "partner 4 (demo_end_lib v) 0 demo_exports demo_imports out inn (length demo_exports) (demo_end x)"
  using assms
  by (simp add: partner_def demo_end_lib_def synchronous_def demo_end_def addInterface_sync_def addInterface_def
      Simulation_new_def wired_def addExport_Real_def addExport_def addImport_Real_def addImport_def Interface_new_def
      Interface_new_conf_def demo_exports_def demo_imports_def)

lemma demo_received:
  "receive demo_exports (sim_world (demo_end y)) demo_imports (sim_world (demo_end x)) =
     Ok (demo_start\<lparr>demo_attrs := (\<lambda>_. RealV x)(2 := RealV y)\<rparr>)"
  by (simp add: receive_def demo_exports_def demo_imports_def demo_end_def addInterface_sync_def addInterface_def
      Simulation_new_def demo_slots_def demo_cps_def demo_attr_set_def)

theorem synchronous_pair_deadlocks_witness:
  "\<exists>pa a pb b e. (coupled (demo_end_lib left_end) (demo_end_lib right_end) ^^ 4)
       (Starting, demo_end 3, Starting, demo_end 7, ([], [])) (pa, a, pb, b, e)
     \<and> (\<nexists>st'. coupled (demo_end_lib left_end) (demo_end_lib right_end) (pa, a, pb, b, e) st')
     \<and> demo_attrs (sim_world a) 2 = RealV 7 \<and> demo_attrs (sim_world b) 2 = RealV 3 \<and> mTimeStepCount a = 0"
proof -
  let ?step = "coupled (demo_end_lib left_end) (demo_end_lib right_end)"
  let ?init = "(Starting, demo_end 3, Starting, demo_end 7, ([], []) :: val sample list \<times> val sample list)"
  note dead = synchronous_pair_deadlocks[OF demo_partner[OF demo_ends(1)] demo_partner[OF demo_ends(2)] demo_received demo_received,
      of "([], [])"]
  have "\<exists>st. (?step ^^ n) ?init st" if "n \<le> 4" for n
    using that
  proof (induction n)
    case (Suc n)
    then obtain pa a pb b e where st: "(?step ^^ n) ?init (pa, a, pb, b, e)" by (metis Suc_leD prod_cases5)
    have "\<exists>st'. ?step (pa, a, pb, b, e) st'" using dead[OF _ _ st] Suc.prems by auto
    with st show ?case by (auto simp del: split_paired_Ex)
  qed simp
  then obtain pa a pb b e where st: "(?step ^^ 4) ?init (pa, a, pb, b, e)" by (metis order_refl prod_cases5)
  have "mTimeStepCount (demo_end 3) = 0" by (simp add: demo_end_def addInterface_sync_def addInterface_def Simulation_new_def)
  moreover from dead[OF _ _ st] have "(\<nexists>st'. ?step (pa, a, pb, b, e) st') \<and> mTimeStepCount a = mTimeStepCount (demo_end 3)
     \<and> demo_attrs (sim_world a) 2 = RealV 7 \<and> demo_attrs (sim_world b) 2 = RealV 3" by auto
  ultimately show ?thesis using st by metis
qed

end
