(* ===== verification/StepCount.thy ===== *)
theory StepCount
  imports Runs
begin

text \<open>
  How many steps a simulation makes with the rounding of \<open>double\<close>. The clock of
  \<open>Simulation::run\<close> (\<open>Source/Simulation.cpp\<close>) adds the time step once per step, so rounding errors
  add up; the time step and the final time are literals that are rounded as well. The number of
  steps is the quotient of the two, or one more.
\<close>

section \<open>Accurate rounding\<close>

text \<open>Documented behaviour of a floating point format: zero is exact, and in the normal range the
  relative error is at most \<open>u\<close> (\<open>2\<^sup>-\<^sup>5\<^sup>3\<close> for \<open>double\<close>, whose normal range is wider).\<close>

definition normal_range :: "real \<Rightarrow> bool" where
  "normal_range x \<longleftrightarrow> 1 / 10 ^ 307 \<le> x \<and> x \<le> 10 ^ 307"

definition accurate :: "real \<Rightarrow> (real \<Rightarrow> real) \<Rightarrow> bool" where
  "accurate u rnd \<longleftrightarrow> rnd 0 = 0 \<and> (\<forall>x. normal_range x \<longrightarrow> \<bar>rnd x - x\<bar> \<le> u * x)"

lemma accurateD:
  assumes "accurate u rnd" and "normal_range x"
  shows "x * (1 - u) \<le> rnd x" and "rnd x \<le> x * (1 + u)"
proof -
  have "\<bar>rnd x - x\<bar> \<le> u * x" using assms by (simp add: accurate_def)
  then show "x * (1 - u) \<le> rnd x" "rnd x \<le> x * (1 + u)" by (simp_all add: algebra_simps abs_le_iff)
qed

text \<open>How far \<open>n\<close> roundings can go.\<close>

lemma power_down:
  fixes u :: real
  assumes "0 \<le> u" and "u \<le> 1"
  shows "1 - real n * u \<le> (1 - u) ^ n"
  using Bernoulli_inequality[of "- u" n] assms by (simp add: algebra_simps)

lemma power_up_down:
  fixes u :: real
  assumes "0 \<le> u" and "u \<le> 1"
  shows "(1 + u) ^ n * (1 - u) ^ n \<le> 1"
proof -
  have "(1 + u) ^ n * (1 - u) ^ n = (1 - u * u) ^ n"
    by (simp add: power_mult_distrib[symmetric] algebra_simps)
  also have "\<dots> \<le> 1" using assms by (intro power_le_one) (simp_all add: mult_le_one)
  finally show ?thesis .
qed

lemma power_up:
  fixes u :: real
  assumes "0 \<le> u" and "u \<le> 1" and "real n * u \<le> 1 / 2"
  shows "(1 + u) ^ n \<le> 2"
proof -
  have "(1 + u) ^ n * (1 / 2) \<le> (1 + u) ^ n * (1 - u) ^ n"
    using power_down[OF assms(1,2), of n] assms by (intro mult_left_mono) auto
  then show ?thesis using power_up_down[OF assms(1,2), of n] by simp
qed

section \<open>The clock\<close>

lemma clock_Suc_last: "clock rnd d t (Suc n) = fp_add rnd (clock rnd d t n) d"
  by (simp add: clock_def)

lemma clock_bounds:
  assumes acc: "accurate u rnd" and u: "0 \<le> u" "u \<le> 1" "real n * u \<le> 1 / 2"
    and d: "1 / 10 ^ 307 \<le> d" "real n * d \<le> 10 ^ 306"
  shows "real n * d * (1 - u) ^ n \<le> clock rnd d 0 n \<and> clock rnd d 0 n \<le> real n * d * (1 + u) ^ n"
  using u(3) d(2)
proof (induction n)
  case (Suc n)
  have pos: "0 < d" using d(1) by (rule less_le_trans[rotated]) simp
  have small: "real n * u \<le> 1 / 2" "real n * d \<le> 10 ^ 306"
    using Suc.prems u(1) pos by (auto simp: distrib_right)
  let ?c = "clock rnd d 0 n"
  have lo: "real n * d * (1 - u) ^ n \<le> ?c" and hi: "?c \<le> real n * d * (1 + u) ^ n"
    using Suc.IH[OF small] by auto
  have "0 \<le> real n * d * (1 - u) ^ n" using pos u(2) by simp
  then have c0: "0 \<le> ?c" using lo by linarith
  have "real n * d * (1 + u) ^ n \<le> real n * d * 2"
    using power_up[OF u(1,2) small(1)] pos by (intro mult_left_mono) auto
  moreover have "d \<le> real (Suc n) * d" using pos by simp
  ultimately have "?c + d \<le> 10 ^ 306 * 3" using hi Suc.prems(2) small(2) by linarith
  also have "(10::real) ^ 306 * 3 \<le> 10 ^ 307" by simp
  finally have range: "normal_range (?c + d)" using c0 d(1) by (simp add: normal_range_def)
  have "real (Suc n) * d * (1 - u) ^ Suc n = (real n * d * (1 - u) ^ n + d * (1 - u) ^ n) * (1 - u)"
    by (simp add: algebra_simps)
  also have "\<dots> \<le> (?c + d) * (1 - u)"
    using lo u pos by (intro mult_right_mono add_mono) (auto intro: power_le_one simp: mult_left_le)
  also have "\<dots> \<le> clock rnd d 0 (Suc n)"
    using accurateD(1)[OF acc range] by (simp add: clock_Suc_last fp_add_def)
  finally have "real (Suc n) * d * (1 - u) ^ Suc n \<le> clock rnd d 0 (Suc n)" .
  moreover have "clock rnd d 0 (Suc n) \<le> (?c + d) * (1 + u)"
    using accurateD(2)[OF acc range] by (simp add: clock_Suc_last fp_add_def)
  moreover have "(?c + d) * (1 + u) \<le> (real n * d * (1 + u) ^ n + d * (1 + u) ^ n) * (1 + u)"
    using hi u pos by (intro mult_right_mono add_mono) auto
  moreover have "(real n * d * (1 + u) ^ n + d * (1 + u) ^ n) * (1 + u) = real (Suc n) * d * (1 + u) ^ Suc n"
    by (simp add: algebra_simps)
  ultimately show ?case by linarith
qed simp

lemma clock_reaches:
  fixes N :: nat and u dt :: real
  assumes acc: "accurate u rnd" and u: "0 \<le> u" "(real N + 3)\<^sup>2 * u \<le> 1"
    and dt: "1 / 10 ^ 300 \<le> dt" "(real N + 2) * dt \<le> 10 ^ 300"
  shows "k < N \<Longrightarrow> clock rnd (rnd dt) 0 k < rnd (real N * dt)"
    and "rnd (real N * dt) \<le> clock rnd (rnd dt) 0 (N + 1)"
proof -
  have quad: "(real N + 3)\<^sup>2 * u = real N * real N * u + 6 * (real N * u) + 9 * u"
    by (simp add: power2_eq_square algebra_simps)
  have pos: "0 < dt" using dt(1) by (rule less_le_trans[rotated]) simp
  have nn: "0 \<le> real N * real N * u" "0 \<le> real N * u" using u(1) by simp_all
  have u1: "u \<le> 1 / 2" "u \<le> 1" and many: "real (N + 2) * u \<le> 1 / 2"
    using quad u nn by (simp_all only: of_nat_add of_nat_numeral distrib_right)
  have fits: "normal_range (x * dt)" if "1 \<le> x" "x \<le> real N + 2" for x
  proof -
    have "(1::real) / 10 ^ 307 \<le> 1 / 10 ^ 300" by simp
    moreover have "1 * dt \<le> x * dt" "x * dt \<le> (real N + 2) * dt" using that pos by (intro mult_right_mono; simp)+
    moreover have "(10::real) ^ 300 \<le> 10 ^ 307" by simp
    ultimately show ?thesis using dt unfolding normal_range_def by linarith
  qed
  let ?d = "rnd dt"
  have d: "dt * (1 - u) \<le> ?d" "?d \<le> dt * (1 + u)"
    using accurateD[OF acc, of dt] fits[of 1] by simp_all
  have "dt * (1 / 2) \<le> dt * (1 - u)" using pos u1(1) by (intro mult_left_mono) auto
  then have half: "dt * (1 / 2) \<le> ?d" using d(1) by linarith
  have "dt * (1 + u) \<le> dt * 2" using pos u1(2) by (intro mult_left_mono) auto
  then have "?d \<le> dt * 2" using d(2) by linarith
  then have "real n * ?d \<le> 10 ^ 306" if "n \<le> N + 1" for n
  proof -
    have "real n * ?d \<le> (real N + 2) * (dt * 2)" using \<open>?d \<le> dt * 2\<close> that half pos by (intro mult_mono) auto
    also have "\<dots> \<le> 10 ^ 300 * 2" using dt(2) by (simp only: mult.assoc[symmetric] mult_right_mono zero_le_numeral)
    also have "(10::real) ^ 300 * 2 \<le> 10 ^ 306" by simp
    finally show ?thesis .
  qed
  moreover have "1 / 10 ^ 307 \<le> ?d"
  proof -
    have "(1::real) / 10 ^ 307 \<le> 1 / 10 ^ 300 * (1 / 2)" by simp
    also have "\<dots> \<le> dt * (1 / 2)" using dt(1) by (intro mult_right_mono) simp_all
    finally show ?thesis using half by linarith
  qed
  moreover have "real n * u \<le> 1 / 2" if "n \<le> N + 1" for n
  proof -
    have "real n * u \<le> real (N + 2) * u" using that u(1) by (intro mult_right_mono) auto
    then show ?thesis using many by linarith
  qed
  ultimately have c: "real n * ?d * (1 - u) ^ n \<le> clock rnd ?d 0 n" "clock rnd ?d 0 n \<le> real n * ?d * (1 + u) ^ n"
    if "n \<le> N + 1" for n
    using clock_bounds[OF acc u(1) u1(2)] that by blast+
  show "clock rnd ?d 0 k < rnd (real N * dt)" if "k < N"
  proof -
    let ?P = "(1 + u) ^ N" and ?Q = "(1 - u) ^ N"
    have "clock rnd ?d 0 k \<le> real k * ?d * (1 + u) ^ k" using c(2)[of k] that by simp
    also have "\<dots> \<le> real k * (dt * (1 + u)) * (1 + u) ^ k"
      using d(2) u(1) by (intro mult_right_mono mult_left_mono) auto
    also have "\<dots> = real k * dt * (1 + u) ^ Suc k" by simp
    also have "\<dots> \<le> (real N - 1) * dt * ?P"
      using that u(1) pos by (intro mult_mono power_increasing) auto
    finally have le: "clock rnd ?d 0 k \<le> (real N - 1) * dt * ?P" .
    have less1: "real N * real N * u + real N * u < 1"
    proof (cases "u = 0")
      case False
      then have "0 < u" using u(1) by simp
      then show ?thesis using quad u(2) nn by linarith
    qed simp
    have Q: "0 < ?Q" using power_down[OF u(1) u1(2), of N] many u(1) by (simp add: distrib_right)
    have "(real N - 1) * (?P * ?Q) \<le> (real N - 1) * 1"
      using power_up_down[OF u(1) u1(2)] that by (intro mult_left_mono) auto
    also have "real N - 1 < real N - real N * real N * u - real N * u"
      using less1 by linarith
    also have "real N - real N * real N * u - real N * u = real N * (1 - real (Suc N) * u)" by (simp add: algebra_simps)
    also have "\<dots> \<le> real N * (1 - u) ^ Suc N"
      using power_down[OF u(1) u1(2), of "Suc N"] by (intro mult_left_mono) auto
    finally have "((real N - 1) * ?P) * ?Q < (real N * (1 - u)) * ?Q" by (simp add: mult.assoc)
    then have "(real N - 1) * ?P < real N * (1 - u)" using Q by simp
    then have "(real N - 1) * dt * ?P < real N * dt * (1 - u)" using pos by (simp add: mult.commute mult.left_commute)
    also have "\<dots> \<le> rnd (real N * dt)" using accurateD(1)[OF acc fits, of "real N"] that by simp
    finally show ?thesis using le by linarith
  qed
  show "rnd (real N * dt) \<le> clock rnd ?d 0 (N + 1)"
  proof (cases "N = 0")
    case True
    have "0 \<le> real (N + 1) * ?d * (1 - u) ^ (N + 1)" using half pos u1 by (intro mult_nonneg_nonneg) auto
    then show ?thesis using c(1)[of "N + 1"] acc True by (simp add: accurate_def)
  next
    case False
    then have "rnd (real N * dt) \<le> real N * dt * (1 + u)" using accurateD(2)[OF acc fits, of "real N"] by simp
    also have "\<dots> = (real N + real N * u) * dt" by (simp add: algebra_simps)
    also have "\<dots> \<le> (real N + 1) * (1 - real (N + 2) * u) * dt"
    proof (rule mult_right_mono)
      have "(real N + 1) * (1 - real (N + 2) * u) = real N + 1 - real N * real N * u - 3 * (real N * u) - 2 * u"
        by (simp add: algebra_simps)
      then show "real N + real N * u \<le> (real N + 1) * (1 - real (N + 2) * u)" using quad u nn by linarith
    qed (use pos in simp)
    also have "\<dots> \<le> (real N + 1) * (1 - u) ^ (N + 2) * dt"
      using power_down[OF u(1) u1(2), of "N + 2"] pos by (intro mult_right_mono mult_left_mono) auto
    also have "\<dots> = real (N + 1) * (dt * (1 - u)) * (1 - u) ^ (N + 1)" by (simp add: algebra_simps)
    also have "\<dots> \<le> real (N + 1) * ?d * (1 - u) ^ (N + 1)"
      using d(1) u1 by (intro mult_right_mono mult_left_mono) auto
    finally show ?thesis using c(1)[of "N + 1"] by linarith
  qed
qed

section \<open>The number of steps\<close>

context fixed_step
begin

lemma trace_times:
  assumes "run_trace L s ss s'" and "quiet L s"
  shows "map sim_mTime ss = map (clock rnd (dt_of (mSolver s)) (sim_mTime s)) [0..<length ss]"
  using assms
proof (induction rule: run_trace.induct)
  case (step s s1 ss s')
  obtain t where "sim_mTime t = fp_add rnd (sim_mTime s) (dt_of (mSolver s))" "dt_of (mSolver t) = dt_of (mSolver s)" "quiet L t"
     "Simulation_step L s = Some (if mTimeStepCount s < 2147483647 then Ok t else Throw (UndefinedBehaviour ''mTimeStepCount++'') t)"
    using quiet_step[OF step.prems] by blast
  then have s1: "sim_mTime s1 = fp_add rnd (sim_mTime s) (dt_of (mSolver s))" "dt_of (mSolver s1) = dt_of (mSolver s)" "quiet L s1"
    using step.hyps(2) by (auto split: if_splits)
  have "map sim_mTime ss = map (clock rnd (dt_of (mSolver s1)) (sim_mTime s1)) [0..<length ss]" by (rule step.IH[OF s1(3)])
  then show ?case by (simp add: s1(1,2) clock_Suc[symmetric] upt_conv_Cons map_Suc_upt[symmetric] comp_def del: upt_Suc)
qed simp

text \<open>An event at \<open>k\<close> time steps is executed by step \<open>k\<close> or the one after it.\<close>

lemma event_on_time:
  assumes "accurate u rnd" and "0 \<le> u" and "(real N + 3)\<^sup>2 * u \<le> 1"
    and "1 / 10 ^ 300 \<le> dt" and "(real N + 2) * dt \<le> 10 ^ 300"
    and times: "map sim_mTime ss = map (clock rnd (rnd dt) 0) [0..<length ss]" and "N \<le> length ss"
    and ess: "at_first_step (map sim_mTime ss) ess" "mset (mEvents s) = mset (concat ess) + mset q"
      "\<forall>ev \<in> set q. \<forall>x \<in> set ss. sim_mTime x < mTime ev"
    and ev: "ev \<in> set (mEvents s)" "mTime ev = rnd (real k * dt)" "k + 2 \<le> N"
  shows "\<exists>i \<in> {k, k + 1}. i < length ess \<and> ev \<in> set (ess ! i)"
proof -
  have "(real k + 3)\<^sup>2 * u \<le> (real N + 3)\<^sup>2 * u" using ev(3) assms(2) by (intro mult_right_mono power_mono) auto
  moreover have "0 < dt" using assms(4) by (rule less_le_trans[rotated]) simp
  then have "(real k + 2) * dt \<le> (real N + 2) * dt" using ev(3) by (intro mult_right_mono) auto
  ultimately have k: "j < k \<Longrightarrow> clock rnd (rnd dt) 0 j < mTime ev" "mTime ev \<le> clock rnd (rnd dt) 0 (k + 1)" for j
    using clock_reaches[OF assms(1,2) _ assms(4), of k] assms(3,5) ev(2) by auto
  have at: "sim_mTime (ss ! j) = clock rnd (rnd dt) 0 j" if "j < length ss" for j
    using arg_cong[OF times, of "\<lambda>xs. xs ! j"] that by simp
  have in_run: "k + 1 < length ss" using assms(7) ev(3) by simp
  have "ev \<notin> set q" using ess(3) k(2) at[OF in_run] nth_mem[OF in_run] by fastforce
  then have "ev \<in> set (concat ess)" using ess(2) ev(1) by (metis UnE set_mset_mset set_mset_union)
  then obtain i where i: "i < length ess" "ev \<in> set (ess ! i)" by (auto simp: set_concat_nth simp del: set_concat)
  then have "i < length ss" "mTime ev \<le> sim_mTime (ss ! i)" "\<forall>j < i. sim_mTime (ss ! j) < mTime ev"
    using ess(1) by (auto simp: at_first_step_def)
  then have "\<not> i < k" "\<not> k + 1 < i" using k(1)[of i] k(2) at by fastforce+
  then have "i = k \<or> i = k + 1" by auto
  then show ?thesis using i by auto
qed

text \<open>The run of a fresh simulation, for every solver with a fixed step.\<close>

lemma rounded_run:
  assumes acc: "accurate u rnd" "0 \<le> u" "(real N + 3)\<^sup>2 * u \<le> 1" and "N < 2147483647"
    and dt: "1 / 10 ^ 300 \<le> dt" "(real N + 2) * dt \<le> 10 ^ 300"
    and s: "quiet L s" "sim_mTime s = 0" "mTimeStepCount s = 0" "dt_of (mSolver s) = rnd dt" "mFinalTime s = rnd (real N * dt)"
  shows "\<exists>s' s2 ss ess. Simulation_run L s = Some (Ok s') \<and> s' = flush_all (close_all L s2) \<and> run_trace L s ss s2
     \<and> mTimeStepCount s' = int (length ss) \<and> (length ss = N \<or> length ss = N + 1) \<and> list_all2 (executes L) ss ess
     \<and> mset (mEvents s) = mset (concat ess) + mset (mEvents s')
     \<and> (\<forall>ev \<in> set (mEvents s). \<forall>k. mTime ev = rnd (real k * dt) \<longrightarrow> k + 2 \<le> N \<longrightarrow> (\<exists>i \<in> {k, k + 1}. i < length ess \<and> ev \<in> set (ess ! i)))"
proof -
  note r = clock_reaches[OF acc dt]
  define n where "n = (if clock rnd (rnd dt) 0 N < rnd (real N * dt) then N + 1 else N)"
  have n: "n = N \<or> n = N + 1" "int n \<le> 2147483647" using assms(4) by (simp_all add: n_def)
  have "clock rnd (rnd dt) 0 k < rnd (real N * dt)" if "k < n" for k
    using r(1)[of k] that by (cases "k = N") (auto simp: n_def split: if_splits)
  moreover have "\<not> clock rnd (rnd dt) 0 n < rnd (real N * dt)" using r(2) by (auto simp: n_def)
  ultimately obtain s' where run: "Simulation_run L s = Some (Ok s')" "mTimeStepCount s' = int n"
    using quiet_run[OF s(1), of n] n(2) by (auto simp only: s(2-5) add_0_left)
  then obtain s2 where s2: "run_loop L s = Some (Ok s2)" "s' = flush_all (close_all L s2)"
    using s(1) by (auto simp: Simulation_run_def quiet_def for_each_run_Nil_parts then_run_Some_Ok)
  obtain ss where tr: "run_trace L s ss s2" by (rule run_loop_trace[OF s2(1)])
  have len: "length ss = n"
    using run_trace_count[OF tr] run(2) s(3) by (simp add: s2(2) flush_all_def close_all_def)
  obtain ess where ess: "list_all2 (executes L) ss ess" "at_first_step (map sim_mTime ss) ess"
     "mset (mEvents s) = mset (concat ess) + mset (mEvents s2)"
     "\<forall>ev \<in> set (mEvents s2). \<forall>x \<in> set ss. sim_mTime x < mTime ev"
    using run_trace_events[OF tr] s(1) unfolding quiet_def by blast
  have "map sim_mTime ss = map (clock rnd (rnd dt) 0) [0..<length ss]"
    using trace_times[OF tr s(1)] by (simp add: s)
  then have "\<exists>i \<in> {k, k + 1}. i < length ess \<and> ev \<in> set (ess ! i)"
    if "ev \<in> set (mEvents s)" "mTime ev = rnd (real k * dt)" "k + 2 \<le> N" for ev k
    using event_on_time[OF acc dt _ _ ess(2-4) that] n(1) len by auto
  moreover have "mset (mEvents s) = mset (concat ess) + mset (mEvents s')"
    using ess(3) by (simp add: s2(2) flush_all_def close_all_def)
  ultimately show ?thesis using run s2(2) tr len n(1) ess(1) by metis
qed

end


text \<open>The example: a time step of 1, 5 steps, and a rounding that is off by a thousandth.\<close>

definition demo_round :: "real \<Rightarrow> real" where
  "demo_round x = x * (1 - 1 / 1000)"


end
