(* ===== verification/ExampleLib.thy ===== *)
theory ExampleLib
  imports StepCount RealTimeSimulation
begin

text \<open>
  What the example programs (\<open>Examples/Cxx\<close>) call. They make nodes and components of the component
  library, connect them, collect them in a topology, and create and run a simulation. A component is
  described by the calls that were made on it; what these calls do is up to the library: the record
  \<open>objects\<close> maps a description to the object the solver sees. Log levels and console output are left
  out.
\<close>

section \<open>Objects of the component library\<close>

text \<open>\<open>Node::GND\<close> and \<open>Node::make(name, phaseType, initialVoltage)\<close>.\<close>

datatype node_obj = GND | Node string phase_type "val list"

definition Node_make :: "string \<Rightarrow> node_obj" where
  "Node_make name = Node name Single []"

datatype cps_namespace = DP_Ph1 | DP_Ph3 | EMT_Ph1 | Signal

datatype comp_class = VoltageSource | VoltageSourceNorton | CurrentSource | Resistor | Inductor | Capacitor
  | Switch | PQLoadCS | SynchronGeneratorTrStab | SynchronGeneratorDQ | SeriesResistor | SeriesSwitch | FIRFilter
  | RxLine | Transformer

text \<open>An argument of a call: a value, a list of values, or an attribute of a component.\<close>

datatype call_arg = Val val | Vals "val list" | AttrOf string string

record part =
  part_namespace :: cps_namespace
  part_class :: comp_class
  part_name :: string
  part_calls :: "(string \<times> call_arg list) list"
  part_nodes :: "node_obj list"

definition make_part :: "cps_namespace \<Rightarrow> comp_class \<Rightarrow> string \<Rightarrow> part" where
  "make_part ns c name = \<lparr>part_namespace = ns, part_class = c, part_name = name, part_calls = [], part_nodes = []\<rparr>"

definition call :: "string \<Rightarrow> call_arg list \<Rightarrow> part \<Rightarrow> part" where
  "call f args p = p\<lparr>part_calls := part_calls p @ [(f, args)]\<rparr>"

definition setParameters :: "val list \<Rightarrow> part \<Rightarrow> part" where
  "setParameters vs = call ''setParameters'' (map Val vs)"

definition connect :: "node_obj list \<Rightarrow> part \<Rightarrow> part" where
  "connect ns p = p\<lparr>part_nodes := ns\<rparr>"

record topology =
  top_frequency :: real
  top_nodes :: "node_obj list"
  top_parts :: "part list"

definition SystemTopology :: "real \<Rightarrow> node_obj list \<Rightarrow> part list \<Rightarrow> topology" where
  "SystemTopology f ns ps = \<lparr>top_frequency = f, top_nodes = ns, top_parts = ps\<rparr>"

text \<open>\<open>n->attribute(name)\<close>, \<open>c->attribute(name)\<close>, and the derived attributes \<open>mag()\<close> and \<open>phase()\<close>.\<close>

datatype source = NodeAttr node_obj string | PartAttr part string | Mag source | Phase source

section \<open>What an example program sets up\<close>

text \<open>A data logger with its attributes, in the order of the calls.\<close>

record data_log =
  dl_name :: string
  dl_attributes :: "(string \<times> source) list"

definition make_logger :: "string \<Rightarrow> data_log" where
  "make_logger name = \<lparr>dl_name = name, dl_attributes = []\<rparr>"

definition log_attribute :: "string \<Rightarrow> source \<Rightarrow> data_log \<Rightarrow> data_log" where
  "log_attribute name a l = l\<lparr>dl_attributes := dl_attributes l @ [(name, a)]\<rparr>"

text \<open>An interface with its imports and exports of real or complex attributes.\<close>

datatype slot_type = RealSlot | ComplexSlot

record shm =
  shm_wname :: string
  shm_rname :: string
  shm_conf :: shmem_conf
  shm_imports :: "(slot_type \<times> source \<times> int) list"
  shm_exports :: "(slot_type \<times> source \<times> int) list"

definition make_interface_conf :: "string \<Rightarrow> string \<Rightarrow> shmem_conf \<Rightarrow> shm" where
  "make_interface_conf wn rn conf =
     \<lparr>shm_wname = wn, shm_rname = rn, shm_conf = conf, shm_imports = [], shm_exports = []\<rparr>"

definition make_interface :: "string \<Rightarrow> string \<Rightarrow> shm" where
  "make_interface wn rn = make_interface_conf wn rn \<lparr>queuelen = 512, samplelen = 64, polling = 0\<rparr>"

definition import_attribute :: "slot_type \<Rightarrow> source \<Rightarrow> int \<Rightarrow> shm \<Rightarrow> shm" where
  "import_attribute t a idx i = i\<lparr>shm_imports := shm_imports i @ [(t, a, idx)]\<rparr>"

definition export_attribute :: "slot_type \<Rightarrow> source \<Rightarrow> int \<Rightarrow> shm \<Rightarrow> shm" where
  "export_attribute t a idx i = i\<lparr>shm_exports := shm_exports i @ [(t, a, idx)]\<rparr>"

text \<open>A program: \<open>Simulation\<close> or \<open>RealTimeSimulation\<close> with its arguments, what is added to it, and the
  argument of the real-time \<open>run\<close>: a delay in nanoseconds (one second by default) or a point in time.\<close>

record program =
  prg_realtime :: bool
  prg_name :: string
  prg_system :: topology
  prg_timeStep :: real
  prg_finalTime :: real
  prg_domain :: domain
  prg_solver :: solver_type
  prg_steadyState :: bool
  prg_loggers :: "data_log list"
  prg_events :: "(real \<times> part \<times> bool) list"
  prg_interfaces :: "(shm \<times> bool \<times> bool) list"
  prg_startIn :: int
  prg_startAt :: "int option"

definition simulation :: "bool \<Rightarrow> string \<Rightarrow> topology \<Rightarrow> real \<Rightarrow> real \<Rightarrow> domain \<Rightarrow> solver_type \<Rightarrow> program" where
  "simulation realtime name sys timeStep finalTime domain solver =
     \<lparr>prg_realtime = realtime, prg_name = name, prg_system = sys, prg_timeStep = timeStep,
      prg_finalTime = finalTime, prg_domain = domain, prg_solver = solver, prg_steadyState = False,
      prg_loggers = [], prg_events = [], prg_interfaces = [], prg_startIn = 1000000000,
      prg_startAt = None\<rparr>"

definition with_logger :: "data_log \<Rightarrow> program \<Rightarrow> program" where
  "with_logger l p = p\<lparr>prg_loggers := prg_loggers p @ [l]\<rparr>"

definition with_event :: "real \<Rightarrow> part \<Rightarrow> bool \<Rightarrow> program \<Rightarrow> program" where
  "with_event t c b p = p\<lparr>prg_events := prg_events p @ [(t, c, b)]\<rparr>"

definition with_interface :: "shm \<Rightarrow> bool \<Rightarrow> bool \<Rightarrow> program \<Rightarrow> program" where
  "with_interface i b start p = p\<lparr>prg_interfaces := prg_interfaces p @ [(i, b, start)]\<rparr>"

definition with_startIn :: "int \<Rightarrow> program \<Rightarrow> program" where
  "with_startIn ns p = p\<lparr>prg_startIn := ns\<rparr>"

definition with_startAt :: "int \<Rightarrow> program \<Rightarrow> program" where
  "with_startAt t p = p\<lparr>prg_startAt := Some t\<rparr>"

definition with_steadyState :: "program \<Rightarrow> program" where
  "with_steadyState p = p\<lparr>prg_steadyState := True\<rparr>"

lemmas program_defs = Node_make_def make_part_def call_def setParameters_def connect_def SystemTopology_def
  make_logger_def log_attribute_def make_interface_conf_def make_interface_def import_attribute_def
  export_attribute_def simulation_def with_logger_def with_event_def with_interface_def
  with_startIn_def with_startAt_def with_steadyState_def Let_def

section \<open>What a program does\<close>

text \<open>The objects behind the descriptions: nodes, components, attributes as a logger and as an interface
  use them, the angular frequency of a topology, and the world in which the topology has been built.\<close>

record 'w objects =
  ob_node :: "node_obj \<Rightarrow> node"
  ob_comp :: "part \<Rightarrow> comp"
  ob_logged :: "source \<Rightarrow> attribute"
  ob_attr :: "source \<Rightarrow> attr"
  ob_omega :: "real \<Rightarrow> real"
  ob_world :: "topology \<Rightarrow> 'w"

definition system_of :: "'w objects \<Rightarrow> topology \<Rightarrow> system_topology" where
  "system_of ob sys =
     \<lparr>sysComponents = map (ob_comp ob) (top_parts sys), sysNodes = map (ob_node ob) (top_nodes sys),
      mSystemFrequency = top_frequency sys, mSystemOmega = ob_omega ob (top_frequency sys)\<rparr>"

definition fill_logger :: "'w objects \<Rightarrow> bool \<Rightarrow> data_log \<Rightarrow> logger outcome" where
  "fill_logger ob opened dl =
     for_each (\<lambda>(name, a). addAttribute name (ob_logged ob a)) (dl_attributes dl) (DataLogger_new opened True)"

primrec fill_loggers :: "'w objects \<Rightarrow> bool \<Rightarrow> data_log list \<Rightarrow> exn + logger list" where
  "fill_loggers ob opened [] = Inr []"
| "fill_loggers ob opened (dl # dls) =
     (case fill_logger ob opened dl of
        Throw x l \<Rightarrow> Inl x
      | Ok l \<Rightarrow> map_sum id (Cons l) (fill_loggers ob opened dls))"

definition bind_import :: "'w cps_attrs \<Rightarrow> 'd slot_ops \<Rightarrow> 'w objects \<Rightarrow> slot_type \<times> source \<times> int \<Rightarrow>
    ('d, 'w) interface \<Rightarrow> ('d, 'w) interface" where
  "bind_import cps so ob x =
     (let (t, a, idx) = x
      in case t of RealSlot \<Rightarrow> addImport_Real cps so (ob_attr ob a) idx
                 | ComplexSlot \<Rightarrow> addImport_Complex cps so (ob_attr ob a) idx)"

definition bind_export :: "'w cps_attrs \<Rightarrow> 'd slot_ops \<Rightarrow> 'w objects \<Rightarrow> slot_type \<times> source \<times> int \<Rightarrow>
    ('d, 'w) interface \<Rightarrow> ('d, 'w) interface" where
  "bind_export cps so ob x =
     (let (t, a, idx) = x
      in case t of RealSlot \<Rightarrow> addExport_Real cps so (ob_attr ob a) idx
                 | ComplexSlot \<Rightarrow> addExport_Complex cps so (ob_attr ob a) idx)"

definition bind_interface :: "'w cps_attrs \<Rightarrow> 'd slot_ops \<Rightarrow> 'w objects \<Rightarrow> ('d, 'e) villas \<Rightarrow> shm \<Rightarrow> ('d, 'w) interface" where
  "bind_interface cps so ob vil i =
     fold (bind_export cps so ob) (shm_exports i)
       (fold (bind_import cps so ob) (shm_imports i) (Interface_new_conf vil (shm_wname i) (shm_rname i) (shm_conf i)))"

text \<open>\<open>addLogger\<close>, \<open>addEvent\<close> and \<open>addInterface\<close> on the new simulation; literals are rounded.\<close>

definition add_all :: "(real \<Rightarrow> real) \<Rightarrow> 'w objects \<Rightarrow> program \<Rightarrow> ('s, 'd, 'w, 'e) sim \<Rightarrow> ('s, 'd, 'w, 'e) sim" where
  "add_all rnd ob prg s =
     fold (\<lambda>(p, i, blocking, start). addInterface p blocking start 1) (enumerate 0 (prg_interfaces prg))
       (fold (\<lambda>(t, c, b). sim_addEvent (SwitchEvent (rnd t) (ob_comp ob c) b)) (prg_events prg)
         (fold (\<lambda>p. addLogger p 1) [0..<length (prg_loggers prg)] s))"

text \<open>The simulation that a program with the MNA solver sets up, or the exception that ends it.\<close>

definition program_sim ::
    "('w, 'lu) cps_mna \<Rightarrow> (real \<Rightarrow> real) \<Rightarrow> (real \<Rightarrow> string) \<Rightarrow> (nat \<Rightarrow> ('d, 'e) villas) \<Rightarrow> 'd slot_ops \<Rightarrow>
     'w objects \<Rightarrow> bool \<Rightarrow> 'e \<Rightarrow> program \<Rightarrow> (exn + ('lu mna, 'd, 'w, 'e) sim) option" where
  "program_sim cps rnd fmt vil so ob opened e prg =
     (case fill_loggers ob opened (prg_loggers prg) of
        Inl x \<Rightarrow> Some (Inl x)
      | Inr ls \<Rightarrow>
          map_option (map_sum id (add_all rnd ob prg))
            (Simulation_new_MNA cps rnd fmt opened (prg_name prg) (system_of ob (prg_system prg))
               (rnd (prg_timeStep prg)) (rnd (prg_finalTime prg)) (prg_domain prg) True (prg_steadyState prg)
               (\<lambda>p. bind_interface (cps_attrs.truncate cps) so ob (vil p) (fst (prg_interfaces prg ! p)))
               (\<lambda>p. ls ! p) (ob_world ob (prg_system prg)) e))"

definition run_offline ::
    "('w, 'lu) cps_mna \<Rightarrow> (real \<Rightarrow> real) \<Rightarrow> (real \<Rightarrow> string) \<Rightarrow> (nat \<Rightarrow> ('d, 'e) villas) \<Rightarrow> 'd slot_ops \<Rightarrow>
     (attr \<Rightarrow> 'w \<Rightarrow> string) \<Rightarrow> 'w objects \<Rightarrow> bool \<Rightarrow> 'e \<Rightarrow> program \<Rightarrow> (exn + ('lu mna, 'd, 'w, 'e) sim) option" where
  "run_offline cps rnd fmt vil so toString ob opened e prg =
     (case program_sim cps rnd fmt vil so ob opened e prg of
        None \<Rightarrow> None
      | Some (Inl x) \<Rightarrow> Some (Inl x)
      | Some (Inr s) \<Rightarrow>
          map_option (\<lambda>r. case r of Ok s \<Rightarrow> Inr s | Throw x s \<Rightarrow> Inl x)
            (Simulation_run (mna_lib cps rnd fmt vil toString) s))"

text \<open>The same for a real-time program: \<open>fd\<close> and \<open>garbage\<close> are what creating the timer needs.\<close>

definition run_realtime ::
    "'e kernel \<Rightarrow> int \<Rightarrow> int \<Rightarrow> ('w, 'lu) cps_mna \<Rightarrow> (real \<Rightarrow> real) \<Rightarrow> (real \<Rightarrow> string) \<Rightarrow> (nat \<Rightarrow> ('d, 'e) villas) \<Rightarrow>
     'd slot_ops \<Rightarrow> (attr \<Rightarrow> 'w \<Rightarrow> string) \<Rightarrow> 'w objects \<Rightarrow> bool \<Rightarrow> 'e \<Rightarrow> program \<Rightarrow>
     (exn + ('lu mna, 'd, 'w, 'e) rt_sim) option" where
  "run_realtime K fd garbage cps rnd fmt vil so toString ob opened e prg =
     (case program_sim cps rnd fmt vil so ob opened e prg of
        None \<Rightarrow> None
      | Some (Inl x) \<Rightarrow> Some (Inl x)
      | Some (Inr b) \<Rightarrow>
          map_option (\<lambda>r. case r of Ok s \<Rightarrow> Inr s | Throw x s \<Rightarrow> Inl x)
            (case RealTimeSimulation_new fd garbage (rnd (prg_timeStep prg)) b of
               Throw x s \<Rightarrow> Some (Throw x s)
             | Ok s \<Rightarrow>
                 (case prg_startAt prg of
                    None \<Rightarrow> rt_run_in K rnd (mna_lib cps rnd fmt vil toString) (prg_startIn prg) s
                  | Some t \<Rightarrow> rt_run_at K rnd (mna_lib cps rnd fmt vil toString) t s)))"

end
