(* ===== verification/ExampleCircuits.thy ===== *)
theory ExampleCircuits
  imports ExampleLib
begin

text \<open>
  The example programs without interfaces (\<open>Examples/Cxx/Circuits\<close>, \<open>SynchronGenerator\<close>, \<open>RealTime\<close>,
  \<open>DAE\<close> and the reference circuit of \<open>Shmem\<close>), as far as \<open>CMakeLists.txt\<close> builds them: one definition
  per \<open>main\<close>, statement by statement. A number given for a complex parameter stays a real one, as the
  source has it.
\<close>

section \<open>Circuits, real-time and DAE examples\<close>

text \<open>\<open>std::to_string(0.00005)\<close> is the text \<open>0.000050\<close>.\<close>

definition DP_VS_R1 :: program where
  "DP_VS_R1 =
     (let timeStep = 0.0001;
          finalTime = 0.1;
          simName = ''DP_VS_R1'';
          n1 = Node_make ''n1'';
          vs = make_part DP_Ph1 VoltageSource ''v_1'';
          vs = setParameters [ComplexV 10 0] vs;
          r = make_part DP_Ph1 Resistor ''r_1'';
          r = setParameters [RealV 1] r;
          vs = connect [GND, n1] vs;
          r = connect [n1, GND] r;
          sys = SystemTopology 50 [n1] [vs, r];
          logger = make_logger simName;
          logger = log_attribute ''v1'' (NodeAttr n1 ''v'') logger;
          sim = simulation False simName sys timeStep finalTime DP MNA;
          sim = with_logger logger sim
      in sim)"

definition DP_CS_R1 :: program where
  "DP_CS_R1 =
     (let timeStep = 0.0001;
          finalTime = 0.1;
          simName = ''DP_CS_R1'';
          n1 = Node_make ''n1'';
          cs = make_part DP_Ph1 CurrentSource ''cs'';
          r1 = make_part DP_Ph1 Resistor ''r_1'';
          cs = connect [GND, n1] cs;
          r1 = connect [GND, n1] r1;
          cs = setParameters [ComplexV 10 0] cs;
          r1 = setParameters [RealV 1] r1;
          sys = SystemTopology 50 [n1] [cs, r1];
          logger = make_logger simName;
          logger = log_attribute ''v1'' (NodeAttr n1 ''v'') logger;
          logger = log_attribute ''i10'' (PartAttr r1 ''i_intf'') logger;
          sim = simulation False simName sys timeStep finalTime DP MNA;
          sim = with_logger logger sim
      in sim)"

definition DP_VS_RL1 :: program where
  "DP_VS_RL1 =
     (let timeStep = 0.0001;
          finalTime = 0.1;
          simName = ''DP_VS_RL1'';
          n1 = Node_make ''n1'';
          n2 = Node_make ''n2'';
          vs = make_part DP_Ph1 VoltageSource ''vs'';
          vs = setParameters [ComplexV 10 0] vs;
          vs = connect [GND, n1] vs;
          r1 = make_part DP_Ph1 Resistor ''r_1'';
          r1 = setParameters [RealV 5] r1;
          r1 = connect [n1, n2] r1;
          l1 = make_part DP_Ph1 Inductor ''l_1'';
          l1 = setParameters [RealV 0.02] l1;
          l1 = connect [n2, GND] l1;
          sys = SystemTopology 50 [n1, n2] [vs, r1, l1];
          logger = make_logger simName;
          logger = log_attribute ''v1'' (NodeAttr n1 ''v'') logger;
          logger = log_attribute ''v2'' (NodeAttr n2 ''v'') logger;
          logger = log_attribute ''i12'' (PartAttr r1 ''i_intf'') logger;
          sim = simulation False simName sys timeStep finalTime DP MNA;
          sim = with_logger logger sim
      in sim)"

definition DP_VS_RC1 :: program where
  "DP_VS_RC1 =
     (let timeStep = 0.0001;
          finalTime = 0.1;
          simName = ''DP_VS_RC1'';
          n1 = Node_make ''n1'';
          n2 = Node_make ''n2'';
          vs = make_part DP_Ph1 VoltageSource ''vs'';
          vs = setParameters [ComplexV 10 0] vs;
          r1 = make_part DP_Ph1 Resistor ''r_1'';
          r1 = setParameters [RealV 1] r1;
          c1 = make_part DP_Ph1 Capacitor ''c_1'';
          c1 = setParameters [RealV 0.001] c1;
          vs = connect [GND, n1] vs;
          r1 = connect [n1, n2] r1;
          c1 = connect [n2, GND] c1;
          sys = SystemTopology 50 [n1, n2] [vs, r1, c1];
          logger = make_logger simName;
          logger = log_attribute ''v1'' (NodeAttr n1 ''v'') logger;
          logger = log_attribute ''v2'' (NodeAttr n2 ''v'') logger;
          logger = log_attribute ''i12'' (PartAttr r1 ''i_intf'') logger;
          sim = simulation False simName sys timeStep finalTime DP MNA;
          sim = with_logger logger sim
      in sim)"

definition DP_CS_R2CL :: program where
  "DP_CS_R2CL =
     (let timeStep = 0.0001;
          finalTime = 0.1;
          simName = ''DP_CS_R2CL'';
          n1 = Node_make ''n1'';
          n2 = Node_make ''n2'';
          cs = make_part DP_Ph1 CurrentSource ''cs'';
          cs = setParameters [RealV 10] cs;
          r1 = make_part DP_Ph1 Resistor ''r_1'';
          r1 = setParameters [RealV 1] r1;
          c1 = make_part DP_Ph1 Capacitor ''c_1'';
          c1 = setParameters [RealV 0.001] c1;
          l1 = make_part DP_Ph1 Inductor ''l_1'';
          l1 = setParameters [RealV 0.001] l1;
          r2 = make_part DP_Ph1 Resistor ''r_2'';
          r2 = setParameters [RealV 1] r2;
          cs = connect [GND, n1] cs;
          r1 = connect [n1, GND] r1;
          c1 = connect [n1, n2] c1;
          l1 = connect [n2, GND] l1;
          r2 = connect [n2, GND] r2;
          sys = SystemTopology 50 [n1, n2] [cs, r1, c1, l1, r2];
          logger = make_logger simName;
          logger = log_attribute ''v1'' (NodeAttr n1 ''v'') logger;
          logger = log_attribute ''v2'' (NodeAttr n2 ''v'') logger;
          logger = log_attribute ''i12'' (PartAttr cs ''i_intf'') logger;
          logger = log_attribute ''i34'' (PartAttr c1 ''i_intf'') logger;
          sim = simulation False simName sys timeStep finalTime DP MNA;
          sim = with_logger logger sim
      in sim)"

definition DP_VS_CS_R4 :: program where
  "DP_VS_CS_R4 =
     (let timeStep = 0.0001;
          finalTime = 0.1;
          simName = ''DP_VS_CS_R4'';
          n1 = Node_make ''n1'';
          n2 = Node_make ''n2'';
          n3 = Node_make ''n3'';
          vs = make_part DP_Ph1 VoltageSource ''vs'';
          vs = setParameters [RealV 10] vs;
          r1 = make_part DP_Ph1 Resistor ''r_1'';
          r1 = setParameters [RealV 1] r1;
          r2 = make_part DP_Ph1 Resistor ''r_2'';
          r2 = setParameters [RealV 1] r2;
          r3 = make_part DP_Ph1 Resistor ''r_3'';
          r3 = setParameters [RealV 10] r3;
          r4 = make_part DP_Ph1 Resistor ''r_4'';
          r4 = setParameters [RealV 5] r4;
          cs = make_part DP_Ph1 CurrentSource ''cs'';
          cs = setParameters [RealV 1] cs;
          vs = connect [GND, n1] vs;
          r1 = connect [n1, n2] r1;
          r2 = connect [n2, GND] r2;
          r3 = connect [n2, n3] r3;
          r4 = connect [n3, GND] r4;
          cs = connect [GND, n3] cs;
          sys = SystemTopology 50 [n1, n2, n3] [vs, r1, r2, r3, r4, cs];
          logger = make_logger simName;
          logger = log_attribute ''v1'' (NodeAttr n1 ''v'') logger;
          logger = log_attribute ''v2'' (NodeAttr n2 ''v'') logger;
          logger = log_attribute ''v3'' (NodeAttr n3 ''v'') logger;
          logger = log_attribute ''i12'' (PartAttr r1 ''i_intf'') logger;
          logger = log_attribute ''i23'' (PartAttr r3 ''i_intf'') logger;
          sim = simulation False simName sys timeStep finalTime DP MNA;
          sim = with_logger logger sim
      in sim)"

definition DP_VS_R2L3 :: program where
  "DP_VS_R2L3 =
     (let timeStep = 0.0001;
          finalTime = 0.1;
          simName = ''DP_VS_R2L3'';
          n1 = Node_make ''n1'';
          n2 = Node_make ''n2'';
          n3 = Node_make ''n3'';
          n4 = Node_make ''n4'';
          vs = make_part DP_Ph1 VoltageSource ''vs'';
          vs = setParameters [RealV 10] vs;
          r1 = make_part DP_Ph1 Resistor ''r_1'';
          r1 = setParameters [RealV 1] r1;
          l1 = make_part DP_Ph1 Inductor ''l_1'';
          l1 = setParameters [RealV 0.02] l1;
          l2 = make_part DP_Ph1 Inductor ''l_2'';
          l2 = setParameters [RealV 0.1] l2;
          l3 = make_part DP_Ph1 Inductor ''l_3'';
          l3 = setParameters [RealV 0.05] l3;
          r2 = make_part DP_Ph1 Resistor ''r_2'';
          r2 = setParameters [RealV 2] r2;
          vs = connect [GND, n1] vs;
          r1 = connect [n1, n2] r1;
          l1 = connect [n2, n3] l1;
          l2 = connect [n3, GND] l2;
          l3 = connect [n3, n4] l3;
          r2 = connect [n4, GND] r2;
          sys = SystemTopology 50 [n1, n2, n3, n4] [vs, r1, l1, l2, l3, r2];
          logger = make_logger simName;
          logger = log_attribute ''v1'' (NodeAttr n1 ''v'') logger;
          logger = log_attribute ''v2'' (NodeAttr n2 ''v'') logger;
          logger = log_attribute ''v3'' (NodeAttr n3 ''v'') logger;
          logger = log_attribute ''v4'' (NodeAttr n4 ''v'') logger;
          logger = log_attribute ''i12'' (PartAttr r1 ''i_intf'') logger;
          logger = log_attribute ''i34'' (PartAttr l3 ''i_intf'') logger;
          sim = simulation False simName sys timeStep finalTime DP MNA;
          sim = with_logger logger sim
      in sim)"

definition EMT_VS_R1 :: program where
  "EMT_VS_R1 =
     (let timeStep = 0.0001;
          finalTime = 0.1;
          simName = ''EMT_VS_R1'';
          n1 = Node_make ''n1'';
          n2 = Node_make ''n2'';
          n3 = Node_make ''n3'';
          vin = make_part EMT_Ph1 VoltageSource ''v_in'';
          vin = setParameters [RealV 10] vin;
          r1 = make_part EMT_Ph1 Resistor ''r_1'';
          r1 = setParameters [RealV 5] r1;
          r2 = make_part EMT_Ph1 Resistor ''r_2'';
          r2 = setParameters [RealV 10] r2;
          r3 = make_part EMT_Ph1 Resistor ''r_3'';
          r3 = setParameters [RealV 2] r3;
          vin = connect [n1, n2] vin;
          r1 = connect [n1, GND] r1;
          r2 = connect [n2, GND] r2;
          r3 = connect [n2, GND] r3;
          system = SystemTopology 50 [n1, n2, n3, GND] [vin, r1, r2, r3];
          logger = make_logger simName;
          logger = log_attribute ''v1'' (NodeAttr n1 ''v'') logger;
          logger = log_attribute ''v2'' (NodeAttr n2 ''v'') logger;
          logger = log_attribute ''v3'' (NodeAttr n3 ''v'') logger;
          sim = simulation False simName system timeStep finalTime EMT MNA;
          sim = with_logger logger sim
      in sim)"

definition EMT_VS_RC1 :: program where
  "EMT_VS_RC1 =
     (let timeStep = 0.0001;
          finalTime = 0.1;
          simName = ''EMT_VS_RC1'';
          n1 = Node_make ''n1'';
          n2 = Node_make ''n2'';
          vs = make_part EMT_Ph1 VoltageSource ''vs'';
          vs = setParameters [ComplexV 10 0, RealV 50] vs;
          r1 = make_part EMT_Ph1 Resistor ''r_1'';
          r1 = setParameters [RealV 1] r1;
          c1 = make_part EMT_Ph1 Capacitor ''c_1'';
          c1 = setParameters [RealV 0.001] c1;
          vs = connect [GND, n1] vs;
          r1 = connect [n1, n2] r1;
          c1 = connect [n2, GND] c1;
          sys = SystemTopology 50 [n1, n2] [vs, r1, c1];
          logger = make_logger simName;
          logger = log_attribute ''v1'' (NodeAttr n1 ''v'') logger;
          logger = log_attribute ''v2'' (NodeAttr n2 ''v'') logger;
          logger = log_attribute ''i12'' (PartAttr r1 ''i_intf'') logger;
          sim = simulation False simName sys timeStep finalTime EMT MNA;
          sim = with_logger logger sim
      in sim)"

definition EMT_CS_R1 :: program where
  "EMT_CS_R1 =
     (let timeStep = 0.0001;
          finalTime = 0.1;
          simName = ''EMT_CS_R_1'';
          n1 = Node_make ''n1'';
          cs = make_part EMT_Ph1 CurrentSource ''cs'';
          cs = setParameters [ComplexV 10 0, RealV 50] cs;
          cs = connect [GND, n1] cs;
          r1 = make_part EMT_Ph1 Resistor ''r_1'';
          r1 = setParameters [RealV 1] r1;
          r1 = connect [GND, n1] r1;
          sys = SystemTopology 50 [n1] [cs, r1];
          logger = make_logger simName;
          logger = log_attribute ''v1'' (NodeAttr n1 ''v'') logger;
          sim = simulation False simName sys timeStep finalTime EMT MNA;
          sim = with_logger logger sim
      in sim)"

definition EMT_VS_RL1 :: program where
  "EMT_VS_RL1 =
     (let timeStep = 0.0001;
          finalTime = 0.1;
          simName = ''EMT_VS_RL1'';
          n1 = Node_make ''n1'';
          n2 = Node_make ''n2'';
          vs = make_part EMT_Ph1 VoltageSource ''vs'';
          vs = setParameters [ComplexV 10 0, RealV 50] vs;
          r1 = make_part EMT_Ph1 Resistor ''r_1'';
          r1 = setParameters [RealV 5] r1;
          l1 = make_part EMT_Ph1 Inductor ''l_1'';
          l1 = setParameters [RealV 0.02] l1;
          vs = connect [GND, n1] vs;
          r1 = connect [n1, n2] r1;
          l1 = connect [n2, GND] l1;
          sys = SystemTopology 50 [n1, n2] [vs, r1, l1];
          logger = make_logger simName;
          logger = log_attribute ''v1'' (NodeAttr n1 ''v'') logger;
          logger = log_attribute ''v2'' (NodeAttr n2 ''v'') logger;
          logger = log_attribute ''i12'' (PartAttr r1 ''i_intf'') logger;
          sim = simulation False simName sys timeStep finalTime EMT MNA;
          sim = with_logger logger sim
      in sim)"

definition EMT_CS_R2CL :: program where
  "EMT_CS_R2CL =
     (let timeStep = 0.0001;
          finalTime = 0.1;
          simName = ''EMT_CS_R2CL'';
          n1 = Node_make ''n1'';
          n2 = Node_make ''n2'';
          cs = make_part EMT_Ph1 CurrentSource ''cs'';
          cs = setParameters [RealV 10, RealV 50] cs;
          cs = connect [GND, n1] cs;
          r1 = make_part EMT_Ph1 Resistor ''r_1'';
          r1 = setParameters [RealV 1] r1;
          r1 = connect [n1, GND] r1;
          c1 = make_part EMT_Ph1 Capacitor ''c_1'';
          c1 = setParameters [RealV 0.001] c1;
          c1 = connect [n1, n2] c1;
          l1 = make_part EMT_Ph1 Inductor ''l_1'';
          l1 = setParameters [RealV 0.001] l1;
          l1 = connect [n2, GND] l1;
          r2 = make_part EMT_Ph1 Resistor ''r_2'';
          r2 = setParameters [RealV 1] r2;
          r2 = connect [n2, GND] r2;
          sys = SystemTopology 50 [n1, n2] [cs, r1, c1, l1, r2];
          logger = make_logger simName;
          logger = log_attribute ''v1'' (NodeAttr n1 ''v'') logger;
          logger = log_attribute ''v2'' (NodeAttr n2 ''v'') logger;
          logger = log_attribute ''i12'' (PartAttr cs ''i_intf'') logger;
          logger = log_attribute ''i34'' (PartAttr c1 ''i_intf'') logger;
          sim = simulation False simName sys timeStep finalTime EMT MNA;
          sim = with_logger logger sim
      in sim)"

definition EMT_VS_R2L3 :: program where
  "EMT_VS_R2L3 =
     (let timeStep = 0.00001;
          finalTime = 0.1;
          simName = ''EMT_VS_R2L3'';
          n1 = Node_make ''n1'';
          n2 = Node_make ''n2'';
          n3 = Node_make ''n3'';
          n4 = Node_make ''n4'';
          vs = make_part EMT_Ph1 VoltageSource ''vs'';
          vs = setParameters [RealV 10, RealV 50] vs;
          r1 = make_part EMT_Ph1 Resistor ''r_1'';
          r1 = setParameters [RealV 1] r1;
          l1 = make_part EMT_Ph1 Inductor ''l_1'';
          l1 = setParameters [RealV 0.02] l1;
          l2 = make_part EMT_Ph1 Inductor ''l_2'';
          l2 = setParameters [RealV 0.1] l2;
          l3 = make_part EMT_Ph1 Inductor ''l_3'';
          l3 = setParameters [RealV 0.05] l3;
          r2 = make_part EMT_Ph1 Resistor ''r_2'';
          r2 = setParameters [RealV 2] r2;
          vs = connect [GND, n1] vs;
          r1 = connect [n1, n2] r1;
          l1 = connect [n2, n3] l1;
          l2 = connect [n3, GND] l2;
          l3 = connect [n3, n4] l3;
          r2 = connect [n4, GND] r2;
          sys = SystemTopology 50 [n1, n2, n3, n4] [vs, r1, l1, l2, l3, r2];
          logger = make_logger simName;
          logger = log_attribute ''v1'' (NodeAttr n1 ''v'') logger;
          logger = log_attribute ''v2'' (NodeAttr n2 ''v'') logger;
          logger = log_attribute ''v3'' (NodeAttr n3 ''v'') logger;
          logger = log_attribute ''v4'' (NodeAttr n4 ''v'') logger;
          logger = log_attribute ''i12'' (PartAttr r1 ''i_intf'') logger;
          logger = log_attribute ''i34'' (PartAttr l3 ''i_intf'') logger;
          sim = simulation False simName sys timeStep finalTime EMT MNA;
          sim = with_logger logger sim
      in sim)"

definition EMT_VS_CS_R4_AC :: program where
  "EMT_VS_CS_R4_AC =
     (let timeStep = 0.0001;
          finalTime = 0.1;
          simName = ''EMT_VS_CS_R4_AC'';
          n1 = Node_make ''n1'';
          n2 = Node_make ''n2'';
          n3 = Node_make ''n3'';
          vs = make_part EMT_Ph1 VoltageSource ''vs'';
          vs = setParameters [RealV 10, RealV 50] vs;
          r1 = make_part EMT_Ph1 Resistor ''r_1'';
          r1 = setParameters [RealV 1] r1;
          r2 = make_part EMT_Ph1 Resistor ''r_2'';
          r2 = setParameters [RealV 1] r2;
          r3 = make_part EMT_Ph1 Resistor ''r_3'';
          r3 = setParameters [RealV 10] r3;
          r4 = make_part EMT_Ph1 Resistor ''r_4'';
          r4 = setParameters [RealV 5] r4;
          cs = make_part EMT_Ph1 CurrentSource ''cs'';
          cs = setParameters [RealV 1, RealV 50] cs;
          vs = connect [GND, n1] vs;
          r1 = connect [n1, n2] r1;
          r2 = connect [n2, GND] r2;
          r3 = connect [n2, n3] r3;
          r4 = connect [n3, GND] r4;
          cs = connect [GND, n3] cs;
          sys = SystemTopology 50 [n1, n2, n3] [vs, r1, r2, r3, r4, cs];
          logger = make_logger simName;
          logger = log_attribute ''v1'' (NodeAttr n1 ''v'') logger;
          logger = log_attribute ''v2'' (NodeAttr n2 ''v'') logger;
          logger = log_attribute ''v3'' (NodeAttr n3 ''v'') logger;
          logger = log_attribute ''i12'' (PartAttr r1 ''i_intf'') logger;
          logger = log_attribute ''i23'' (PartAttr r3 ''i_intf'') logger;
          sim = simulation False simName sys timeStep finalTime EMT MNA;
          sim = with_logger logger sim
      in sim)"

definition EMT_VS_CS_R4_DC :: program where
  "EMT_VS_CS_R4_DC =
     (let timeStep = 0.001;
          finalTime = 0.1;
          simName = ''EMT_VS_CS_R4_DC'';
          n1 = Node_make ''n1'';
          n2 = Node_make ''n2'';
          n3 = Node_make ''n3'';
          vs = make_part EMT_Ph1 VoltageSource ''vs'';
          vs = setParameters [RealV 10] vs;
          r1 = make_part EMT_Ph1 Resistor ''r_1'';
          r1 = setParameters [RealV 1] r1;
          r2 = make_part EMT_Ph1 Resistor ''r_2'';
          r2 = setParameters [RealV 1] r2;
          r3 = make_part EMT_Ph1 Resistor ''r_3'';
          r3 = setParameters [RealV 10] r3;
          r4 = make_part EMT_Ph1 Resistor ''r_4'';
          r4 = setParameters [RealV 5] r4;
          cs = make_part EMT_Ph1 CurrentSource ''cs'';
          cs = setParameters [RealV 1] cs;
          vs = connect [GND, n1] vs;
          r1 = connect [n1, n2] r1;
          r2 = connect [n2, GND] r2;
          r3 = connect [n2, n3] r3;
          r4 = connect [n3, GND] r4;
          cs = connect [GND, n3] cs;
          sys = SystemTopology 50 [n1, n2, n3] [vs, r1, r2, r3, r4, cs];
          logger = make_logger simName;
          logger = log_attribute ''v1'' (NodeAttr n1 ''v'') logger;
          logger = log_attribute ''v2'' (NodeAttr n2 ''v'') logger;
          logger = log_attribute ''v3'' (NodeAttr n3 ''v'') logger;
          sim = simulation False simName sys timeStep finalTime EMT MNA;
          sim = with_logger logger sim
      in sim)"

definition ShmemDistributedReference :: program where
  "ShmemDistributedReference =
     (let n1 = Node_make ''n1'';
          n2 = Node_make ''n2'';
          n3 = Node_make ''n3'';
          n4 = Node_make ''n4'';
          vs = make_part DP_Ph1 VoltageSourceNorton ''v_s'';
          l1 = make_part DP_Ph1 Inductor ''l_1'';
          r1 = make_part DP_Ph1 Resistor ''r_1'';
          r2A = make_part DP_Ph1 Resistor ''r_2'';
          r2B = make_part DP_Ph1 Resistor ''r_2'';
          sw = make_part DP_Ph1 Switch ''sw'';
          vs = setParameters [ComplexV 10000 0, RealV 1] vs;
          l1 = setParameters [RealV 0.1] l1;
          r1 = setParameters [RealV 1] r1;
          r2A = setParameters [RealV 10] r2A;
          r2B = setParameters [RealV 8] r2B;
          sw = setParameters [RealV 1000000000, RealV 0.1, BoolV False] sw;
          vs = connect [GND, n1] vs;
          l1 = connect [n1, n2] l1;
          r1 = connect [n2, n3] r1;
          r2A = connect [n3, GND] r2A;
          sw = connect [n3, n4] sw;
          r2B = connect [n4, GND] r2B;
          nodes = [GND, n1, n2, n3, n4];
          sys = SystemTopology 50 nodes [vs, l1, r1, sw, r2A, r2B];
          sim = simulation False ''ShmemDistributedRef'' sys 0.001 20 DP MNA;
          sim = with_event 10 sw True sim
      in sim)"

definition RT_DP_CS_R_1 :: program where
  "RT_DP_CS_R_1 =
     (let n1 = Node_make ''n1'';
          cs = make_part DP_Ph1 CurrentSource ''cs'';
          r1 = make_part DP_Ph1 Resistor ''r_1'';
          cs = connect [GND, n1] cs;
          r1 = connect [GND, n1] r1;
          cs = setParameters [ComplexV 10 0] cs;
          r1 = setParameters [RealV 1] r1;
          sys = SystemTopology 50 [GND, n1] [cs, r1];
          timeStep = 0.001;
          finalTime = 5;
          simName = ''RT_DP_CS_R_1'';
          sim = simulation True simName sys timeStep finalTime DP MNA
      in sim)"

definition RT_DP_ResVS_RL1 :: program where
  "RT_DP_ResVS_RL1 =
     (let timeStep = 0.00005;
          n1 = Node_make ''n1'';
          n2 = Node_make ''n2'';
          n3 = Node_make ''n3'';
          vs = make_part DP_Ph1 VoltageSource ''v_s'';
          rl = make_part DP_Ph1 Resistor ''r_line'';
          ll = make_part DP_Ph1 Inductor ''l_line'';
          rL = make_part DP_Ph1 Resistor ''r_load'';
          vs = connect [GND, n1] vs;
          rl = connect [n1, n2] rl;
          ll = connect [n2, n3] ll;
          rL = connect [GND, n3] rL;
          vs = setParameters [ComplexV 10000 0] vs;
          rl = setParameters [RealV 1] rl;
          ll = setParameters [RealV 1] ll;
          rL = setParameters [RealV 1000] rL;
          simName = ''RT_DP_ResVS_RL1_0.000050'';
          sys = SystemTopology 50 [GND, n1, n2, n3] [vs, rl, ll, rL];
          sim = simulation True simName sys timeStep 1.0 DP MNA;
          sim = with_startIn 5000000000 sim
      in sim)"

definition DAE_DP_test :: program where
  "DAE_DP_test =
     (let timeStep = 0.00005;
          n1 = Node_make ''n1'';
          n2 = Node_make ''n2'';
          n3 = Node_make ''n3'';
          vs = make_part DP_Ph1 VoltageSource ''v_s'';
          rl = make_part DP_Ph1 Resistor ''r_line'';
          ll = make_part DP_Ph1 Inductor ''l_line'';
          rL = make_part DP_Ph1 Resistor ''r_load'';
          vs = connect [GND, n1] vs;
          rl = connect [n1, n2] rl;
          ll = connect [n2, n3] ll;
          rL = connect [GND, n3] rL;
          vs = setParameters [ComplexV 10000 0] vs;
          rl = setParameters [RealV 1] rl;
          ll = setParameters [RealV 1] ll;
          rL = setParameters [RealV 1000] rL;
          simName = ''DAE_DP_test0.000050'';
          sys = SystemTopology 50 [GND, n1, n2, n3] [vs, rl, ll, rL];
          sim = simulation False simName sys timeStep 1.0 DP DAE
      in sim)"

section \<open>Synchronous generators\<close>

definition DP_SynGen_TrStab_SteadyState :: program where
  "DP_SynGen_TrStab_SteadyState =
     (let timeStep = 0.0005;
          finalTime = 0.03;
          name = ''DP_SynGen_TrStab_StState'';
          nomPower = 555000000;
          nomPhPhVoltRMS = 24000;
          nomFreq = 60;
          H = 3.7;
          Ll = 0.15;
          Lmd = 1.6599;
          Llfd = 0.1648;
          initElecPower = ComplexV 300000000 0;
          initTerminalVolt = 24000;
          initVoltAngle = 0;
          initVoltage = ComplexV (initTerminalVolt * cos initVoltAngle) (initTerminalVolt * sin initVoltAngle);
          mechPower = 300000000;
          Rload = 1.92;
          n1 = Node ''n1'' Single [initVoltage];
          gen = make_part DP_Ph1 SynchronGeneratorTrStab ''SynGen'';
          gen = call ''setFundamentalParametersPU''
                  (map (Val \<circ> RealV) [nomPower, nomPhPhVoltRMS, nomFreq, Ll, Lmd, Llfd, H]) gen;
          gen = connect [n1] gen;
          gen = call ''setInitialValues'' [Val initElecPower, Val (RealV mechPower)] gen;
          res = make_part DP_Ph1 Resistor ''Rl'';
          res = setParameters [RealV Rload] res;
          res = connect [GND, n1] res;
          sys = SystemTopology 60 [n1] [gen, res];
          sim = simulation False name sys timeStep finalTime DP MNA
      in sim)"

definition DP_SynGen_TrStab_LoadStep :: program where
  "DP_SynGen_TrStab_LoadStep =
     (let timeStep = 0.0005;
          finalTime = 0.1;
          name = ''DP_SynGen_TrStab_Step'';
          nomPower = 555000000;
          nomPhPhVoltRMS = 24000;
          nomFreq = 60;
          H = 3.7;
          Ll = 0.15;
          Lmd = 1.6599;
          Llfd = 0.1648;
          initElecPower = ComplexV 300000000 0;
          initTerminalVolt = 24000;
          initVoltAngle = 0;
          initVoltage = ComplexV (initTerminalVolt * cos initVoltAngle) (initTerminalVolt * sin initVoltAngle);
          mechPower = 300000000;
          Rload = 1.92;
          RloadStep = 0.7;
          n1 = Node ''n1'' Single [initVoltage];
          gen = make_part DP_Ph1 SynchronGeneratorTrStab ''DP_SynGen_TrStab_Step_SynGen'';
          gen = call ''setFundamentalParametersPU''
                  (map (Val \<circ> RealV) [nomPower, nomPhPhVoltRMS, nomFreq, Ll, Lmd, Llfd, H]) gen;
          gen = connect [n1] gen;
          gen = call ''setInitialValues'' [Val initElecPower, Val (RealV mechPower)] gen;
          load = make_part DP_Ph1 Switch ''DP_SynGen_TrStab_Step_StepLoad'';
          load = setParameters [RealV Rload, RealV RloadStep] load;
          load = connect [GND, n1] load;
          load = call ''open'' [] load;
          sys = SystemTopology 60 [n1] [gen, load];
          logger = make_logger name;
          logger = log_attribute ''Current'' (PartAttr gen ''i_intf'') logger;
          sim = simulation False name sys timeStep finalTime DP MNA;
          sim = with_logger logger sim;
          sim = with_event 0.05 load True sim
      in sim)"

text \<open>The three initial voltages of a node with three phases.\<close>

definition init_voltages :: "real \<Rightarrow> real \<Rightarrow> val list" where
  "init_voltages v a =
     [ComplexV (v * cos a) (v * sin a),
      ComplexV (v * cos (a - 2 * pi / 3)) (v * sin (a - 2 * pi / 3)),
      ComplexV (v * cos (a + 2 * pi / 3)) (v * sin (a + 2 * pi / 3))]"

definition DP_SynGen_dq_SteadyState :: program where
  "DP_SynGen_dq_SteadyState =
     (let timeStep = 0.0005;
          finalTime = 0.03;
          name = ''DP_SynGen_dq_SteadyState'';
          nomPower = RealV 555000000;
          nomPhPhVoltRMS = RealV 24000;
          nomFreq = RealV 60;
          nomFieldCurr = RealV 1300;
          poleNum = IntV 2;
          H = RealV 3.7;
          Rs = RealV 0.003;
          Ll = RealV 0.15;
          Lmd = RealV 1.6599;
          Lmq = RealV 1.61;
          Rfd = RealV 0.0006;
          Llfd = RealV 0.1648;
          Rkd = RealV 0.0284;
          Llkd = RealV 0.1713;
          Rkq1 = RealV 0.0062;
          Llkq1 = RealV 0.7252;
          Rkq2 = RealV 0.0237;
          Llkq2 = RealV 0.125;
          initActivePower = RealV 300000000;
          initReactivePower = RealV 0;
          initMechPower = RealV 300000000;
          initTerminalVolt = 24000 / sqrt 3 * sqrt 2;
          initVoltAngle = - pi / 2;
          fieldVoltage = RealV 7.0821;
          Rload = 1.92;
          initVoltN1 = init_voltages initTerminalVolt initVoltAngle;
          n1 = Node ''n1'' ABC initVoltN1;
          gen = make_part DP_Ph3 SynchronGeneratorDQ ''DP_SynGen_dq_SteadyState_SynGen'';
          gen = call ''setFundamentalParametersPU''
                  (map Val [nomPower, nomPhPhVoltRMS, nomFreq, poleNum, nomFieldCurr,
                     Rs, Ll, Lmd, Lmq, Rfd, Llfd, Rkd, Llkd, Rkq1, Llkq1, Rkq2, Llkq2, H,
                     initActivePower, initReactivePower, RealV initTerminalVolt, RealV initVoltAngle,
                     fieldVoltage, initMechPower]) gen;
          gen = connect [n1] gen;
          res = make_part DP_Ph3 SeriesResistor ''R_load'';
          res = setParameters [RealV Rload] res;
          res = connect [GND, n1] res;
          sys = SystemTopology 60 [n1] [gen, res];
          sim = simulation False name sys timeStep finalTime DP MNA
      in sim)"

definition DP_SynGen_dq_ThreePhFault :: program where
  "DP_SynGen_dq_ThreePhFault =
     (let timeStep = 0.00005;
          finalTime = 0.1;
          simName = ''DP_SynchronGenerator_dq_ThreePhFault'';
          nomPower = RealV 555000000;
          nomPhPhVoltRMS = RealV 24000;
          nomFreq = RealV 60;
          nomFieldCurr = RealV 1300;
          poleNum = IntV 2;
          H = RealV 3.7;
          Rs = RealV 0.003;
          Ll = RealV 0.15;
          Lmd = RealV 1.6599;
          Lmq = RealV 1.61;
          Rfd = RealV 0.0006;
          Llfd = RealV 0.1648;
          Rkd = RealV 0.0284;
          Llkd = RealV 0.1713;
          Rkq1 = RealV 0.0062;
          Llkq1 = RealV 0.7252;
          Rkq2 = RealV 0.0237;
          Llkq2 = RealV 0.125;
          initActivePower = RealV 300000000;
          initReactivePower = RealV 0;
          initTerminalVolt = 24000 / sqrt 3 * sqrt 2;
          initVoltAngle = - pi / 2;
          fieldVoltage = RealV 7.0821;
          mechPower = RealV 300000000;
          Rload = 1.92;
          BreakerOpen = 1000000;
          BreakerClosed = 0.000001;
          initVoltN1 = init_voltages initTerminalVolt initVoltAngle;
          n1 = Node ''n1'' ABC initVoltN1;
          gen = make_part DP_Ph3 SynchronGeneratorDQ ''DP_SynGen_dq_ThreePhFault_SynGen'';
          gen = call ''setFundamentalParametersPU''
                  (map Val [nomPower, nomPhPhVoltRMS, nomFreq, poleNum, nomFieldCurr,
                     Rs, Ll, Lmd, Lmq, Rfd, Llfd, Rkd, Llkd, Rkq1, Llkq1, Rkq2, Llkq2, H,
                     initActivePower, initReactivePower, RealV initTerminalVolt, RealV initVoltAngle,
                     fieldVoltage, mechPower]) gen;
          res = make_part DP_Ph3 SeriesResistor ''R_load'';
          res = setParameters [RealV Rload] res;
          fault = make_part DP_Ph3 SeriesSwitch ''Br_fault'';
          fault = setParameters [RealV BreakerOpen, RealV BreakerClosed] fault;
          fault = call ''open'' [] fault;
          gen = connect [n1] gen;
          res = connect [GND, n1] res;
          fault = connect [GND, n1] fault;
          sys = SystemTopology 60 [n1] [gen, res, fault];
          logger = make_logger simName;
          logger = log_attribute ''i'' (PartAttr gen ''i_intf'') logger;
          logger = log_attribute ''theta'' (PartAttr gen ''theta'') logger;
          sim = simulation False simName sys timeStep finalTime DP MNA;
          sim = with_logger logger sim;
          sim = with_event 0.05 fault True sim
      in sim)"

section \<open>All of them\<close>

definition offline_examples :: "program list" where
  "offline_examples =
     [DP_VS_R1, DP_CS_R1, DP_VS_RL1, DP_VS_RC1, DP_CS_R2CL, DP_VS_CS_R4, DP_VS_R2L3,
      EMT_VS_R1, EMT_VS_RC1, EMT_CS_R1, EMT_VS_RL1, EMT_CS_R2CL, EMT_VS_R2L3, EMT_VS_CS_R4_AC, EMT_VS_CS_R4_DC,
      ShmemDistributedReference, DP_SynGen_TrStab_SteadyState, DP_SynGen_TrStab_LoadStep,
      DP_SynGen_dq_SteadyState, DP_SynGen_dq_ThreePhFault]"

definition realtime_examples :: "program list" where
  "realtime_examples = [RT_DP_CS_R_1, RT_DP_ResVS_RL1]"

definition circuit_examples :: "program list" where
  "circuit_examples = offline_examples @ realtime_examples @ [DAE_DP_test]"

text \<open>Two programs that the build leaves out although the functions they call are still there; the names
  contain \<open>std::to_string(timeStep)\<close>.\<close>

definition DP_VS_PiLine_R :: program where
  "DP_VS_PiLine_R =
     (let n1 = Node_make ''n1'';
          n2 = Node_make ''n2'';
          vs = make_part DP_Ph1 VoltageSource ''v_1'';
          line = make_part DP_Ph1 RxLine ''Line_1'';
          r = make_part DP_Ph1 Resistor ''r_1'';
          vs = connect [GND, n1] vs;
          line = connect [n1, n2] line;
          r = connect [n2, GND] r;
          vs = setParameters [ComplexV 10 0] vs;
          line = setParameters [RealV 0.1, RealV 0.001] line;
          r = setParameters [RealV 20] r;
          sys = SystemTopology 50 [n1, n2] [vs, line, r];
          timeStep = 0.00001;
          finalTime = 0.1;
          simName = ''DP_IdealVS_RxLine1_0.000010'';
          sim = simulation False simName sys timeStep finalTime DP MNA
      in sim)"

definition DP_VS_Trafo_R :: program where
  "DP_VS_Trafo_R =
     (let n1 = Node_make ''n1'';
          n2 = Node_make ''n2'';
          n3 = Node_make ''n3'';
          v1 = make_part DP_Ph1 VoltageSource ''v_1'';
          t1 = make_part DP_Ph1 Transformer ''trafo_1'';
          r1 = make_part DP_Ph1 Resistor ''r_1'';
          v1 = connect [GND, n1] v1;
          t1 = connect [n1, n2] t1;
          r1 = connect [n2, GND] r1;
          v1 = setParameters [ComplexV 100 0] v1;
          t1 = setParameters [RealV 10, RealV 0, RealV 0, RealV 0.1] t1;
          r1 = setParameters [RealV 1] r1;
          system = SystemTopology 50 [n1, n2, n3, GND] [v1, t1, r1];
          timeStep = 0.00005;
          finalTime = 0.2;
          simName = ''DP_IdealVS_Trafo_0.000050'';
          sim = simulation False simName system timeStep finalTime DP MNA
      in sim)"

end
