(* ===== verification/ExampleRuns.thy ===== *)
theory ExampleRuns
  imports ExampleCircuits MNAShape
begin

text \<open>
  What holds of the example programs: the topologies are complete, apart from one floating node; every
  offline example runs to its end with the expected number of steps; and what the floating node means
  for the system matrix.
\<close>

section \<open>Complete programs\<close>

text \<open>The number of nodes that a component of a class connects.\<close>

fun terminals :: "comp_class \<Rightarrow> nat" where
  "terminals SynchronGeneratorTrStab = 1"
| "terminals SynchronGeneratorDQ = 1"
| "terminals PQLoadCS = 1"
| "terminals FIRFilter = 0"
| "terminals _ = 2"

definition is_switch :: "part \<Rightarrow> bool" where
  "is_switch p \<longleftrightarrow> part_class p = Switch \<or> part_class p = SeriesSwitch"

fun belongs :: "topology \<Rightarrow> source \<Rightarrow> bool" where
  "belongs sys (NodeAttr n a) = (n \<in> set (top_nodes sys))"
| "belongs sys (PartAttr p a) = (p \<in> set (top_parts sys))"
| "belongs sys (Mag a) = belongs sys a"
| "belongs sys (Phase a) = belongs sys a"

definition connected :: "topology \<Rightarrow> bool" where
  "connected sys \<longleftrightarrow> (\<forall>p \<in> set (top_parts sys). set (part_nodes p) \<subseteq> insert GND (set (top_nodes sys))
     \<and> length (part_nodes p) = terminals (part_class p))"

definition prg_steps :: "program \<Rightarrow> nat" where
  "prg_steps prg = nat \<lfloor>prg_finalTime prg / prg_timeStep prg\<rfloor>"

text \<open>Every terminal is connected to the ground or to a node of the topology; no node and no component is
  listed twice; loggers and events refer to objects of the topology; every event switches a switch
  before the end; and the components are made for the domain of the simulation.\<close>

definition complete :: "program \<Rightarrow> bool" where
  "complete prg \<longleftrightarrow> connected (prg_system prg) \<and> top_parts (prg_system prg) \<noteq> []
     \<and> distinct (top_nodes (prg_system prg)) \<and> distinct (top_parts (prg_system prg))
     \<and> (\<forall>l \<in> set (prg_loggers prg). distinct (map fst (dl_attributes l))
          \<and> (\<forall>(name, a) \<in> set (dl_attributes l). belongs (prg_system prg) a))
     \<and> (\<forall>(t, c, b) \<in> set (prg_events prg). c \<in> set (top_parts (prg_system prg)) \<and> is_switch c \<and> 0 \<le> t \<and> t < prg_finalTime prg)
     \<and> (\<forall>p \<in> set (top_parts (prg_system prg)). part_namespace p = EMT_Ph1 \<longleftrightarrow> prg_domain prg = EMT)"

text \<open>The final time is a whole number of time steps.\<close>

definition whole_steps :: "program \<Rightarrow> bool" where
  "whole_steps prg \<longleftrightarrow> 0 < prg_timeStep prg \<and> prg_finalTime prg = real (prg_steps prg) * prg_timeStep prg"

text \<open>Nodes of a topology that no component is connected to, and names that two components share.\<close>

definition floating_nodes :: "topology \<Rightarrow> node_obj list" where
  "floating_nodes sys = filter (\<lambda>n. n \<noteq> GND \<and> (\<forall>p \<in> set (top_parts sys). n \<notin> set (part_nodes p))) (top_nodes sys)"

definition shared_names :: "topology \<Rightarrow> string list" where
  "shared_names sys = filter (\<lambda>x. 1 < length (filter (\<lambda>p. part_name p = x) (top_parts sys)))
     (remdups (map part_name (top_parts sys)))"

lemmas check_defs = complete_def connected_def belongs.simps is_switch_def prg_steps_def program_defs

lemma complete_DP_circuits:
  "complete DP_VS_R1" "complete DP_CS_R1" "complete DP_VS_RL1" "complete DP_VS_RC1" "complete DP_CS_R2CL"
  "complete DP_VS_CS_R4" "complete DP_VS_R2L3"
  by (simp_all add: check_defs DP_VS_R1_def DP_CS_R1_def DP_VS_RL1_def DP_VS_RC1_def DP_CS_R2CL_def
      DP_VS_CS_R4_def DP_VS_R2L3_def)

lemma complete_EMT_circuits:
  "complete EMT_VS_R1" "complete EMT_VS_RC1" "complete EMT_CS_R1" "complete EMT_VS_RL1" "complete EMT_CS_R2CL"
  "complete EMT_VS_R2L3" "complete EMT_VS_CS_R4_AC" "complete EMT_VS_CS_R4_DC"
  by (simp_all add: check_defs EMT_VS_R1_def EMT_VS_RC1_def EMT_CS_R1_def EMT_VS_RL1_def EMT_CS_R2CL_def
      EMT_VS_R2L3_def EMT_VS_CS_R4_AC_def EMT_VS_CS_R4_DC_def)

lemma complete_other:
  "complete ShmemDistributedReference" "complete RT_DP_CS_R_1" "complete RT_DP_ResVS_RL1" "complete DAE_DP_test"
  by (simp_all add: check_defs ShmemDistributedReference_def RT_DP_CS_R_1_def RT_DP_ResVS_RL1_def DAE_DP_test_def)

lemma complete_generators:
  "complete DP_SynGen_TrStab_SteadyState" "complete DP_SynGen_TrStab_LoadStep"
  "complete DP_SynGen_dq_SteadyState" "complete DP_SynGen_dq_ThreePhFault"
  by (simp_all add: check_defs DP_SynGen_TrStab_SteadyState_def DP_SynGen_TrStab_LoadStep_def
      DP_SynGen_dq_SteadyState_def DP_SynGen_dq_ThreePhFault_def)

lemma all_circuit_examples:
  assumes "P DP_VS_R1" and "P DP_CS_R1" and "P DP_VS_RL1" and "P DP_VS_RC1" and "P DP_CS_R2CL" and "P DP_VS_CS_R4"
    and "P DP_VS_R2L3" and "P EMT_VS_R1" and "P EMT_VS_RC1" and "P EMT_CS_R1" and "P EMT_VS_RL1" and "P EMT_CS_R2CL"
    and "P EMT_VS_R2L3" and "P EMT_VS_CS_R4_AC" and "P EMT_VS_CS_R4_DC" and "P ShmemDistributedReference"
    and "P DP_SynGen_TrStab_SteadyState" and "P DP_SynGen_TrStab_LoadStep" and "P DP_SynGen_dq_SteadyState"
    and "P DP_SynGen_dq_ThreePhFault"
  shows "\<forall>prg \<in> set offline_examples. P prg"
  using assms by (simp add: offline_examples_def)

lemma floating_circuits:
  "floating_nodes (prg_system DP_VS_R1) = []" "floating_nodes (prg_system DP_CS_R1) = []"
  "floating_nodes (prg_system DP_VS_RL1) = []" "floating_nodes (prg_system DP_VS_RC1) = []"
  "floating_nodes (prg_system DP_CS_R2CL) = []" "floating_nodes (prg_system DP_VS_CS_R4) = []"
  "floating_nodes (prg_system DP_VS_R2L3) = []" "floating_nodes (prg_system EMT_VS_R1) = [Node_make ''n3'']"
  "floating_nodes (prg_system EMT_VS_RC1) = []" "floating_nodes (prg_system EMT_CS_R1) = []"
  "floating_nodes (prg_system EMT_VS_RL1) = []" "floating_nodes (prg_system EMT_CS_R2CL) = []"
  "floating_nodes (prg_system EMT_VS_R2L3) = []" "floating_nodes (prg_system EMT_VS_CS_R4_AC) = []"
  "floating_nodes (prg_system EMT_VS_CS_R4_DC) = []"
  by (simp_all add: floating_nodes_def program_defs DP_VS_R1_def DP_CS_R1_def DP_VS_RL1_def DP_VS_RC1_def
      DP_CS_R2CL_def DP_VS_CS_R4_def DP_VS_R2L3_def EMT_VS_R1_def EMT_VS_RC1_def EMT_CS_R1_def EMT_VS_RL1_def
      EMT_CS_R2CL_def EMT_VS_R2L3_def EMT_VS_CS_R4_AC_def EMT_VS_CS_R4_DC_def)

lemma floating_other:
  "floating_nodes (prg_system ShmemDistributedReference) = []" "floating_nodes (prg_system RT_DP_CS_R_1) = []"
  "floating_nodes (prg_system RT_DP_ResVS_RL1) = []" "floating_nodes (prg_system DAE_DP_test) = []"
  "floating_nodes (prg_system DP_SynGen_TrStab_SteadyState) = []" "floating_nodes (prg_system DP_SynGen_TrStab_LoadStep) = []"
  "floating_nodes (prg_system DP_SynGen_dq_SteadyState) = []" "floating_nodes (prg_system DP_SynGen_dq_ThreePhFault) = []"
  by (simp_all add: floating_nodes_def program_defs ShmemDistributedReference_def RT_DP_CS_R_1_def RT_DP_ResVS_RL1_def
      DAE_DP_test_def DP_SynGen_TrStab_SteadyState_def DP_SynGen_TrStab_LoadStep_def
      DP_SynGen_dq_SteadyState_def DP_SynGen_dq_ThreePhFault_def)

lemma shared_circuits:
  "shared_names (prg_system DP_VS_R1) = []" "shared_names (prg_system DP_CS_R1) = []"
  "shared_names (prg_system DP_VS_RL1) = []" "shared_names (prg_system DP_VS_RC1) = []"
  "shared_names (prg_system DP_CS_R2CL) = []" "shared_names (prg_system DP_VS_CS_R4) = []"
  "shared_names (prg_system DP_VS_R2L3) = []" "shared_names (prg_system EMT_VS_R1) = []"
  "shared_names (prg_system EMT_VS_RC1) = []" "shared_names (prg_system EMT_CS_R1) = []"
  "shared_names (prg_system EMT_VS_RL1) = []" "shared_names (prg_system EMT_CS_R2CL) = []"
  "shared_names (prg_system EMT_VS_R2L3) = []" "shared_names (prg_system EMT_VS_CS_R4_AC) = []"
  "shared_names (prg_system EMT_VS_CS_R4_DC) = []"
  by (simp_all add: shared_names_def program_defs DP_VS_R1_def DP_CS_R1_def DP_VS_RL1_def DP_VS_RC1_def
      DP_CS_R2CL_def DP_VS_CS_R4_def DP_VS_R2L3_def EMT_VS_R1_def EMT_VS_RC1_def EMT_CS_R1_def EMT_VS_RL1_def
      EMT_CS_R2CL_def EMT_VS_R2L3_def EMT_VS_CS_R4_AC_def EMT_VS_CS_R4_DC_def)

lemma shared_other:
  "shared_names (prg_system ShmemDistributedReference) = [''r_2'']" "shared_names (prg_system RT_DP_CS_R_1) = []"
  "shared_names (prg_system RT_DP_ResVS_RL1) = []" "shared_names (prg_system DAE_DP_test) = []"
  "shared_names (prg_system DP_SynGen_TrStab_SteadyState) = []" "shared_names (prg_system DP_SynGen_TrStab_LoadStep) = []"
  "shared_names (prg_system DP_SynGen_dq_SteadyState) = []" "shared_names (prg_system DP_SynGen_dq_ThreePhFault) = []"
  by (simp_all add: shared_names_def program_defs ShmemDistributedReference_def RT_DP_CS_R_1_def RT_DP_ResVS_RL1_def
      DAE_DP_test_def DP_SynGen_TrStab_SteadyState_def DP_SynGen_TrStab_LoadStep_def
      DP_SynGen_dq_SteadyState_def DP_SynGen_dq_ThreePhFault_def)

lemma whole_steps_other: "whole_steps RT_DP_CS_R_1" "whole_steps RT_DP_ResVS_RL1" "whole_steps DAE_DP_test"
  by (simp_all add: whole_steps_def prg_steps_def program_defs RT_DP_CS_R_1_def RT_DP_ResVS_RL1_def DAE_DP_test_def)

text \<open>What the number of steps and the events of the offline examples are like.\<close>

definition runs_alone :: "program \<Rightarrow> bool" where
  "runs_alone prg \<longleftrightarrow> prg_interfaces prg = [] \<and> \<not> prg_steadyState prg \<and> prg_solver prg = MNA
     \<and> top_parts (prg_system prg) \<noteq> [] \<and> length (filter is_switch (top_parts (prg_system prg))) \<le> 1
     \<and> prg_steps prg \<le> 20000 \<and> 1 / 100000 \<le> prg_timeStep prg \<and> prg_timeStep prg \<le> 1
     \<and> whole_steps prg \<and> length (prg_events prg) \<le> 1
     \<and> (\<forall>(t, c, b) \<in> set (prg_events prg). t = real (nat \<lfloor>t / prg_timeStep prg\<rfloor>) * prg_timeStep prg
          \<and> nat \<lfloor>t / prg_timeStep prg\<rfloor> + 2 \<le> prg_steps prg)"

lemma offline_examples_alone: "\<forall>prg \<in> set offline_examples. runs_alone prg"
  by (rule all_circuit_examples; simp add: runs_alone_def whole_steps_def prg_steps_def is_switch_def program_defs
      DP_VS_R1_def DP_CS_R1_def DP_VS_RL1_def DP_VS_RC1_def
      DP_CS_R2CL_def DP_VS_CS_R4_def DP_VS_R2L3_def EMT_VS_R1_def EMT_VS_RC1_def EMT_CS_R1_def EMT_VS_RL1_def
      EMT_CS_R2CL_def EMT_VS_R2L3_def EMT_VS_CS_R4_AC_def EMT_VS_CS_R4_DC_def ShmemDistributedReference_def
      DP_SynGen_TrStab_SteadyState_def DP_SynGen_TrStab_LoadStep_def
      DP_SynGen_dq_SteadyState_def DP_SynGen_dq_ThreePhFault_def)

lemma offline_examples_whole: "list_all whole_steps offline_examples"
  using offline_examples_alone by (simp add: list_all_iff runs_alone_def)

text \<open>the example programs are complete: every terminal is connected to the ground or to a node of
  the topology, loggers and events refer to objects of the topology, events come before the end, and the
  final time is a whole number of steps. There are two exceptions to what one expects beyond that: node
  \<open>n3\<close> of \<open>EMT_VS_R1\<close> is connected to nothing, and two components of \<open>ShmemDistributedReference\<close> share the
  name \<open>r_2\<close>.\<close>

theorem examples_complete:
  "list_all complete circuit_examples \<and> list_all whole_steps circuit_examples
   \<and> concat (map (\<lambda>prg. floating_nodes (prg_system prg)) circuit_examples) = [Node_make ''n3'']
   \<and> floating_nodes (prg_system EMT_VS_R1) = [Node_make ''n3'']
   \<and> concat (map (\<lambda>prg. shared_names (prg_system prg)) circuit_examples) = [''r_2'']
   \<and> shared_names (prg_system ShmemDistributedReference) = [''r_2'']"
proof -
  have "list_all whole_steps circuit_examples"
    using offline_examples_whole whole_steps_other by (simp add: circuit_examples_def realtime_examples_def)
  then show ?thesis
    by (simp add: circuit_examples_def offline_examples_def realtime_examples_def complete_DP_circuits complete_EMT_circuits
        complete_other complete_generators floating_circuits floating_other shared_circuits shared_other)
qed

section \<open>Running a program\<close>

lemma MnaSolver_initialize_returns:
  assumes "\<not> mSteadyStateInit m" and "mSwitches m = []" and "sysComponents sys \<noteq> []"
    and "length (filter (asSwitch cps) (sysComponents sys)) \<le> 32"
  shows "\<exists>m' w'. MnaSolver_initialize cps rnd fmt sys (m, w) = Some (Ok (m', w')) \<and> mna_mTimeStep m' = mna_mTimeStep m"
proof -
  obtain m1 w1 where 1: "prepare_topology cps sys (m, w) = (m1, w1)" by fastforce
  have m1: "mSwitches m1 = filter (asSwitch cps) (sysComponents sys)" "\<not> mSteadyStateInit m1"
    using prepare_topology_switches[of cps sys m w] assms 1 by simp_all
  have dt: "mna_mTimeStep m1 = mna_mTimeStep m"
    using arg_cong[OF 1, of "\<lambda>s. mna_mTimeStep (fst s)"]
    by (simp add: prepare_topology_def identifyTopologyObjects_def createVirtualNodes_def assignSimNodes_def
        sortExecutionPriority_def createEmptyVectors_def Let_def split_def)
  obtain m2 where m2: "createEmptySystemMatrix m1 = Ok m2" "mna_mTimeStep m2 = mna_mTimeStep m1" "\<not> mSteadyStateInit m2"
    using assms(4) m1 by (simp add: createEmptySystemMatrix_def SWITCH_NUM_def Let_def)
  obtain m3 w3 where 3: "initialize_components cps (m2, w1) = (m3, w3)" by fastforce
  have m3: "mna_mTimeStep m3 = mna_mTimeStep m2" "\<not> mSteadyStateInit m3"
    using arg_cong[OF 3, of fst] m2(3) by (auto simp: initialize_components_def Let_def)
  have "mna_mTimeStep (fst (initialize_matrices cps (m3, w3))) = mna_mTimeStep m3"
    by (simp add: initialize_matrices_def updateSwitchStatus_def Let_def)
  then show ?thesis
    using assms(3) m3 m2 dt by (cases "initialize_matrices cps (m3, w3)") (auto simp: MnaSolver_initialize_def 1 3)
qed

lemma addAttribute_Ok: "a \<noteq> OtherAttr \<Longrightarrow> \<exists>l'. addAttribute name a l = Ok l'"
  by (cases a) auto

definition loggable :: "'w objects \<Rightarrow> program \<Rightarrow> bool" where
  "loggable ob prg \<longleftrightarrow> (\<forall>l \<in> set (prg_loggers prg). \<forall>(name, a) \<in> set (dl_attributes l). ob_logged ob a \<noteq> OtherAttr)"

lemma fill_loggers_Ok:
  assumes "\<forall>l \<in> set dls. \<forall>(name, a) \<in> set (dl_attributes l). ob_logged ob a \<noteq> OtherAttr"
  shows "\<exists>ls. fill_loggers ob opened dls = Inr ls"
  using assms
proof (induction dls)
  case (Cons dl dls)
  have "\<exists>l'. for_each (\<lambda>(name, a). addAttribute name (ob_logged ob a)) xs l = Ok l'"
    if "\<forall>(name, a) \<in> set xs. ob_logged ob a \<noteq> OtherAttr" for xs l
    using that
  proof (induction xs arbitrary: l)
    case (Cons x xs)
    obtain name a where x: "x = (name, a)" by (cases x)
    then obtain l1 where "addAttribute name (ob_logged ob a) l = Ok l1" using Cons.prems addAttribute_Ok by fastforce
    then show ?case using Cons by (simp add: x)
  qed simp
  then obtain l where "fill_logger ob opened dl = Ok l" using Cons.prems by (fastforce simp: fill_logger_def)
  then show ?case using Cons by auto
qed simp

text \<open>The two programs that are not built are complete too, but a node of one is connected to nothing, and it
  lists the ground among its nodes.\<close>

lemma left_out_examples:
  "complete DP_VS_PiLine_R" "whole_steps DP_VS_PiLine_R" "floating_nodes (prg_system DP_VS_PiLine_R) = []"
  "complete DP_VS_Trafo_R" "whole_steps DP_VS_Trafo_R" "floating_nodes (prg_system DP_VS_Trafo_R) = [Node_make ''n3'']"
  by (simp_all add: check_defs whole_steps_def floating_nodes_def DP_VS_PiLine_R_def DP_VS_Trafo_R_def)

text \<open>What \<open>addLogger\<close>, \<open>addEvent\<close> and \<open>addInterface\<close> leave of the simulation.\<close>

definition same_setup :: "('s, 'd, 'w, 'e) sim \<Rightarrow> ('s, 'd, 'w, 'e) sim \<Rightarrow> bool" where
  "same_setup s t \<longleftrightarrow> mInterfaces t = mInterfaces s \<and> sim_mTime t = sim_mTime s \<and> mTimeStepCount t = mTimeStepCount s
     \<and> mSolver t = mSolver s \<and> mFinalTime t = mFinalTime s"

lemma add_events:
  fixes s :: "('s, 'd, 'w, 'e) sim"
  shows "same_setup s (fold sim_addEvent es s) \<and> mLoggers (fold sim_addEvent es s) = mLoggers s
     \<and> (heap_ok mTime (mEvents s) \<longrightarrow> heap_ok mTime (mEvents (fold sim_addEvent es s)))
     \<and> mset (mEvents (fold sim_addEvent es s)) = mset es + mset (mEvents s)"
  by (induction es arbitrary: s)
     (simp_all add: same_setup_def sim_addEvent_def heap_push_ok addEvent_def mset_heap_push)

lemma add_loggers:
  fixes s :: "('s, 'd, 'w, 'e) sim"
  shows "same_setup s (fold (\<lambda>p. addLogger p 1) ps s) \<and> mEvents (fold (\<lambda>p. addLogger p 1) ps s) = mEvents s
     \<and> mLoggers (fold (\<lambda>p. addLogger p 1) ps s) = mLoggers s @ map (\<lambda>p. \<lparr>lgm_logger = p, lgm_downsampling = 1\<rparr>) ps"
  by (induction ps arbitrary: s) (simp_all add: same_setup_def addLogger_def)

definition prg_queue :: "(real \<Rightarrow> real) \<Rightarrow> 'w objects \<Rightarrow> program \<Rightarrow> event list" where
  "prg_queue rnd ob prg = map (\<lambda>(t, c, b). SwitchEvent (rnd t) (ob_comp ob c) b) (prg_events prg)"

lemma add_all_offline:
  fixes s :: "('s, 'd, 'w, 'e) sim"
  assumes "prg_interfaces prg = []" and "mEvents s = []" and "mLoggers s = []"
  shows "same_setup s (add_all rnd ob prg s)" and "\<forall>lg \<in> set (mLoggers (add_all rnd ob prg s)). lgm_downsampling lg = 1"
    and "heap_ok mTime (mEvents (add_all rnd ob prg s))" and "mset (mEvents (add_all rnd ob prg s)) = mset (prg_queue rnd ob prg)"
proof -
  let ?s = "fold (\<lambda>p. addLogger p 1) [0..<length (prg_loggers prg)] s"
  have a: "add_all rnd ob prg s = fold sim_addEvent (prg_queue rnd ob prg) ?s"
    using assms(1) by (simp add: add_all_def prg_queue_def fold_map comp_def split_def)
  note E = add_events[of ?s "prg_queue rnd ob prg"] and G = add_loggers[of s "[0..<length (prg_loggers prg)]"]
  show "same_setup s (add_all rnd ob prg s)" using E G unfolding a same_setup_def by (elim conjE) simp
  show "\<forall>lg \<in> set (mLoggers (add_all rnd ob prg s)). lgm_downsampling lg = 1"
    using E G assms(3) unfolding a by auto
  show "heap_ok mTime (mEvents (add_all rnd ob prg s))" using E G assms(2) unfolding a by simp
  show "mset (mEvents (add_all rnd ob prg s)) = mset (prg_queue rnd ob prg)" using E G assms(2) unfolding a by simp
qed

text \<open>A program without interfaces and without steady state initialisation sets up a simulation in which
  nothing can fail.\<close>

lemma program_sim_quiet:
  fixes vil :: "nat \<Rightarrow> ('d, 'e) villas" and cps :: "('w, 'lu) cps_mna"
  assumes "loggable ob prg" and "prg_interfaces prg = []" and "\<not> prg_steadyState prg" and "top_parts (prg_system prg) \<noteq> []"
    and "length (filter (\<lambda>p. asSwitch cps (ob_comp ob p)) (top_parts (prg_system prg))) \<le> 32"
  shows "\<exists>s. program_sim cps rnd fmt vil so ob opened e prg = Some (Inr s) \<and> quiet (mna_lib cps rnd fmt vil toString) s
     \<and> sim_mTime s = 0 \<and> mTimeStepCount s = 0 \<and> mna_mTimeStep (mSolver s) = rnd (prg_timeStep prg)
     \<and> mFinalTime s = rnd (prg_finalTime prg) \<and> mset (mEvents s) = mset (prg_queue rnd ob prg)"
proof -
  obtain ls where ls: "fill_loggers ob opened (prg_loggers prg) = Inr ls"
    using fill_loggers_Ok assms(1) unfolding loggable_def by blast
  let ?sys = "system_of ob (prg_system prg)"
    and ?m = "MnaSolver_new cps (prg_domain prg = DP) opened True (rnd (prg_timeStep prg)) (prg_domain prg) (prg_steadyState prg)"
  have "sysComponents ?sys \<noteq> []" "length (filter (asSwitch cps) (sysComponents ?sys)) \<le> 32"
    using assms(4,5) by (simp_all add: system_of_def filter_map comp_def)
  then obtain m w where m: "MnaSolver_initialize cps rnd fmt ?sys (?m, ob_world ob (prg_system prg)) = Some (Ok (m, w))"
      "mna_mTimeStep m = rnd (prg_timeStep prg)"
    using MnaSolver_initialize_returns[of ?m ?sys cps rnd fmt "ob_world ob (prg_system prg)"] assms(3)
    by (auto simp: MnaSolver_new_def)
  define s0 :: "('lu mna, 'd, 'w, 'e) sim" where "s0 = Simulation_new (prg_name prg) (rnd (prg_timeStep prg)) (rnd (prg_finalTime prg)) m
     (\<lambda>p. bind_interface (cps_attrs.truncate cps) so ob (vil p) (fst (prg_interfaces prg ! p))) (\<lambda>p. ls ! p) w e"
  have sim: "program_sim cps rnd fmt vil so ob opened e prg = Some (Inr (add_all rnd ob prg s0))"
    using ls m(1) by (simp add: program_sim_def Simulation_new_MNA_def s0_def)
  have s0: "mEvents s0 = []" "mLoggers s0 = []" "mInterfaces s0 = []" "sim_mTime s0 = 0" "mTimeStepCount s0 = 0"
    "mSolver s0 = m" "mFinalTime s0 = rnd (prg_finalTime prg)" by (simp_all add: s0_def Simulation_new_def)
  note add = add_all_offline[OF assms(2) s0(1,2), of rnd ob]
  have "set (mEvents (add_all rnd ob prg s0)) = set (prg_queue rnd ob prg)" using add(4) by (metis set_mset_mset)
  then have "returned (execute a ev v)" if "ev \<in> set (mEvents (add_all rnd ob prg s0))" for a ev v
    using that by (auto simp: prg_queue_def)
  then have "quiet (mna_lib cps rnd fmt vil toString) (add_all rnd ob prg s0)"
    using add(1-3) s0 by (auto simp: quiet_def same_setup_def)
  then show ?thesis using sim add(1,4) s0 m(2) by (intro exI[of _ "add_all rnd ob prg s0"]) (simp add: same_setup_def)
qed

lemma length_filter_imp: "(\<And>x. x \<in> set xs \<Longrightarrow> P x \<Longrightarrow> Q x) \<Longrightarrow> length (filter P xs) \<le> length (filter Q xs)"
  by (induction xs) (auto intro: le_SucI)

lemma program_runs:
  fixes cps :: "('w, 'lu) cps_mna" and vil :: "nat \<Rightarrow> ('d, 'e) villas"
  assumes alone: "runs_alone prg" and acc: "accurate (1 / 2 ^ 53) rnd" and log: "loggable ob prg"
    and sw: "\<forall>p \<in> set (top_parts (prg_system prg)). asSwitch cps (ob_comp ob p) \<longrightarrow> is_switch p"
  shows "\<exists>s' n. run_offline cps rnd fmt vil so toString ob opened e prg = Some (Inr s')
     \<and> mTimeStepCount s' = int n \<and> (n = prg_steps prg \<or> n = prg_steps prg + 1) \<and> mEvents s' = []"
proof -
  let ?L = "mna_lib cps rnd fmt vil toString" and ?N = "prg_steps prg" and ?dt = "prg_timeStep prg"
  have "length (filter (\<lambda>p. asSwitch cps (ob_comp ob p)) (top_parts (prg_system prg))) \<le> 1"
    using length_filter_imp[of "top_parts (prg_system prg)" "\<lambda>p. asSwitch cps (ob_comp ob p)" is_switch] sw alone
    by (auto simp: runs_alone_def)
  then obtain s where s: "program_sim cps rnd fmt vil so ob opened e prg = Some (Inr s)" "quiet ?L s" "sim_mTime s = 0"
      "mTimeStepCount s = 0" "mna_mTimeStep (mSolver s) = rnd ?dt" "mFinalTime s = rnd (real ?N * ?dt)"
      "mset (mEvents s) = mset (prg_queue rnd ob prg)"
    using program_sim_quiet[OF log, of cps rnd fmt vil so opened e toString] alone by (auto simp: runs_alone_def whole_steps_def)
  have N: "?N \<le> 20000" and dt: "1 / 100000 \<le> ?dt" "?dt \<le> 1" using alone by (simp_all add: runs_alone_def)
  have "(real ?N + 3)\<^sup>2 \<le> 20003\<^sup>2" using N by (intro power_mono) auto
  then have h: "(real ?N + 3)\<^sup>2 * (1 / 2 ^ 53) \<le> 1" "(0 :: real) \<le> 1 / 2 ^ 53" "?N < 2147483647" using N by simp_all
  have lo: "1 / 10 ^ 300 \<le> ?dt" using dt(1) by (rule order_trans[rotated]) simp
  have "(real ?N + 2) * ?dt \<le> (20002 :: real) * 1" using N dt by (intro mult_mono) auto
  then have hi: "(real ?N + 2) * ?dt \<le> 10 ^ 300" by (rule order_trans) simp
  obtain s' s2 ss ess where tr: "run_trace ?L s ss s2" and run: "Simulation_run ?L s = Some (Ok s')" "mTimeStepCount s' = int (length ss)"
      "length ss = ?N \<or> length ss = ?N + 1" "mset (mEvents s) = mset (concat ess) + mset (mEvents s')"
      "\<forall>ev \<in> set (mEvents s). \<forall>k. mTime ev = rnd (real k * ?dt) \<longrightarrow> k + 2 \<le> ?N \<longrightarrow> (\<exists>i \<in> {k, k + 1}. i < length ess \<and> ev \<in> set (ess ! i))"
    using mna_clock.rounded_run[OF acc h(2,1,3) lo hi s(2-6)] by blast
  have ev: "ev \<in> set (concat ess)" if "ev \<in> set (mEvents s)" for ev
  proof -
    have "ev \<in> set (prg_queue rnd ob prg)" using that s(7) by (metis set_mset_mset)
    then obtain t c b where t: "(t, c, b) \<in> set (prg_events prg)" "mTime ev = rnd t" by (auto simp: prg_queue_def)
    define k where "k = nat \<lfloor>t / ?dt\<rfloor>"
    have "\<forall>(t, c, b) \<in> set (prg_events prg). t = real (nat \<lfloor>t / ?dt\<rfloor>) * ?dt \<and> nat \<lfloor>t / ?dt\<rfloor> + 2 \<le> ?N"
      using alone by (simp add: runs_alone_def)
    from bspec[OF this t(1)] have k: "t = real k * ?dt" "k + 2 \<le> ?N" unfolding k_def by simp_all
    then have "mTime ev = rnd (real k * ?dt)" using t(2) by simp
    with run(5) that k(2) obtain i where "i < length ess" "ev \<in> set (ess ! i)" by blast
    then show ?thesis by (auto simp: set_concat_nth simp del: set_concat)
  qed
  have "length (mEvents s) \<le> 1"
    using alone arg_cong[OF s(7), of size] by (simp add: runs_alone_def prg_queue_def)
  moreover have "length (mEvents s) = length (concat ess) + length (mEvents s')"
    using arg_cong[OF run(4), of size] by simp
  moreover have "0 < length (concat ess)" if "mEvents s \<noteq> []"
    using length_pos_if_in_set[OF ev[OF hd_in_set[OF that]]] .
  ultimately have "length (mEvents s') = 0" by (cases "mEvents s = []") (simp, linarith)
  then have "mEvents s' = []" by simp
  then show ?thesis using s(1) run(1-3) by (auto simp: run_offline_def)
qed


section \<open>A node that nothing is connected to\<close>

text \<open>The row of the system matrix that belongs to node \<open>i\<close> of the solver (its first phase).\<close>

definition row_of_node :: "'lu mna \<Rightarrow> nat \<Rightarrow> nat" where
  "row_of_node m i = unat (simNodes (mNodes m ! i) ! 0)"

lemma assign_loop_lengths:
  "assign_loop numNet idx sim netSim ns = (ns', sim', netSim') \<Longrightarrow>
   map (\<lambda>n. length (simNodes n)) ns' = map (\<lambda>n. length (simNodes n)) ns"
proof (induction ns arbitrary: idx sim netSim ns')
  case (Cons n ns)
  have "length (simNodes (assigned_node s n)) = length (simNodes n)" for s
    by (simp add: assigned_node_def setSimNode_def)
  then show ?case using Cons by (auto simp: assign_loop_Cons Let_def split: prod.splits)
qed simp

lemma length_sim_indices: "nodes_ok ns \<Longrightarrow> length (sim_indices ns) = total_phases ns"
  by (induction ns) (auto simp: sim_indices_def total_phases_def nodes_ok_def)

lemma first_sim_node:
  assumes "nodes_ok ns" and "i < length ns"
  shows "simNodes (ns ! i) ! 0 = sim_indices ns ! total_phases (take i ns) \<and> total_phases (take i ns) < total_phases ns"
proof -
  have ns: "ns = take i ns @ ns ! i # drop (Suc i) ns" using assms(2) by (rule id_take_nth_drop)
  have ok: "nodes_ok (take i ns)" "phases (ns ! i) \<le> length (simNodes (ns ! i))" "0 < phases (ns ! i)"
    using assms set_take_subset[of i ns] nth_mem[OF assms(2)] unfolding nodes_ok_def
    by (blast, blast) (simp add: phases_def)
  have "sim_indices ns = sim_indices (take i ns) @ take (phases (ns ! i)) (simNodes (ns ! i)) @ sim_indices (drop (Suc i) ns)"
    by (subst ns) (simp add: sim_indices_def)
  moreover have "total_phases ns = total_phases (take i ns) + phases (ns ! i) + total_phases (drop (Suc i) ns)"
    by (subst ns) (simp add: total_phases_def)
  ultimately show ?thesis
    using ok length_sim_indices[OF ok(1)] by (simp add: nth_append)
qed

lemma assign_loop_same:
  assumes loop: "assign_loop numNet idx sim netSim ns = (ns', sim', netSim')"
  shows "total_phases ns' = total_phases ns" and "nodes_ok ns' \<longleftrightarrow> nodes_ok ns" and "map phases ns' = map phases ns"
proof -
  have len: "map (\<lambda>n. length (simNodes n)) ns' = map (\<lambda>n. length (simNodes n)) ns"
    by (rule assign_loop_lengths[OF loop])
  have types: "map phaseType ns' = map phaseType ns"
    using loop by (induction ns arbitrary: idx sim netSim ns') (auto simp: assign_loop_Cons assigned_node_props Let_def split: prod.splits)
  have n: "length ns' = length ns" using len by (metis length_map)
  then have same: "phases (ns' ! j) = phases (ns ! j) \<and> length (simNodes (ns' ! j)) = length (simNodes (ns ! j))"
    if "j < length ns'" for j
    using that arg_cong[OF len, of "\<lambda>xs. xs ! j"] arg_cong[OF types, of "\<lambda>xs. xs ! j"] by (simp add: phases_def)
  then show "nodes_ok ns' \<longleftrightarrow> nodes_ok ns" using n by (auto simp: nodes_ok_def all_set_conv_all_nth)
  show "map phases ns' = map phases ns" using n same by (intro nth_equalityI) auto
  then show "total_phases ns' = total_phases ns" by (simp only: total_phases_def)
qed

lemma row_of_node_assigned:
  assumes "mNodes m = mNodes (assignSimNodes m0)" and "mNumSimNodes m = mNumSimNodes (assignSimNodes m0)"
    and "nodes_ok (mNodes m0)" and "total_phases (mNodes m0) < 2 ^ 32" and "i < length (mNodes m)"
  shows "row_of_node m i = total_phases (take i (mNodes m0)) \<and> row_of_node m i < unat (mNumSimNodes m)"
proof -
  obtain ns sim net where loop: "assign_loop (mNumNetNodes m0) 0 0 (mNumNetSimNodes m0) (mNodes m0) = (ns, sim, net)"
    by (rule prod_cases3)
  then have m: "mNodes m = ns" "mNumSimNodes m = sim" using assms(1,2) by (simp_all add: assignSimNodes_def)
  have "sim = of_nat (total_phases ns)" "sim_indices ns = map of_nat [0..<total_phases ns]"
    using assign_loop_nodes[OF assms(3) loop] by (simp_all add: assign_loop_same[OF loop])
  moreover have "total_phases (take i ns) = total_phases (take i (mNodes m0))"
    using assign_loop_same(3)[OF loop] by (simp add: total_phases_def take_map[symmetric])
  ultimately show ?thesis
    using first_sim_node[of ns i] assms(3-5) assign_loop_same[OF loop] by (simp add: m row_of_node_def)
qed

lemma initialize_stamped:
  fixes cps :: "('w, 'lu) cps_mna"
  assumes "MnaSolver_initialize cps rnd fmt sys (MnaSolver_new cps complex opened logging dt domain False, w) = Some (Ok (m, w'))"
  obtains w1 and m0 :: "'lu mna" where
    "mTmpSystemMatrix m = stamp_all cps w1 (mSwitches m) (stamp_all cps w1 (mPowerComponents m) (zero_matrix (mna_dim m)))"
    "mTmpLuFactorization m = lu cps (mTmpSystemMatrix m)" "set (mSwitches m) \<subseteq> set (sysComponents sys)"
    "set (mPowerComponents m) \<subseteq> set (sysComponents sys)" "mNodes m = mNodes (assignSimNodes m0)"
    "mNumSimNodes m = mNumSimNodes (assignSimNodes m0)" "mComplex m = complex"
    "length (filter (\<lambda>n. \<not> isGround n) (sysNodes sys)) \<le> length (mNodes m)"
    "mNodes m0 = filter (\<lambda>n. \<not> isGround n) (sysNodes sys)
       @ virtual_nodes cps (length (filter (\<lambda>n. \<not> isGround n) (sysNodes sys)))
           (length (virtual_requests cps (filter (asMNA cps) (sysComponents sys))))"
proof -
  let ?m = "MnaSolver_new cps complex opened logging dt domain False"
  define mi where "mi = identifyTopologyObjects cps (?m\<lparr>mSystem := sys\<rparr>)"
  obtain m0 w0 where v: "createVirtualNodes cps (mi, w) = (m0, w0)" by fastforce
  define ma where "ma = assignSimNodes m0"
  define m1 where "m1 = createEmptyVectors (sortExecutionPriority cps ma)"
  have pre: "prepare_topology cps sys (?m, w) = (m1, w0)"
    by (simp add: prepare_topology_def mi_def[symmetric] v ma_def m1_def Let_def)
  obtain m2 where m2: "createEmptySystemMatrix m1 = Ok m2"
    using assms pre by (auto simp: MnaSolver_initialize_def split: if_splits outcome.splits)
  obtain m3 w3 where m3: "initialize_components cps (m2, w0) = (m3, w3)" by fastforce
  have mi: "mSwitches mi = filter (asSwitch cps) (sysComponents sys)" "mPowerComponents mi = filter (asMNA cps) (sysComponents sys)"
    "mNodes mi = filter (\<lambda>n. \<not> isGround n) (sysNodes sys)" "mComplex mi = complex" "mSteadyStateInit mi = False"
    by (simp_all add: mi_def identifyTopologyObjects_def MnaSolver_new_def)
  have nodes: "mNodes m0 = mNodes mi @ virtual_nodes cps (length (mNodes mi)) (length (virtual_requests cps (mPowerComponents mi)))"
    using arg_cong[OF v, of "\<lambda>s. mNodes (fst s)"] create_virtual_fold[of cps "mPowerComponents mi" "mNodes mi" w]
    by (simp add: createVirtualNodes_def Let_def)
  have m0: "mSwitches m0 = mSwitches mi" "mPowerComponents m0 = mPowerComponents mi" "mComplex m0 = mComplex mi"
    "mSteadyStateInit m0 = mSteadyStateInit mi"
    using arg_cong[OF v, of fst] by (auto simp: createVirtualNodes_def Let_def split_def)
  have ma: "mSwitches ma = mSwitches m0" "mPowerComponents ma = mPowerComponents m0" "mComplex ma = mComplex m0"
    "mSteadyStateInit ma = mSteadyStateInit m0"
    by (simp_all add: ma_def assignSimNodes_def split_def Let_def)
  obtain ns sim net where loop: "assign_loop (mNumNetNodes m0) 0 0 (mNumNetSimNodes m0) (mNodes m0) = (ns, sim, net)"
    by (rule prod_cases3)
  then have len: "length (mNodes ma) = length (mNodes m0)"
    using arg_cong[OF assign_loop_lengths[OF loop], of length] by (simp add: ma_def assignSimNodes_def)
  have m1: "mSwitches m1 = mSwitches ma" "mPowerComponents m1 = mPowerComponents ma" "mComplex m1 = mComplex ma"
    "mNodes m1 = mNodes ma" "mNumSimNodes m1 = mNumSimNodes ma" "mSteadyStateInit m1 = mSteadyStateInit ma"
    by (simp_all add: m1_def createEmptyVectors_def sortExecutionPriority_def)
  have e: "m2 = m1\<lparr>mTmpSystemMatrix := zero_matrix (mna_dim m1), mSwitchedMatrices :=
      map (\<lambda>i. (of_nat i, zero_matrix (mna_dim m1))) [0..<length (mSwitches m1) * 2]\<rparr>" "m3 = m2"
    using m2 arg_cong[OF m3, of fst]
    by (auto simp: createEmptySystemMatrix_def initialize_components_def Let_def split: if_splits)
  then have m: "m = fst (initialize_matrices cps (m2, w3))"
    using assms pre m2 m3 m1 ma m0 mi by (auto simp: MnaSolver_initialize_def split: if_splits)
  define w1 where "w1 = set_behaviours cps SimulationBehaviour m2 w3"
  have "mSwitches m = mSwitches m1" "mPowerComponents m = mPowerComponents m1" "mComplex m = mComplex m1"
    "mNodes m = mNodes m1" "mNumSimNodes m = mNumSimNodes m1"
    and g: "mTmpSystemMatrix m = stamp_all cps w1 (mSwitches m1) (stamp_all cps w1 (mPowerComponents m1) (zero_matrix (mna_dim m1)))"
    and "mTmpLuFactorization m = lu cps (mTmpSystemMatrix m)"
    unfolding m w1_def by (simp_all add: initialize_matrices_def e updateSwitchStatus_def Let_def)
  moreover from this have "mna_dim m = mna_dim m1" by (simp add: mna_dim_def)
  ultimately show thesis
    using m1 ma m0 mi nodes len by (intro that[of w1 m0]) (auto simp: ma_def)
qed

text \<open>Documented behaviour of system matrix stamps: a component changes only the rows of the nodes it is
  connected to (and of its virtual nodes, which are numbered behind them).\<close>

definition net_nodes :: "topology \<Rightarrow> node_obj list" where
  "net_nodes sys = filter (\<lambda>n. n \<noteq> GND) (top_nodes sys)"

definition stamps_locally :: "('w, 'lu) cps_mna \<Rightarrow> 'w objects \<Rightarrow> topology \<Rightarrow> 'lu mna \<Rightarrow> bool" where
  "stamps_locally cps ob sys m \<longleftrightarrow> (\<forall>p \<in> set (top_parts sys). \<forall>w g i.
     i < length (net_nodes sys) \<and> net_nodes sys ! i \<notin> set (part_nodes p) \<longrightarrow>
     mnaApplySystemMatrixStamp cps (ob_comp ob p) w g ! row_of_node m i = g ! row_of_node m i)"

lemma stamp_all_row:
  assumes "\<And>c g. c \<in> set cs \<Longrightarrow> mnaApplySystemMatrixStamp cps c w g ! r = g ! r"
  shows "stamp_all cps w cs g ! r = g ! r"
  using assms unfolding stamp_all_def by (induction cs arbitrary: g) simp_all

text \<open>The solver can number its nodes: every node has room for its phases, also the virtual ones, and
  the numbers fit into 32 bits.\<close>

definition numbering_ok :: "('w, 'lu) cps_mna \<Rightarrow> 'w objects \<Rightarrow> topology \<Rightarrow> bool" where
  "numbering_ok cps ob sys \<longleftrightarrow> (\<forall>n \<in> set (top_nodes sys). isGround (ob_node ob n) \<longleftrightarrow> n = GND)
     \<and> (\<forall>n \<in> set (net_nodes sys). phases (ob_node ob n) \<le> length (simNodes (ob_node ob n)))
     \<and> (\<forall>v. phases (new_node cps v) \<le> length (simNodes (new_node cps v)))
     \<and> 3 * (length (net_nodes sys) + length (virtual_requests cps (filter (asMNA cps) (map (ob_comp ob) (top_parts sys))))) < 2 ^ 32"

lemma total_phases_le: "total_phases ns \<le> 3 * length ns"
  by (induction ns) (auto simp: total_phases_def phases_def)

lemma row_of_net_node:
  fixes cps :: "('w, 'lu) cps_mna"
  assumes init: "MnaSolver_initialize cps rnd fmt (system_of ob sys) (MnaSolver_new cps False opened logging dt domain False, w) = Some (Ok (m, w'))"
    and num: "numbering_ok cps ob sys" and i: "i < length (net_nodes sys)"
  shows "row_of_node m i = total_phases (map (ob_node ob) (take i (net_nodes sys)))" and "row_of_node m i < mna_dim m"
proof -
  have net: "filter (\<lambda>n. \<not> isGround n) (sysNodes (system_of ob sys)) = map (ob_node ob) (net_nodes sys)"
    using num by (simp add: net_nodes_def system_of_def filter_map comp_def numbering_ok_def cong: filter_cong)
  from init obtain w1 and m0 :: "'lu mna" where
    nodes: "mNodes m = mNodes (assignSimNodes m0)" "mNumSimNodes m = mNumSimNodes (assignSimNodes m0)" "mComplex m = False"
      "length (filter (\<lambda>n. \<not> isGround n) (sysNodes (system_of ob sys))) \<le> length (mNodes m)"
      "mNodes m0 = filter (\<lambda>n. \<not> isGround n) (sysNodes (system_of ob sys))
         @ virtual_nodes cps (length (filter (\<lambda>n. \<not> isGround n) (sysNodes (system_of ob sys))))
           (length (virtual_requests cps (filter (asMNA cps) (sysComponents (system_of ob sys)))))"
    by (rule initialize_stamped)
  note m0 = nodes[unfolded net]
  have "nodes_ok (mNodes m0)" using num unfolding m0(5) by (auto simp: nodes_ok_def virtual_nodes_def numbering_ok_def)
  moreover have "total_phases (mNodes m0) < 2 ^ 32"
    using num total_phases_le[of "mNodes m0"] unfolding m0(5) by (simp add: numbering_ok_def virtual_nodes_def system_of_def)
  ultimately have "row_of_node m i = total_phases (take i (mNodes m0)) \<and> row_of_node m i < unat (mNumSimNodes m)"
    using row_of_node_assigned[OF m0(1,2), of i] i m0(4) by simp
  then show "row_of_node m i = total_phases (map (ob_node ob) (take i (net_nodes sys)))" "row_of_node m i < mna_dim m"
    using i m0(3) by (simp_all add: m0(5) take_map mna_dim_def)
qed

lemma floating_node_zero_row:
  fixes cps :: "('w, 'lu) cps_mna"
  assumes init: "MnaSolver_initialize cps rnd fmt (system_of ob sys) (MnaSolver_new cps False opened logging dt domain False, w) = Some (Ok (m, w'))"
    and num: "numbering_ok cps ob sys" and stamps: "stamps_locally cps ob sys m"
    and i: "i < length (net_nodes sys)" "net_nodes sys ! i \<in> set (floating_nodes sys)"
  shows "row_of_node m i < mna_dim m \<and> mTmpSystemMatrix m ! row_of_node m i = zero_vec (mna_dim m)
     \<and> mTmpLuFactorization m = lu cps (mTmpSystemMatrix m)"
proof -
  from init obtain w1 and m0 :: "'lu mna" where
    g: "mTmpSystemMatrix m = stamp_all cps w1 (mSwitches m) (stamp_all cps w1 (mPowerComponents m) (zero_matrix (mna_dim m)))" and
    lu: "mTmpLuFactorization m = lu cps (mTmpSystemMatrix m)" and
    cs: "set (mSwitches m) \<subseteq> set (sysComponents (system_of ob sys))" "set (mPowerComponents m) \<subseteq> set (sysComponents (system_of ob sys))"
    by (rule initialize_stamped)
  have "mnaApplySystemMatrixStamp cps c v h ! row_of_node m i = h ! row_of_node m i"
    if "c \<in> set (sysComponents (system_of ob sys))" for c v h
    using that stamps i by (auto simp: system_of_def stamps_locally_def floating_nodes_def)
  then have "mTmpSystemMatrix m ! row_of_node m i = zero_matrix (mna_dim m) ! row_of_node m i"
    using cs by (simp add: g stamp_all_row subset_iff)
  then show ?thesis using row_of_net_node(2)[OF init num i(1)] lu by (simp add: zero_matrix_def)
qed

lemma program_sim_solver:
  fixes s :: "('lu mna, 'd, 'w, 'e) sim"
  assumes "program_sim cps rnd fmt vil so ob opened e prg = Some (Inr s)" and "prg_interfaces prg = []"
  obtains w where "MnaSolver_initialize cps rnd fmt (system_of ob (prg_system prg))
     (MnaSolver_new cps (prg_domain prg = DP) opened True (rnd (prg_timeStep prg)) (prg_domain prg) (prg_steadyState prg),
      ob_world ob (prg_system prg)) = Some (Ok (mSolver s, w))"
proof -
  let ?init = "MnaSolver_initialize cps rnd fmt (system_of ob (prg_system prg))
     (MnaSolver_new cps (prg_domain prg = DP) opened True (rnd (prg_timeStep prg)) (prg_domain prg) (prg_steadyState prg),
      ob_world ob (prg_system prg))"
  obtain ls where ls: "fill_loggers ob opened (prg_loggers prg) = Inr ls"
    using assms(1) by (cases "fill_loggers ob opened (prg_loggers prg)") (auto simp: program_sim_def)
  let ?new = "\<lambda>m w. Simulation_new (prg_name prg) (rnd (prg_timeStep prg)) (rnd (prg_finalTime prg)) m
     (\<lambda>p. bind_interface (cps_attrs.truncate cps) so ob (vil p) (fst (prg_interfaces prg ! p))) (\<lambda>p. ls ! p) w e"
  obtain r where r: "?init = Some r"
    using assms(1) ls by (cases ?init) (auto simp: program_sim_def Simulation_new_MNA_def)
  then obtain m w where mw: "r = Ok (m, w)"
    using assms(1) ls by (cases r) (auto simp: program_sim_def Simulation_new_MNA_def)
  then have "s = add_all rnd ob prg (?new m w)"
    using assms(1) ls r by (simp add: program_sim_def Simulation_new_MNA_def)
  moreover have "mSolver (add_all rnd ob prg (?new m w)) = mSolver (?new m w)"
    using add_all_offline(1)[OF assms(2), of "?new m w" rnd ob] by (simp add: same_setup_def Simulation_new_def)
  ultimately have "mSolver s = m" by (simp add: Simulation_new_def)
  then show thesis using that r mw by blast
qed

text \<open>C33: the example \<open>EMT_VS_R1\<close> has a node that no component is connected to, so the solver factorises
  a matrix with a row of zeros: the system of equations is singular, and no solution computed from it
  means anything. This holds for every component library whose stamps are local.\<close>

theorem EMT_VS_R1_singular:
  fixes s :: "('lu mna, 'd, 'w, 'e) sim"
  assumes "program_sim cps rnd fmt vil so ob opened e EMT_VS_R1 = Some (Inr s)"
    and "numbering_ok cps ob (prg_system EMT_VS_R1)" and "stamps_locally cps ob (prg_system EMT_VS_R1) (mSolver s)"
  shows "\<exists>r < mna_dim (mSolver s). mTmpSystemMatrix (mSolver s) ! r = zero_vec (mna_dim (mSolver s))
     \<and> mTmpLuFactorization (mSolver s) = lu cps (mTmpSystemMatrix (mSolver s))"
proof -
  let ?sys = "prg_system EMT_VS_R1"
  have prg: "prg_interfaces EMT_VS_R1 = []" "\<not> prg_steadyState EMT_VS_R1" "prg_domain EMT_VS_R1 = EMT"
    by (simp_all add: EMT_VS_R1_def program_defs)
  have net: "net_nodes ?sys = [Node_make ''n1'', Node_make ''n2'', Node_make ''n3'']"
    by (simp add: net_nodes_def EMT_VS_R1_def program_defs)
  obtain w where m: "MnaSolver_initialize cps rnd fmt (system_of ob ?sys)
      (MnaSolver_new cps False opened True (rnd (prg_timeStep EMT_VS_R1)) EMT False, ob_world ob ?sys) = Some (Ok (mSolver s, w))"
    using program_sim_solver[OF assms(1) prg(1)] prg by auto
  have "2 < length (net_nodes ?sys)" "net_nodes ?sys ! 2 \<in> set (floating_nodes ?sys)"
    by (simp_all add: net floating_circuits)
  then show ?thesis
    using floating_node_zero_row[OF m assms(2), of 2] assms(3) by auto
qed

text \<open>A library for the examples: a component stamps the row of the first node \<open>n1\<close> or, if it is not
  connected to it, of the second node.\<close>

definition demo_local :: "(demo_world, matrix) cps_mna" where
  "demo_local = demo_mna\<lparr>mnaApplySystemMatrixStamp := (\<lambda>c w g. g[c := map ((+) 1) (g ! c)])\<rparr>"

definition demo_objects :: "demo_world objects" where
  "demo_objects = \<lparr>ob_node = (\<lambda>n. case n of GND \<Rightarrow> (demo_node Single)\<lparr>isGround := True\<rparr> | Node x p vs \<Rightarrow> demo_node p),
     ob_comp = (\<lambda>p. if Node_make ''n1'' \<in> set (part_nodes p) then 0 else 1), ob_logged = (\<lambda>_. RealAttr 5),
     ob_attr = (\<lambda>_. 5), ob_omega = (\<lambda>f. 2 * pi * f), ob_world = (\<lambda>_. demo_start)\<rparr>"

lemma demo_local_simps:
  "asSwitch demo_local c \<longleftrightarrow> 10 \<le> c \<and> c < 20" "asMNA demo_local c \<longleftrightarrow> c < 10" "asPower demo_local c \<longleftrightarrow> c < 10"
  "hasVirtualNodes demo_local c \<longleftrightarrow> c = 3"
  "mnaApplySystemMatrixStamp demo_local c w g = g[c := map ((+) 1) (g ! c)]"
  "new_node demo_local v = \<lparr>node_name_of = ''virtual'', isGround = False, phaseType = Single, simNodes = [v]\<rparr>"
  by (simp_all add: demo_local_def demo_mna_def cps_attrs.defs cps_mna.defs)

lemma demo_objects_simps:
  "ob_node demo_objects GND = (demo_node Single)\<lparr>isGround := True\<rparr>" "ob_node demo_objects (Node x ph vs) = demo_node ph"
  "ob_comp demo_objects p = (if Node_make ''n1'' \<in> set (part_nodes p) then 0 else 1)" "ob_logged demo_objects a = RealAttr 5"
  by (simp_all add: demo_objects_def)

lemma demo_loggable: "loggable demo_objects prg"
  by (auto simp: loggable_def demo_objects_simps)

lemma demo_numbering: "numbering_ok demo_local demo_objects (prg_system EMT_VS_R1)"
  by (simp add: numbering_ok_def net_nodes_def EMT_VS_R1_def program_defs demo_objects_simps demo_local_simps demo_node_def
      phases_def virtual_requests_def)


theorem EMT_VS_R1_singular_witness:
  "\<exists>s. program_sim demo_local (\<lambda>x. x) (\<lambda>_. ''t'') (\<lambda>_. undefined :: (val, nat) villas) (undefined :: val slot_ops) demo_objects True 0 EMT_VS_R1
       = Some (Inr s)
     \<and> (\<exists>r < mna_dim (mSolver s). mTmpSystemMatrix (mSolver s) ! r = zero_vec (mna_dim (mSolver s)))"
proof -
  let ?vil = "\<lambda>_. undefined :: (val, nat) villas"
  have prg: "prg_interfaces EMT_VS_R1 = []" "\<not> prg_steadyState EMT_VS_R1" "prg_domain EMT_VS_R1 = EMT"
    "top_parts (prg_system EMT_VS_R1) \<noteq> []" "length (top_parts (prg_system EMT_VS_R1)) = 4"
    by (simp_all add: EMT_VS_R1_def program_defs)
  have net: "net_nodes (prg_system EMT_VS_R1) = [Node_make ''n1'', Node_make ''n2'', Node_make ''n3'']"
    by (simp add: net_nodes_def EMT_VS_R1_def program_defs)
  have "length (filter (\<lambda>p. asSwitch demo_local (ob_comp demo_objects p)) (top_parts (prg_system EMT_VS_R1))) \<le> 32"
    using length_filter_le[of "\<lambda>p. asSwitch demo_local (ob_comp demo_objects p)" "top_parts (prg_system EMT_VS_R1)"] prg(5) by simp
  then obtain s where s: "program_sim demo_local (\<lambda>x. x) (\<lambda>_. ''t'') ?vil (undefined :: val slot_ops) demo_objects True 0 EMT_VS_R1 = Some (Inr s)"
    using program_sim_quiet[OF demo_loggable prg(1,2,4), where vil = ?vil] by blast
  obtain w where m: "MnaSolver_initialize demo_local (\<lambda>x. x) (\<lambda>_. ''t'') (system_of demo_objects (prg_system EMT_VS_R1))
      (MnaSolver_new demo_local False True True (prg_timeStep EMT_VS_R1) EMT False, ob_world demo_objects (prg_system EMT_VS_R1)) = Some (Ok (mSolver s, w))"
    using program_sim_solver[OF s prg(1)] prg by auto
  have row: "row_of_node (mSolver s) i = i" if "i < 3" for i
    using row_of_net_node(1)[OF m demo_numbering, of i] that
    by (auto simp: net less_Suc_eq numeral_3_eq_3 total_phases_def phases_def Node_make_def demo_objects_simps demo_node_def)
  have "stamps_locally demo_local demo_objects (prg_system EMT_VS_R1) (mSolver s)"
    unfolding stamps_locally_def net
    by (auto simp: demo_local_simps demo_objects_simps row less_Suc_eq numeral_3_eq_3 EMT_VS_R1_def program_defs)
  from EMT_VS_R1_singular[OF s demo_numbering this] show ?thesis using s by blast
qed

end
