(* ===== verification/ExampleShmem.thy ===== *)
theory ExampleShmem
  imports ExampleLib
begin

text \<open>
  The example programs that exchange samples over shared memory (\<open>Examples/Cxx/Shmem\<close>) with circuits of
  their own. Two of them are two programs in one, chosen by the first argument; \<open>None\<close> is
  \<open>std::exit(1)\<close>. \<open>named\<close> is \<open>SystemTopology::component\<close>, the lookup of a component by name.
\<close>

section \<open>The programs\<close>

definition ShmemExample :: program where
  "ShmemExample =
     (let n1 = Node_make ''n1'';
          n2 = Node_make ''n2'';
          n3 = Node_make ''n3'';
          n4 = Node_make ''n4'';
          evs = make_part DP_Ph1 VoltageSource ''v_s'';
          rs = make_part DP_Ph1 Resistor ''r_s'';
          rl = make_part DP_Ph1 Resistor ''r_line'';
          ll = make_part DP_Ph1 Inductor ''l_line'';
          rL = make_part DP_Ph1 Resistor ''r_load'';
          evs = connect [GND, n1] evs;
          rs = connect [n1, n2] rs;
          rl = connect [n2, n3] rl;
          ll = connect [n3, n4] ll;
          rL = connect [n4, GND] rL;
          evs = setParameters [ComplexV 0 0] evs;
          rs = setParameters [RealV 1] rs;
          rl = setParameters [RealV 1] rl;
          ll = setParameters [RealV 1] ll;
          rL = setParameters [RealV 1000] rL;
          sys = SystemTopology 50 [GND, n1, n2, n3, n4] [evs, rs, rl, ll, rL];
          intf = make_interface ''/villas1-in'' ''/villas1-out'';
          intf = import_attribute ComplexSlot (PartAttr evs ''V_ref'') 0 intf;
          intf = export_attribute ComplexSlot (PartAttr evs ''i_comp'') 0 intf;
          timeStep = 0.001;
          sim = simulation False ''ShmemExample'' sys timeStep 0.3 DP MNA;
          sim = with_interface intf True True sim
      in sim)"

definition ShmemRealTime :: program where
  "ShmemRealTime =
     (let conf = \<lparr>queuelen = 1024, samplelen = 4, polling = 0\<rparr>;
          n1 = Node_make ''n1'';
          n2 = Node_make ''n2'';
          n3 = Node_make ''n3'';
          n4 = Node_make ''n4'';
          evs = make_part DP_Ph1 VoltageSource ''v_s'';
          rs = make_part DP_Ph1 Resistor ''r_s'';
          rl = make_part DP_Ph1 Resistor ''r_line'';
          ll = make_part DP_Ph1 Inductor ''l_line'';
          rL = make_part DP_Ph1 Resistor ''r_load'';
          evs = connect [GND, n1] evs;
          rs = connect [n1, n2] rs;
          rl = connect [n2, n3] rl;
          ll = connect [n3, n4] ll;
          rL = connect [n4, GND] rL;
          evs = setParameters [ComplexV 0 0] evs;
          rs = setParameters [RealV 1] rs;
          rl = setParameters [RealV 1] rl;
          ll = setParameters [RealV 1] ll;
          rL = setParameters [RealV 1000] rL;
          intf = make_interface_conf ''/villas1-in'' ''/villas1-out'' conf;
          intf = import_attribute ComplexSlot (PartAttr evs ''V_ref'') 0 intf;
          intf = export_attribute ComplexSlot (PartAttr evs ''i_comp'') 0 intf;
          timeStep = 0.001;
          sys = SystemTopology 50 [GND, n1, n2, n3, n4] [evs, rs, rl, ll, rL];
          sim = simulation True ''ShmemRealTime'' sys timeStep 5.0 DP MNA;
          sim = with_interface intf False True sim
      in sim)"

definition ShmemControllableSource :: program where
  "ShmemControllableSource =
     (let conf = \<lparr>queuelen = 1024, samplelen = 64, polling = 0\<rparr>;
          in_name = ''/dpsim10'';
          out = ''/dpsim01'';
          timeStep = 0.001;
          finalTime = 10;
          simName = ''ShmemControllableSource'';
          intf = make_interface_conf out in_name conf;
          n1 = Node_make ''n1'';
          ecs = make_part DP_Ph1 CurrentSource ''v_intf'';
          ecs = setParameters [ComplexV 10 0] ecs;
          r1 = make_part DP_Ph1 Resistor ''r_1'';
          r1 = setParameters [RealV 1] r1;
          ecs = connect [GND, n1] ecs;
          r1 = connect [GND, n1] r1;
          intf = import_attribute ComplexSlot (PartAttr ecs ''I_ref'') 0 intf;
          intf = export_attribute ComplexSlot (PartAttr ecs ''v_comp'') 0 intf;
          sys = SystemTopology 50 [n1] [ecs, r1];
          sim = simulation True simName sys timeStep finalTime DP MNA;
          sim = with_interface intf True True sim
      in sim)"

text \<open>\<open>filtP->setConnection(attribute)\<close> and \<open>attribute<Real>("input")->set(v)\<close> are calls on the filter.\<close>

definition ShmemControllableFiltSource :: program where
  "ShmemControllableFiltSource =
     (let conf = \<lparr>queuelen = 1024, samplelen = 64, polling = 0\<rparr>;
          in_name = ''/dpsim10'';
          out = ''/dpsim01'';
          timeStep = 0.001;
          finalTime = 10;
          simName = ''ShmemControllableSource'';
          intf = make_interface_conf out in_name conf;
          coefficients = map RealV
            [-0.0024229, -0.0020832, 0.0067703, 0.016732,
             0.011117, -0.0062311, -0.0084016, 0.0092568, 0.012983, -0.010121, -0.018274, 0.011432,
             0.026176, -0.012489, -0.037997, 0.013389, 0.058155, -0.014048, -0.10272, 0.014462, 0.31717,
             0.48539, 0.31717, 0.014462, -0.10272, -0.014048, 0.058155, 0.013389, -0.037997, -0.012489,
             0.026176, 0.011432, -0.018274, -0.010121, 0.012983, 0.0092568, -0.0084016, -0.0062311,
             0.011117, 0.016732, 0.0067703, -0.0020832, -0.0024229];
          filtP = call ''FIRFilter'' [Vals coefficients, Val (RealV 10)] (make_part Signal FIRFilter ''filter_p'');
          filtQ = call ''FIRFilter'' [Vals coefficients, Val (RealV 0)] (make_part Signal FIRFilter ''filter_q'');
          filtP = call ''setPriority'' [Val (IntV 1)] filtP;
          filtQ = call ''setPriority'' [Val (IntV 1)] filtQ;
          n1 = Node_make ''n1'';
          ecs = make_part DP_Ph1 CurrentSource ''v_intf'';
          ecs = setParameters [ComplexV 10 0] ecs;
          r1 = make_part DP_Ph1 Resistor ''r_1'';
          r1 = setParameters [RealV 1] r1;
          load = make_part DP_Ph1 PQLoadCS ''load_cs'';
          load = setParameters [RealV 10, RealV 0, RealV 10] load;
          ecs = connect [GND, n1] ecs;
          r1 = connect [GND, n1] r1;
          load = connect [n1] load;
          filtP = call ''setConnection'' [AttrOf (part_name load) ''power_active''] filtP;
          filtQ = call ''setConnection'' [AttrOf (part_name load) ''power_reactive''] filtQ;
          filtP = call ''input.set'' [Val (RealV 8)] filtP;
          filtQ = call ''input.set'' [Val (RealV 0)] filtQ;
          intf = import_attribute RealSlot (PartAttr filtP ''input'') 0 intf;
          intf = import_attribute RealSlot (PartAttr filtQ ''input'') 1 intf;
          sys = SystemTopology 50 [n1] [ecs, r1, load, filtP, filtQ];
          sim = simulation True simName sys timeStep finalTime DP MNA;
          sim = with_interface intf True True sim
      in sim)"

definition ShmemDistributedDirect :: "string list \<Rightarrow> program option" where
  "ShmemDistributedDirect argv =
     (let conf = \<lparr>queuelen = 1024, samplelen = 4, polling = 0\<rparr>
      in if length argv < 2 then None
         else let (in_name, out) =
                    (if argv ! 1 = ''0'' then (''/dpsim10'', ''/dpsim01'')
                     else if argv ! 1 = ''1'' then (''/dpsim01'', ''/dpsim10'') else ('''', ''''));
                  intf = make_interface_conf in_name out conf;
                  timeStep = 0.000150
              in if argv ! 1 = ''0'' then
                   let n1 = Node_make ''n1'';
                       n2 = Node_make ''n2'';
                       evs = make_part DP_Ph1 VoltageSource ''v_intf'';
                       vs1 = make_part DP_Ph1 VoltageSource ''vs_1'';
                       r01 = make_part DP_Ph1 Resistor ''r_0_1'';
                       evs = setParameters [ComplexV 5 0] evs;
                       vs1 = setParameters [ComplexV 10 0] vs1;
                       r01 = setParameters [RealV 1] r01;
                       evs = connect [GND, n2] evs;
                       vs1 = connect [GND, n1] vs1;
                       r01 = connect [n1, n2] r01;
                       intf = import_attribute ComplexSlot (PartAttr evs ''V_ref'') 0 intf;
                       intf = export_attribute ComplexSlot (PartAttr evs ''i_comp'') 0 intf;
                       sys = SystemTopology 50 [n1, n2] [evs, vs1, r01];
                       sim = simulation False ''ShmemDistributedDirect_1'' sys timeStep 0.1 DP MNA
                   in Some (with_interface intf True True sim)
                 else if argv ! 1 = ''1'' then
                   let n1 = Node_make ''n1'';
                       ecs = make_part DP_Ph1 CurrentSource ''i_intf'';
                       ecs = setParameters [ComplexV 5 0] ecs;
                       rgnd0 = make_part DP_Ph1 Resistor ''r_gnd_0'';
                       rgnd0 = setParameters [RealV 1] rgnd0;
                       ecs = connect [GND, n1] ecs;
                       rgnd0 = connect [GND, n1] rgnd0;
                       intf = import_attribute ComplexSlot (PartAttr ecs ''I_ref'') 0 intf;
                       intf = export_attribute ComplexSlot (PartAttr ecs ''v_comp'') 0 intf;
                       sys = SystemTopology 50 [n1] [ecs, rgnd0];
                       sim = simulation False ''ShmemDistributedDirect_2'' sys timeStep 0.1 DP MNA
                   in Some (with_interface intf True True sim)
                 else None)"

definition ShmemDistributedVillas :: "(topology \<Rightarrow> string \<Rightarrow> part) \<Rightarrow> string list \<Rightarrow> program option" where
  "ShmemDistributedVillas named argv =
     (let conf = \<lparr>queuelen = 1024, samplelen = 4, polling = 1\<rparr>
      in if length argv < 2 then None
         else let (in_name, out) =
                    (if argv ! 1 = ''0'' then (''/villas0-in'', ''/villas0-out'')
                     else if argv ! 1 = ''1'' then (''/villas1-in'', ''/villas1-out'') else ('''', ''''));
                  intf = make_interface_conf in_name out conf;
                  circuit =
                    (if argv ! 1 = ''0'' then
                       let n1 = Node_make ''n1'';
                           n2 = Node_make ''n2'';
                           n3 = Node_make ''n3'';
                           evs = make_part DP_Ph1 VoltageSource ''v_t'';
                           vs = make_part DP_Ph1 VoltageSourceNorton ''v_s'';
                           l1 = make_part DP_Ph1 Inductor ''l_1'';
                           r1 = make_part DP_Ph1 Resistor ''r_1'';
                           evs = connect [GND, n3] evs;
                           vs = connect [GND, n1] vs;
                           l1 = connect [n1, n2] l1;
                           r1 = connect [n2, n3] r1;
                           evs = setParameters [ComplexV 0 0] evs;
                           vs = setParameters [ComplexV 10000 0, RealV 1] vs;
                           l1 = setParameters [RealV 0.1] l1;
                           r1 = setParameters [RealV 1] r1;
                           comps = [evs, vs, l1, r1];
                           nodes = [GND, n1, n2, n3];
                           intf = import_attribute ComplexSlot (PartAttr evs ''V_ref'') 0 intf;
                           intf = export_attribute ComplexSlot (PartAttr evs ''i_comp'') 0 intf
                       in Some (nodes, comps, intf)
                     else if argv ! 1 = ''1'' then
                       let n4 = Node_make ''n4'';
                           n5 = Node_make ''n5'';
                           ecs = make_part DP_Ph1 CurrentSource ''v_s'';
                           r2A = make_part DP_Ph1 Resistor ''r_2'';
                           r2B = make_part DP_Ph1 Resistor ''r_2'';
                           sw = make_part DP_Ph1 Switch ''sw'';
                           ecs = connect [GND, n4] ecs;
                           r2A = connect [GND, n4] r2A;
                           sw = connect [n4, n5] sw;
                           r2B = connect [GND, n5] r2B;
                           ecs = setParameters [ComplexV 0 0] ecs;
                           r2A = setParameters [RealV 10] r2A;
                           r2B = setParameters [RealV 8] r2B;
                           sw = setParameters [RealV 1000000000, RealV 0.1, BoolV False] sw;
                           comps = [ecs, sw, r2A, r2B];
                           nodes = [GND, n4, n5];
                           intf = import_attribute ComplexSlot (PartAttr ecs ''I_ref'') 0 intf;
                           intf = export_attribute ComplexSlot (PartAttr ecs ''v_comp'') 0 intf
                       in Some (nodes, comps, intf)
                     else None)
              in case circuit of
                   None \<Rightarrow> None
                 | Some (nodes, comps, intf) \<Rightarrow>
                     let simName = ''ShmemDistributed'';
                         timeStep = 0.001;
                         sys = SystemTopology 50 nodes comps;
                         sim = simulation True (simName @ argv ! 1) sys timeStep 20 DP MNA;
                         sim = with_interface intf True True sim
                     in Some (if argv ! 1 = ''1'' then with_event 10 (named sys ''sw'') True sim else sim))"

end
