(* ===== verification/Getopt.thy ===== *)
theory Getopt
  imports Prelude
begin

text \<open>
  The option parser for platforms without one (\<open>Include/dpsim/Compat/getopt.h\<close>).

  The static variables of the file are the record \<open>getopt_state\<close>. The argument vector, which the parser
  permutes, is part of it; \<open>nargc\<close> is its length and \<open>nargv[nargc]\<close> the null pointer. The scanning
  pointer \<open>place\<close> is the text it points to, \<open>place_off\<close> its offset in the argument it points
  into; \<open>EMSG\<close> is the empty text. The sentinel -1 of \<open>nonopt_start\<close>, \<open>nonopt_end\<close> and
  \<open>posixly_correct\<close> is \<open>None\<close>. Messages to the user are left out. Characters are ASCII.
\<close>

section \<open>State\<close>

datatype has_arg = no_argument | required_argument | optional_argument

record option_spec =
  opt_name :: string
  opt_has_arg :: has_arg
  opt_flag :: "nat option"
  opt_val :: int

record getopt_state =
  optind :: nat
  optopt :: int
  optreset :: bool
  optarg :: "string option"
  place :: string
  place_off :: nat
  nonopt_start :: "nat option"
  nonopt_end :: "nat option"
  posixly_correct :: "bool option"
  nargv :: "string list"
  longindex :: nat
  flag_mem :: "nat \<Rightarrow> int"

record getopt_flags =
  FLAG_PERMUTE :: bool
  FLAG_ALLARGS :: bool
  FLAG_LONGONLY :: bool

definition getopt_start :: "string list \<Rightarrow> getopt_state" where
  "getopt_start argv = \<lparr>optind = 1, optopt = of_char CHR ''?'', optreset = False, optarg = None, place = '''',
     place_off = 0, nonopt_start = None, nonopt_end = None, posixly_correct = None, nargv = argv,
     longindex = 0, flag_mem = (\<lambda>_. 0)\<rparr>"

abbreviation set_emsg :: "getopt_state \<Rightarrow> getopt_state" where
  "set_emsg st \<equiv> st\<lparr>place := '''', place_off := 0\<rparr>"

definition BADCH :: int where
  "BADCH = of_char CHR ''?''"

definition BADARG :: "string \<Rightarrow> int" where
  "BADARG options = (case options of CHR '':'' # _ \<Rightarrow> of_char CHR '':'' | _ \<Rightarrow> of_char CHR ''?'')"

definition INORDER :: int where
  "INORDER = 1"

section \<open>Permuting the argument vector\<close>

text \<open>The greatest common divisor; a remainder by 0 would be undefined, and the calls never ask for it
  (see below).\<close>

function gcd_loop :: "nat \<Rightarrow> nat \<Rightarrow> nat" where
  "gcd_loop a b = (let c = a mod b in if b = 0 \<or> c = 0 then b else gcd_loop b c)"
  by pat_completeness auto
termination by (relation "measure snd") auto

declare gcd_loop.simps [simp del]

text \<open>One pass of the inner loop; \<open>s\<close>, \<open>e\<close> and \<open>o'\<close> are the three block limits.\<close>

definition permute_step :: "nat \<Rightarrow> nat \<Rightarrow> nat \<Rightarrow> nat \<Rightarrow> nat \<times> 'a list \<Rightarrow> nat \<times> 'a list" where
  "permute_step s e o' cstart st =
     (let (pos, xs) = st;
          pos = (if pos \<ge> e then pos - (e - s) else pos + (o' - e));
          swap = xs ! pos
      in (pos, xs[pos := xs ! cstart, cstart := swap]))"

definition permute_cycle :: "nat \<Rightarrow> nat \<Rightarrow> nat \<Rightarrow> nat \<Rightarrow> nat \<Rightarrow> 'a list \<Rightarrow> 'a list" where
  "permute_cycle s e o' cyclelen i xs =
     snd (fold (\<lambda>_. permute_step s e o' (e + i)) [0..<cyclelen] (e + i, xs))"

definition permute_args :: "nat \<Rightarrow> nat \<Rightarrow> nat \<Rightarrow> 'a list \<Rightarrow> 'a list" where
  "permute_args s e o' xs =
     (let ncycle = gcd_loop (e - s) (o' - e); cyclelen = (o' - s) div ncycle
      in fold (permute_cycle s e o' cyclelen) [0..<ncycle] xs)"

lemma length_permute_step [simp]: "length (snd (permute_step s e o' c st)) = length (snd st)"
  by (simp add: permute_step_def Let_def split: prod.splits)

lemma length_permute_cycle [simp]:
  fixes xs :: "'a list"
  shows "length (permute_cycle s e o' n i xs) = length xs"
proof -
  have "length (snd (fold (\<lambda>_. permute_step s e o' c) ks st)) = length (snd st)"
    for c and st :: "nat \<times> 'a list" and ks :: "nat list"
    by (induction ks arbitrary: st) simp_all
  then show ?thesis by (simp add: permute_cycle_def)
qed

lemma length_permute_args [simp]:
  fixes xs :: "'a list"
  shows "length (permute_args s e o' xs) = length xs"
proof -
  have "length (fold (permute_cycle s e o' n) ks xs) = length xs" for n ks and xs :: "'a list"
    by (induction ks arbitrary: xs) simp_all
  then show ?thesis by (simp add: permute_args_def Let_def)
qed

section \<open>Long options\<close>

text \<open>\<open>strchr\<close>: the text after the first occurrence of the character.\<close>

definition strchr :: "char \<Rightarrow> string \<Rightarrow> string option" where
  "strchr c s = (case dropWhile (\<lambda>x. x \<noteq> c) s of [] \<Rightarrow> None | _ # r \<Rightarrow> Some r)"

definition same_interpretation :: "option_spec \<Rightarrow> option_spec \<Rightarrow> bool" where
  "same_interpretation x y \<longleftrightarrow> opt_has_arg x = opt_has_arg y \<and> opt_flag x = opt_flag y \<and> opt_val x = opt_val y"

text \<open>The search loop over the long options \<open>ls\<close>, from index \<open>i\<close>; \<open>cur\<close> is the text before
  an equals sign. The result is \<open>match\<close> and \<open>ambiguous\<close>.\<close>

fun match_long :: "option_spec list \<Rightarrow> string \<Rightarrow> bool \<Rightarrow> nat \<Rightarrow> option_spec list \<Rightarrow> nat option \<Rightarrow> bool \<Rightarrow> nat option \<times> bool" where
  "match_long longs cur short_too i [] match ambiguous = (match, ambiguous)"
| "match_long longs cur short_too i (l # ls) match ambiguous =
     (if take (length cur) (opt_name l) \<noteq> cur then match_long longs cur short_too (Suc i) ls match ambiguous
      else if length (opt_name l) = length cur then (Some i, False)
      else if short_too \<and> length cur = 1 then match_long longs cur short_too (Suc i) ls match ambiguous
      else case match of
        None \<Rightarrow> match_long longs cur short_too (Suc i) ls (Some i) ambiguous
      | Some j \<Rightarrow> match_long longs cur short_too (Suc i) ls match
                   (ambiguous \<or> \<not> same_interpretation l (longs ! j)))"

text \<open>\<open>nargv[i]\<close>; the vector ends with a null pointer.\<close>

definition arg_at :: "nat \<Rightarrow> getopt_state \<Rightarrow> string option" where
  "arg_at i st = (if i < length (nargv st) then Some (nargv st ! i) else None)"

definition missing_opt :: "option_spec \<Rightarrow> int" where
  "missing_opt l = (if opt_flag l = None then opt_val l else 0)"

definition parse_long_options :: "string \<Rightarrow> option_spec list \<Rightarrow> bool \<Rightarrow> getopt_state \<Rightarrow> int \<times> getopt_state" where
  "parse_long_options options longs short_too st =
     (let has_equal = strchr CHR ''='' (place st);
          cur = takeWhile (\<lambda>x. x \<noteq> CHR ''='') (place st);
          st = st\<lparr>optind := optind st + 1\<rparr>;
          (match, ambiguous) = match_long longs cur short_too 0 longs None False
      in if ambiguous then (BADCH, st\<lparr>optopt := 0\<rparr>)
         else case match of
           None \<Rightarrow> if short_too then (-1, st\<lparr>optind := optind st - 1\<rparr>) else (BADCH, st\<lparr>optopt := 0\<rparr>)
         | Some m \<Rightarrow>
             (let l = longs ! m
              in if opt_has_arg l = no_argument \<and> has_equal \<noteq> None then (BADARG options, st\<lparr>optopt := missing_opt l\<rparr>)
                 else let st = (if opt_has_arg l = no_argument then st
                                else if has_equal \<noteq> None then st\<lparr>optarg := has_equal\<rparr>
                                else if opt_has_arg l = required_argument
                                then st\<lparr>optarg := arg_at (optind st) st, optind := optind st + 1\<rparr> else st)
                      in if opt_has_arg l = required_argument \<and> optarg st = None
                         then (BADARG options, st\<lparr>optopt := missing_opt l, optind := optind st - 1\<rparr>)
                         else let st = st\<lparr>longindex := m\<rparr>
                              in case opt_flag l of
                                   Some a \<Rightarrow> (0, st\<lparr>flag_mem := (flag_mem st)(a := opt_val l)\<rparr>)
                                 | None \<Rightarrow> (opt_val l, st)))"

section \<open>One call\<close>

text \<open>Taking the skipped non-options to the end, at the end of the options.\<close>

definition finish_permute :: "getopt_state \<Rightarrow> getopt_state" where
  "finish_permute st =
     (case (nonopt_start st, nonopt_end st) of
        (Some s, Some e) \<Rightarrow> st\<lparr>nargv := permute_args s e (optind st) (nargv st), optind := optind st - (e - s),
                               nonopt_start := None, nonopt_end := None\<rparr>
      | _ \<Rightarrow> st\<lparr>nonopt_start := None, nonopt_end := None\<rparr>)"

text \<open>Skipping a non-option in the middle.\<close>

definition skip_nonoption :: "getopt_state \<Rightarrow> getopt_state" where
  "skip_nonoption st =
     (let st = (case nonopt_start st of
          None \<Rightarrow> st\<lparr>nonopt_start := Some (optind st)\<rparr>
        | Some s \<Rightarrow>
            (case nonopt_end st of
               None \<Rightarrow> st
             | Some e \<Rightarrow> st\<lparr>nargv := permute_args s e (optind st) (nargv st),
                            nonopt_start := Some (optind st - (e - s)), nonopt_end := None\<rparr>))
      in st\<lparr>optind := optind st + 1\<rparr>)"

text \<open>What \<open>*(place = nargv[optind]) != '-' || (place[1] == 0 && strchr(options, '-') == NULL)\<close> tests.\<close>

definition is_nonoption :: "string \<Rightarrow> string \<Rightarrow> bool" where
  "is_nonoption options a \<longleftrightarrow> take 1 a \<noteq> ''-'' \<or> (a = ''-'' \<and> strchr CHR ''-'' options = None)"

lemma length_skip_nonoption [simp]: "length (nargv (skip_nonoption st)) = length (nargv st)"
  by (simp add: skip_nonoption_def Let_def split: option.splits)

lemma optind_skip_nonoption [simp]: "optind (skip_nonoption st) = optind st + 1"
  by (simp add: skip_nonoption_def Let_def split: option.splits)

text \<open>The part from the label \<open>start\<close>: advance to the next option. \<open>Some r\<close>: the call returns
  \<open>r\<close>; \<open>None\<close>: \<open>place\<close> points to an option.\<close>

function scan :: "string \<Rightarrow> getopt_flags \<Rightarrow> getopt_state \<Rightarrow> int option \<times> getopt_state" where
  "scan options flags st =
     (if \<not> optreset st \<and> place st \<noteq> '''' then (None, st)
      else
        let st = st\<lparr>optreset := False\<rparr>
        in if optind st \<ge> length (nargv st) then
             (let st = set_emsg st;
                  st = (if nonopt_end st = None \<and> nonopt_start st \<noteq> None
                        then st\<lparr>optind := the (nonopt_start st)\<rparr> else st)
              in (Some (-1), finish_permute st))
           else
             let a = nargv st ! optind st
             in if is_nonoption options a then
                  (let st = set_emsg st
                   in if FLAG_ALLARGS flags then (Some INORDER, st\<lparr>optarg := Some a, optind := optind st + 1\<rparr>)
                      else if \<not> FLAG_PERMUTE flags then (Some (-1), st)
                      else scan options flags (skip_nonoption st))
                else
                  let st = (if nonopt_start st \<noteq> None \<and> nonopt_end st = None
                            then st\<lparr>nonopt_end := Some (optind st)\<rparr> else st)
                  in if a = ''--'' then
                       (Some (-1), finish_permute (set_emsg (st\<lparr>optind := optind st + 1\<rparr>)))
                     else if length a \<ge> 2 then (None, st\<lparr>place := tl a, place_off := 1\<rparr>)
                     else (None, st\<lparr>place := a, place_off := 0\<rparr>))"
  by pat_completeness auto
termination by (relation "measure (\<lambda>(options, flags, st). length (nargv st) - optind st)") (auto simp: Let_def)

declare scan.simps [simp del]

text \<open>The short options, from the reading of the option character on.\<close>

definition long_W :: "string \<Rightarrow> option_spec list \<Rightarrow> getopt_state \<Rightarrow> int \<times> getopt_state" where
  "long_W options longs st = (let (r, st) = parse_long_options options longs False st in (r, set_emsg st))"

definition getopt_short :: "string \<Rightarrow> option_spec list option \<Rightarrow> getopt_state \<Rightarrow> int \<times> getopt_state" where
  "getopt_short options longs st =
     (let optchar = hd (place st); st = st\<lparr>place := tl (place st), place_off := place_off st + 1\<rparr>
      in case (if optchar = CHR '':'' \<or> (optchar = CHR ''-'' \<and> place st \<noteq> '''') then None else strchr optchar options) of
           None \<Rightarrow>
             (if optchar = CHR ''-'' \<and> place st = '''' then (-1, st)
              else let st = (if place st = '''' then st\<lparr>optind := optind st + 1\<rparr> else st)
                   in (BADCH, st\<lparr>optopt := of_char optchar\<rparr>))
         | Some oli \<Rightarrow>
             (if longs \<noteq> None \<and> optchar = CHR ''W'' \<and> take 1 oli = '';'' then
                (if place st \<noteq> '''' then long_W options (the longs) st
                 else let st = st\<lparr>optind := optind st + 1\<rparr>
                      in if optind st \<ge> length (nargv st) then (BADARG options, (set_emsg st)\<lparr>optopt := of_char optchar\<rparr>)
                         else long_W options (the longs) (st\<lparr>place := nargv st ! optind st, place_off := 0\<rparr>))
              else if take 1 oli \<noteq> '':'' then
                (of_char optchar, if place st = '''' then st\<lparr>optind := optind st + 1\<rparr> else st)
              else
                let st = st\<lparr>optarg := None\<rparr>
                in if place st \<noteq> '''' then
                     (of_char optchar, (set_emsg (st\<lparr>optarg := Some (place st)\<rparr>))\<lparr>optind := optind st + 1\<rparr>)
                   else if take 1 (tl oli) \<noteq> '':'' then
                     (let st = st\<lparr>optind := optind st + 1\<rparr>
                      in if optind st \<ge> length (nargv st) then (BADARG options, (set_emsg st)\<lparr>optopt := of_char optchar\<rparr>)
                         else (of_char optchar, (set_emsg (st\<lparr>optarg := Some (nargv st ! optind st)\<rparr>))\<lparr>optind := optind st + 1\<rparr>))
                   else (of_char optchar, (set_emsg st)\<lparr>optind := optind st + 1\<rparr>)))"

definition getopt_option :: "string \<Rightarrow> option_spec list option \<Rightarrow> getopt_flags \<Rightarrow> getopt_state \<Rightarrow> int \<times> getopt_state" where
  "getopt_option options longs flags st =
     (if longs \<noteq> None \<and> place_off st \<noteq> 0 \<and> (take 1 (place st) = ''-'' \<or> FLAG_LONGONLY flags) then
        (let dash = (take 1 (place st) = ''-'');
             short_too = (\<not> dash \<and> take 1 (place st) \<noteq> '':'' \<and> strchr (hd (place st)) options \<noteq> None);
             st = (if dash then st\<lparr>place := tl (place st), place_off := place_off st + 1\<rparr> else st);
             (optchar, st) = parse_long_options options (the longs) short_too st
         in if optchar \<noteq> -1 then (optchar, set_emsg st) else getopt_short options longs st)
      else getopt_short options longs st)"

text \<open>\<open>posix\<close>: whether \<open>POSIXLY_CORRECT\<close> is in the environment.\<close>

definition getopt_internal ::
    "bool \<Rightarrow> string \<Rightarrow> option_spec list option \<Rightarrow> getopt_flags \<Rightarrow> getopt_state \<Rightarrow> int \<times> getopt_state" where
  "getopt_internal posix options longs flags st =
     (let st = (if optind st = 0 then st\<lparr>optind := 1, optreset := True\<rparr> else st);
          st = (if posixly_correct st = None \<or> optreset st then st\<lparr>posixly_correct := Some posix\<rparr> else st);
          flags = (if take 1 options = ''-'' then flags\<lparr>FLAG_ALLARGS := True\<rparr>
                   else if posixly_correct st = Some True \<or> take 1 options = ''+'' then flags\<lparr>FLAG_PERMUTE := False\<rparr>
                   else flags);
          options = (if take 1 options = ''+'' \<or> take 1 options = ''-'' then tl options else options);
          st = st\<lparr>optarg := None\<rparr>;
          st = (if optreset st then st\<lparr>nonopt_start := None, nonopt_end := None\<rparr> else st)
      in case scan options flags st of
           (Some r, st) \<Rightarrow> (r, st)
         | (None, st) \<Rightarrow> getopt_option options longs flags st)"

definition getopt :: "bool \<Rightarrow> string \<Rightarrow> getopt_state \<Rightarrow> int \<times> getopt_state" where
  "getopt posix options = getopt_internal posix options None
     \<lparr>FLAG_PERMUTE = False, FLAG_ALLARGS = False, FLAG_LONGONLY = False\<rparr>"

definition getopt_long :: "bool \<Rightarrow> string \<Rightarrow> option_spec list \<Rightarrow> getopt_state \<Rightarrow> int \<times> getopt_state" where
  "getopt_long posix options longs = getopt_internal posix options (Some longs)
     \<lparr>FLAG_PERMUTE = True, FLAG_ALLARGS = False, FLAG_LONGONLY = False\<rparr>"

definition getopt_long_only :: "bool \<Rightarrow> string \<Rightarrow> option_spec list \<Rightarrow> getopt_state \<Rightarrow> int \<times> getopt_state" where
  "getopt_long_only posix options longs = getopt_internal posix options (Some longs)
     \<lparr>FLAG_PERMUTE = True, FLAG_ALLARGS = False, FLAG_LONGONLY = True\<rparr>"

section \<open>Exchanging two blocks by cycles\<close>

lemma gcd_loop_gcd: "0 < b \<Longrightarrow> gcd_loop a b = gcd a b"
proof (induction a b rule: gcd_loop.induct)
  case (1 a b)
  show ?case
  proof (cases "a mod b = 0")
    case True
    then have "gcd a b = b" by (metis gcd_0_nat gcd_red_nat)
    then show ?thesis using True by (subst gcd_loop.simps) simp
  next
    case False
    then have "gcd_loop a b = gcd_loop b (a mod b)" using 1 by (subst gcd_loop.simps) simp
    then show ?thesis using 1 False by (simp add: gcd_red_nat[of a b] gcd.commute)
  qed
qed

lemma orbit_inj:
  fixes a k n :: nat
  assumes "i < n div gcd k n" and "j < n div gcd k n" and "(a + i * k) mod n = (a + j * k) mod n" and "i \<le> j"
  shows "i = j"
proof -
  let ?g = "gcd k n"
  have n: "0 < n" using assms(1) by (cases n) auto
  have "n dvd (a + j * k) - (a + i * k)"
    using assms(3,4) by (intro mod_eq_dvd_iff_nat[THEN iffD1]) (auto simp: mult_le_mono1)
  then have "n dvd (j - i) * k" by (simp add: diff_mult_distrib)
  moreover have e1: "?g * ((j - i) * (k div ?g)) = (j - i) * k" by (metis dvd_mult_div_cancel gcd_dvd1 mult.left_commute)
  moreover have e2: "?g * (n div ?g) = n" by simp
  ultimately have "?g * (n div ?g) dvd ?g * ((j - i) * (k div ?g))" unfolding e1 e2 by blast
  then have "n div ?g dvd (j - i) * (k div ?g)" by (subst (asm) dvd_times_left_cancel_iff) (use n in auto)
  moreover have "coprime (n div ?g) (k div ?g)"
    using n by (metis div_gcd_coprime gcd.commute not_gr_zero)
  ultimately have "n div ?g dvd j - i" by (simp add: coprime_dvd_mult_left_iff)
  then show ?thesis using assms(2,4) by (metis diff_is_0_eq dvd_imp_le le_antisym less_imp_diff_less not_less not_gr_zero)
qed

lemma orbit_surj:
  fixes a k n b :: nat
  assumes "b < n" and "b mod gcd k n = a mod gcd k n"
  shows "\<exists>j < n div gcd k n. (a + j * k) mod n = b"
proof -
  let ?g = "gcd k n"
  let ?B = "{b. b < n \<and> b mod ?g = a mod ?g}"
  let ?A = "(\<lambda>j. (a + j * k) mod n) ` {..<n div ?g}"
  have g: "0 < ?g" using assms(1) by auto
  have inj: "inj_on (\<lambda>j. (a + j * k) mod n) {..<n div ?g}"
    by (rule inj_onI) (metis lessThan_iff nat_le_linear orbit_inj)
  have sub: "?A \<subseteq> ?B"
  proof
    fix x assume "x \<in> ?A"
    then obtain j where x: "x = (a + j * k) mod n" by auto
    have "x mod ?g = (a + j * k) mod ?g" unfolding x by (simp add: mod_mod_cancel)
    also have "\<dots> = a mod ?g" by (metis dvd_def gcd_dvd1 mod_mult_self2 mult.assoc mult.commute)
    finally show "x \<in> ?B" using assms(1) x by auto
  qed
  have "?B \<subseteq> (\<lambda>t. t * ?g + a mod ?g) ` {..<n div ?g}"
  proof
    fix x assume x: "x \<in> ?B"
    then have "x = x div ?g * ?g + a mod ?g" using div_mult_mod_eq[of x ?g] by simp
    moreover have "x div ?g < n div ?g"
      using x g by (simp add: div_less_iff_less_mult)
    ultimately show "x \<in> (\<lambda>t. t * ?g + a mod ?g) ` {..<n div ?g}" by blast
  qed
  then have "card ?B \<le> n div ?g"
    by (metis (no_types, lifting) card_lessThan card_image_le card_mono finite_imageI finite_lessThan order_trans)
  moreover have "card ?A = n div ?g" using card_image[OF inj] by simp
  ultimately have "?A = ?B" using card_seteq[OF _ sub] by simp
  moreover have "b \<in> ?B" using assms by simp
  ultimately show ?thesis by (metis (no_types, lifting) imageE lessThan_iff)
qed


text \<open>Everything relative to the start \<open>s\<close> of the two blocks, of length \<open>m\<close> and \<open>k\<close>.\<close>

definition nxt :: "nat \<Rightarrow> nat \<Rightarrow> nat \<Rightarrow> nat \<Rightarrow> nat" where
  "nxt s m k pos = s + (pos - s + k) mod (m + k)"

definition at_step :: "nat \<Rightarrow> nat \<Rightarrow> nat \<Rightarrow> nat \<Rightarrow> nat \<Rightarrow> nat" where
  "at_step s m k c j = s + (c - s + j * k) mod (m + k)"

lemma nxt_pos:
  assumes "s \<le> pos" and "pos < s + m + k"
  shows "(if pos \<ge> s + m then pos - m else pos + k) = nxt s m k pos"
proof (cases "pos \<ge> s + m")
  case True
  then obtain d where "pos = s + m + d" using le_Suc_ex by blast
  moreover from this assms(2) have "d < k" by simp
  ultimately show ?thesis by (simp add: nxt_def add.commute add.left_commute mod_add_self2)
next
  case False
  then obtain d where "pos = s + d" "d < m" using assms(1) le_Suc_ex by fastforce
  then show ?thesis by (simp add: nxt_def)
qed

lemma at_step_Suc: "0 < m + k \<Longrightarrow> nxt s m k (at_step s m k c j) = at_step s m k c (Suc j)"
  using mod_add_left_eq[of "c - s + j * k" "m + k" k]
  by (simp add: nxt_def at_step_def add.assoc add.commute[of k])

lemma at_step_bounds: "0 < m + k \<Longrightarrow> s \<le> at_step s m k c j \<and> at_step s m k c j < s + m + k"
  by (simp add: at_step_def add.assoc)


text \<open>The orbit of \<open>c\<close>: the positions the cycle visits.\<close>

definition orbit :: "nat \<Rightarrow> nat \<Rightarrow> nat \<Rightarrow> nat \<Rightarrow> nat set" where
  "orbit s m k r = {p. s \<le> p \<and> p < s + m + k \<and> (p - s) mod gcd m k = r}"

lemma gcd_blocks: "gcd k (m + k) = gcd m (k :: nat)"
  by (metis gcd.commute gcd_add1)

lemma at_step_inj:
  assumes "i < (m + k) div gcd m k" and "j < (m + k) div gcd m k" and "at_step s m k c i = at_step s m k c j"
  shows "i = j"
  using assms orbit_inj[of i "m + k" k j "c - s"] orbit_inj[of j "m + k" k i "c - s"]
  by (cases "i \<le> j") (auto simp: at_step_def gcd_blocks)

lemma at_step_orbit:
  assumes "p \<in> orbit s m k ((c - s) mod gcd m k)"
  shows "\<exists>j < (m + k) div gcd m k. at_step s m k c j = p"
proof -
  have "p - s < m + k" "(p - s) mod gcd k (m + k) = (c - s) mod gcd k (m + k)"
    using assms by (auto simp: orbit_def gcd_blocks)
  then obtain j where "j < (m + k) div gcd m k" "(c - s + j * k) mod (m + k) = p - s"
    using orbit_surj[of "p - s" "m + k" k "c - s"] unfolding gcd_blocks by blast
  then show ?thesis using assms by (auto simp: at_step_def orbit_def)
qed

lemma at_step_period:
  assumes "s \<le> c" and "c < s + m + k"
  shows "at_step s m k c ((m + k) div gcd m k) = c"
proof -
  have "(m + k) div gcd m k * k = (m + k) * (k div gcd m k)"
    by (metis div_mult_swap dvd_div_mult gcd_dvd2 gcd_blocks gcd_dvd1)
  then have "(c - s + (m + k) div gcd m k * k) mod (m + k) = c - s" using assms by (metis less_diff_conv2 add.assoc add.commute mod_less mod_mult_self2)
  then show ?thesis using assms by (simp add: at_step_def)
qed

lemma at_step_in_orbit:
  assumes "0 < m + k"
  shows "at_step s m k c j \<in> orbit s m k ((c - s) mod gcd m k)"
proof -
  have "gcd m k dvd m + k" "gcd m k dvd j * k" by simp_all
  then have "(c - s + j * k) mod (m + k) mod gcd m k = (c - s) mod gcd m k"
    by (metis dvd_imp_mod_0 mod_add_right_eq mod_mod_cancel Nat.add_0_right)
  then show ?thesis using at_step_bounds[OF assms, of s c j] by (simp add: orbit_def at_step_def)
qed


section \<open>The effect of a cycle\<close>

text \<open>After \<open>j\<close> passes of the inner loop, for less than a whole cycle.\<close>

lemma permute_steps:
  fixes xs :: "'a list" and s m k c :: nat
  defines "p \<equiv> at_step s m k c"
  assumes "s \<le> c" and "c < s + m + k" and "s + m + k \<le> length xs" and "j < (m + k) div gcd m k"
  shows "\<exists>ys. fold (\<lambda>_. permute_step s (s + m) (s + m + k) c) [0..<j] (c, xs) = (p j, ys) \<and> length ys = length xs
     \<and> ys ! c = xs ! p j \<and> (\<forall>i. 0 < i \<and> i \<le> j \<longrightarrow> ys ! p i = xs ! p (i - 1))
     \<and> (\<forall>q. (\<forall>i \<le> j. q \<noteq> p i) \<longrightarrow> ys ! q = xs ! q)"
  using assms(5)
proof (induction j)
  case 0
  then show ?case using assms(2,3) by (simp add: p_def at_step_def)
next
  case (Suc j)
  let ?L = "(m + k) div gcd m k"
  have pos: "0 < m + k" using assms(2,3) by linarith
  obtain ys where ys: "fold (\<lambda>_. permute_step s (s + m) (s + m + k) c) [0..<j] (c, xs) = (p j, ys)"
      "length ys = length xs" "ys ! c = xs ! p j" "\<And>i. 0 < i \<Longrightarrow> i \<le> j \<Longrightarrow> ys ! p i = xs ! p (i - 1)"
      "\<And>q. (\<forall>i \<le> j. q \<noteq> p i) \<Longrightarrow> ys ! q = xs ! q"
    using Suc by auto
  have p0: "p 0 = c" using assms(2,3) by (simp add: p_def at_step_def)
  have neq: "p (Suc j) \<noteq> p i" if "i \<le> j" for i
    using at_step_inj[of "Suc j" m k i s c] Suc.prems that by (auto simp: p_def)
  have next_p: "(if p j \<ge> s + m then p j - m else p j + k) = p (Suc j)"
    using nxt_pos[of s "p j" m k] at_step_bounds[OF pos] at_step_Suc[OF pos] by (simp add: p_def)
  have len: "p (Suc j) < length xs" "c < length xs"
    using at_step_bounds[OF pos, of s c "Suc j"] assms(3,4) by (auto simp: p_def)
  let ?zs = "ys[p (Suc j) := ys ! c, c := ys ! p (Suc j)]"
  have step: "permute_step s (s + m) (s + m + k) c (p j, ys) = (p (Suc j), ?zs)"
    using next_p by (auto simp: permute_step_def Let_def split: if_splits)
  have "?zs ! p i = xs ! p (i - 1)" if "0 < i" "i \<le> Suc j" for i
  proof (cases "i = Suc j")
    case True
    then show ?thesis using neq[of 0] len ys(2,3) p0 by simp
  next
    case False
    then have "i < ?L" "0 < ?L" using Suc.prems that by linarith+
    then have "p i \<noteq> c" using at_step_inj[of i m k 0 s c] that(1) p0 by (metis not_gr_zero p_def)
    then show ?thesis using False that neq[of i] ys(4)[of i] by simp
  qed
  moreover have "?zs ! c = xs ! p (Suc j)" using len ys(2) ys(5)[of "p (Suc j)"] neq by simp
  moreover have "?zs ! q = xs ! q" if "\<forall>i \<le> Suc j. q \<noteq> p i" for q
    using that ys(5)[of q] p0 by (metis le0 le_SucI nth_list_update_neq order_refl)
  ultimately show ?case using ys(1,2) step by simp
qed

lemma permute_cycle_effect:
  fixes xs :: "'a list" and s m k c i :: nat
  defines "r \<equiv> (c - s) mod gcd m k" and "L \<equiv> (m + k) div gcd m k"
  assumes "c = s + m + i" and "i < k" and "s + m + k \<le> length xs" and "0 < m"
  defines "ys \<equiv> permute_cycle s (s + m) (s + m + k) L i xs"
  shows "\<And>q. q \<in> orbit s m k r \<Longrightarrow> ys ! nxt s m k q = xs ! q"
    and "\<And>q. q \<notin> orbit s m k r \<Longrightarrow> ys ! q = xs ! q"
proof -
  let ?p = "at_step s m k c"
  have c: "s \<le> c" "c < s + m + k" and pos: "0 < m + k" using assms(3,4,6) by auto
  have "0 < gcd m k" using assms(6) by simp
  then have "0 < L" unfolding L_def using pos by (metis div_greater_zero_iff gcd_blocks gcd_dvd2 dvd_imp_le gr0I neq0_conv)
  then obtain j where L: "L = Suc j" by (cases L) auto
  obtain zs where zs: "fold (\<lambda>_. permute_step s (s + m) (s + m + k) c) [0..<j] (c, xs) = (?p j, zs)"
      "length zs = length xs" "zs ! c = xs ! ?p j" "\<And>i. 0 < i \<Longrightarrow> i \<le> j \<Longrightarrow> zs ! ?p i = xs ! ?p (i - 1)"
      "\<And>q. (\<forall>i \<le> j. q \<noteq> ?p i) \<Longrightarrow> zs ! q = xs ! q"
    using permute_steps[OF c assms(5), of j] L by (auto simp: L_def)
  have pL: "?p (Suc j) = c" using at_step_period[OF c] L by (simp add: L_def)
  have "(if ?p j \<ge> s + m then ?p j - m else ?p j + k) = c"
    using nxt_pos[of s "?p j" m k] at_step_bounds[OF pos] at_step_Suc[OF pos] pL by simp
  then have "permute_step s (s + m) (s + m + k) c (?p j, zs) = (c, zs)"
    by (auto simp: permute_step_def Let_def split: if_splits)
  then have ys: "ys = zs" using zs(1) by (simp add: ys_def permute_cycle_def L assms(3)[symmetric])
  show "ys ! nxt s m k q = xs ! q" if q: "q \<in> orbit s m k r" for q
  proof -
    obtain i where i: "i < L" "?p i = q" using at_step_orbit[of q s m k c] q by (auto simp: r_def L_def)
    then have n: "nxt s m k q = ?p (Suc i)" using at_step_Suc[OF pos] by blast
    show ?thesis
    proof (cases "i = j")
      case True
      then show ?thesis using n pL zs(3) i ys by simp
    next
      case False
      then show ?thesis using n zs(4)[of "Suc i"] i ys L by simp
    qed
  qed
  show "ys ! q = xs ! q" if "q \<notin> orbit s m k r" for q
    using that at_step_in_orbit[OF pos, of s c] zs(5)[of q] ys by (auto simp: r_def)
qed


lemma orbit_nxt:
  assumes "0 < m" and "q \<in> orbit s m k r"
  shows "nxt s m k q \<in> orbit s m k r"
proof -
  have "gcd m k dvd m + k" "gcd m k dvd k" by simp_all
  then have "(q - s + k) mod (m + k) mod gcd m k = (q - s) mod gcd m k"
    by (metis dvd_imp_mod_0 mod_add_right_eq mod_mod_cancel Nat.add_0_right)
  then show ?thesis using assms by (simp add: orbit_def nxt_def add.assoc)
qed

text \<open>After the first \<open>g\<close> cycles, the positions in their orbits are exchanged.\<close>

lemma permute_cycles:
  fixes xs :: "'a list" and s m k :: nat
  defines "L \<equiv> (m + k) div gcd m k"
  assumes "0 < m" and "0 < k" and "s + m + k \<le> length xs" and "g \<le> gcd m k"
  shows "let ys = fold (permute_cycle s (s + m) (s + m + k) L) [0..<g] xs
     in (\<forall>q r. r < g \<and> q \<in> orbit s m k r \<longrightarrow> ys ! nxt s m k q = xs ! q)
      \<and> (\<forall>q. (\<forall>r < g. q \<notin> orbit s m k r) \<longrightarrow> ys ! q = xs ! q)"
  using assms(5)
proof (induction g)
  case (Suc g)
  define ys where "ys = fold (permute_cycle s (s + m) (s + m + k) L) [0..<g] xs"
  have ih: "\<And>q r. r < g \<Longrightarrow> q \<in> orbit s m k r \<Longrightarrow> ys ! nxt s m k q = xs ! q"
      "\<And>q. \<forall>r < g. q \<notin> orbit s m k r \<Longrightarrow> ys ! q = xs ! q"
    using Suc by (auto simp: ys_def Let_def)
  have len: "length ys = length xs"
  proof -
    have "length (fold (permute_cycle s (s + m) (s + m + k) L) ks zs) = length zs" for ks and zs :: "'a list"
      by (induction ks arbitrary: zs) simp_all
    then show ?thesis by (simp add: ys_def)
  qed
  have "gcd m k \<le> k" using assms(3) by (simp add: gcd_le2_nat)
  then have gk: "g < k" using Suc.prems by simp
  have "(s + m + g - s) mod gcd m k = g" using Suc.prems by (simp add: mod_add_left_eq[symmetric] add.assoc)
  then have cyc: "\<And>q. q \<in> orbit s m k g \<Longrightarrow> permute_cycle s (s + m) (s + m + k) L g ys ! nxt s m k q = ys ! q"
      "\<And>q. q \<notin> orbit s m k g \<Longrightarrow> permute_cycle s (s + m) (s + m + k) L g ys ! q = ys ! q"
    using permute_cycle_effect[of "s + m + g" s m g k ys] gk assms(2,4) len by (simp_all add: L_def)
  have disj: "q \<notin> orbit s m k r'" if "q \<in> orbit s m k r" "r \<noteq> r'" for q r r'
    using that by (auto simp: orbit_def)
  have "permute_cycle s (s + m) (s + m + k) L g ys ! nxt s m k q = xs ! q" if "r < Suc g" "q \<in> orbit s m k r" for q r
  proof (cases "r = g")
    case True
    then have "\<forall>r' < g. q \<notin> orbit s m k r'" using disj[OF that(2)] by auto
    then show ?thesis using True cyc(1) that(2) ih(2) by simp
  next
    case False
    then have "nxt s m k q \<notin> orbit s m k g" using orbit_nxt[OF assms(2) that(2)] disj by blast
    then show ?thesis using cyc(2) ih(1)[of r q] False that by simp
  qed
  moreover have "permute_cycle s (s + m) (s + m + k) L g ys ! q = xs ! q" if "\<forall>r < Suc g. q \<notin> orbit s m k r" for q
    using that cyc(2)[of q] ih(2)[of q] by simp
  ultimately show ?case by (simp add: ys_def[symmetric] Let_def) blast
qed simp

text \<open>C22: \<open>permute_args\<close> exchanges the two blocks and keeps the order in each of them, as its comment
  says, for any two non-empty adjacent blocks.\<close>

theorem permute_args_exchanges_blocks:
  assumes "s < e" and "e < o'" and "o' \<le> length xs"
  shows "permute_args s e o' xs = take s xs @ drop e (take o' xs) @ drop s (take e xs) @ drop o' xs"
proof (rule nth_equalityI)
  obtain m k where m: "e = s + m" "0 < m" and k: "o' = s + m + k" "0 < k"
    using assms(1,2) by (metis less_iff_Suc_add add_Suc_right zero_less_Suc)
  let ?ys = "permute_args s e o' xs"
  have "e - s = m" "o' - e = k" "o' - s = m + k" using m k by simp_all
  then have ys: "?ys = fold (permute_cycle s (s + m) (s + m + k) ((m + k) div gcd m k)) [0..<gcd m k] xs"
    by (simp only: permute_args_def Let_def gcd_loop_gcd[OF k(2)]) (simp only: m(1) k(1))
  have "s + m + k \<le> length xs" using assms(3) k(1) by simp
  then have cyc: "\<And>q r. r < gcd m k \<Longrightarrow> q \<in> orbit s m k r \<Longrightarrow> ?ys ! nxt s m k q = xs ! q"
      "\<And>q. \<forall>r < gcd m k. q \<notin> orbit s m k r \<Longrightarrow> ?ys ! q = xs ! q"
    using permute_cycles[OF m(2) k(2) _ order_refl, of s xs] unfolding ys Let_def by blast+
  show "length ?ys = length (take s xs @ drop e (take o' xs) @ drop s (take e xs) @ drop o' xs)"
    using assms by simp
  fix i assume "i < length ?ys"
  then have i: "i < length xs" by simp
  consider "i < s \<or> s + m + k \<le> i" | "s \<le> i" "i < s + k" | "s + k \<le> i" "i < s + m + k" by linarith
  then show "?ys ! i = (take s xs @ drop e (take o' xs) @ drop s (take e xs) @ drop o' xs) ! i"
  proof cases
    case 1
    then have "\<forall>r < gcd m k. i \<notin> orbit s m k r" by (auto simp: orbit_def)
    then show ?thesis using cyc(2) 1 assms(3) i by (auto simp: nth_append m(1) k(1))
  next
    case 2
    then obtain d where d: "i = s + d" "d < k" using le_Suc_ex by fastforce
    have "nxt s m k (s + m + d) = i" using d nxt_pos[of s "s + m + d" m k] by simp
    moreover have "s + m + d \<in> orbit s m k ((m + d) mod gcd m k)" using d by (simp add: orbit_def add.assoc)
    ultimately have "?ys ! i = xs ! (s + m + d)" using cyc(1)[of "(m + d) mod gcd m k" "s + m + d"] m by simp
    then show ?thesis using d assms(3) by (simp add: nth_append m(1) k(1))
  next
    case 3
    then obtain d where d: "i = s + k + d" "d < m" using le_Suc_ex by fastforce
    have "nxt s m k (s + d) = i" using d nxt_pos[of s "s + d" m k] by simp
    moreover have "s + d \<in> orbit s m k (d mod gcd m k)" using d by (simp add: orbit_def)
    ultimately have "?ys ! i = xs ! (s + d)" using cyc(1)[of "d mod gcd m k" "s + d"] m by simp
    then show ?thesis using d assms(3) by (simp add: nth_append m(1) k(1))
  qed
qed

theorem permute_args_exchanges_blocks_witness:
  "permute_args 1 3 4 [''dpsim'', ''a'', ''b'', ''-S'', ''c''] = [''dpsim'', ''-S'', ''a'', ''b'', ''c'']"
  using permute_args_exchanges_blocks[of 1 3 4 "[''dpsim'', ''a'', ''b'', ''-S'', ''c'']"] by simp

section \<open>The invariant of the parser\<close>

definition getopt_ok :: "getopt_state \<Rightarrow> bool" where
  "getopt_ok st \<longleftrightarrow> \<not> optreset st \<and> 0 < optind st \<and> optind st \<le> length (nargv st)
     \<and> (place st \<noteq> '''' \<longrightarrow> optind st < length (nargv st))
     \<and> (case (nonopt_start st, nonopt_end st) of
          (None, None) \<Rightarrow> True
        | (None, Some _) \<Rightarrow> False
        | (Some s, None) \<Rightarrow> 0 < s \<and> s < optind st \<and> place st = ''''
        | (Some s, Some e) \<Rightarrow> 0 < s \<and> s < e \<and> e \<le> optind st \<and> (place st = '''' \<longrightarrow> e < optind st))"

text \<open>What is left to parse.\<close>

definition weight :: "string list \<Rightarrow> nat" where
  "weight as = sum_list (map (Suc \<circ> length) as)"

definition remaining :: "getopt_state \<Rightarrow> nat" where
  "remaining st = (if place st = '''' then weight (drop (optind st) (nargv st))
     else length (place st) + weight (drop (Suc (optind st)) (nargv st)))"

lemma weight_drop_Suc:
  "i < length as \<Longrightarrow> weight (drop i as) = Suc (length (as ! i)) + weight (drop (Suc i) as)"
  by (simp add: weight_def Cons_nth_drop_Suc[symmetric])

lemma weight_drop_mono: "i \<le> j \<Longrightarrow> weight (drop j as) \<le> weight (drop i as)"
proof (induction rule: dec_induct)
  case (step n)
  then show ?case using weight_drop_Suc[of n as] by (cases "n < length as") (auto simp: weight_def)
qed simp

lemma permute_args_props:
  assumes "s < e" and "e < o'" and "o' \<le> length xs"
  shows "mset (permute_args s e o' xs) = mset xs" and "drop (Suc o') (permute_args s e o' xs) = drop (Suc o') xs"
proof -
  have "xs = take s xs @ drop s (take e xs) @ drop e (take o' xs) @ drop o' xs"
    using assms by (metis append_assoc append_take_drop_id less_imp_le_nat min.absorb1 take_take)
  then have "mset xs = mset (take s xs) + mset (drop s (take e xs)) + mset (drop e (take o' xs)) + mset (drop o' xs)"
    by (metis mset_append add.assoc)
  then show "mset (permute_args s e o' xs) = mset xs"
    using permute_args_exchanges_blocks[OF assms] by simp
  show "drop (Suc o') (permute_args s e o' xs) = drop (Suc o') xs"
    using permute_args_exchanges_blocks[OF assms] assms by simp
qed

lemma skip_nonoption_props:
  assumes "getopt_ok st" and "place st = ''''" and "optind st < length (nargv st)"
  shows "getopt_ok (skip_nonoption st)" and "mset (nargv (skip_nonoption st)) = mset (nargv st)"
    and "remaining (skip_nonoption st) < remaining st"
proof -
  have drp: "drop (Suc (optind st)) (nargv (skip_nonoption st)) = drop (Suc (optind st)) (nargv st)"
    using assms permute_args_props(2)[of _ _ "optind st" "nargv st"]
    by (auto simp: skip_nonoption_def Let_def getopt_ok_def split: option.splits)
  show "mset (nargv (skip_nonoption st)) = mset (nargv st)"
    using assms permute_args_props(1)[of _ _ "optind st" "nargv st"]
    by (auto simp: skip_nonoption_def Let_def getopt_ok_def split: option.splits)
  show "getopt_ok (skip_nonoption st)"
    using assms by (auto simp: skip_nonoption_def Let_def getopt_ok_def split: option.splits)
  have "place (skip_nonoption st) = place st" by (simp add: skip_nonoption_def Let_def split: option.splits)
  then show "remaining (skip_nonoption st) < remaining st"
    using assms(2,3) weight_drop_Suc[of "optind st" "nargv st"] drp by (simp add: remaining_def)
qed

lemma finish_permute_props:
  assumes "0 < optind st" and "optind st \<le> length (nargv st)" and "\<not> optreset st" and "place st = ''''"
    and "case (nonopt_start st, nonopt_end st) of (Some s, Some e) \<Rightarrow> s < e \<and> e < optind st | _ \<Rightarrow> True"
  shows "getopt_ok (finish_permute st)" and "mset (nargv (finish_permute st)) = mset (nargv st)"
proof -
  show "getopt_ok (finish_permute st)"
    using assms by (auto simp: finish_permute_def getopt_ok_def split: option.splits)
  show "mset (nargv (finish_permute st)) = mset (nargv st)"
    using assms permute_args_props(1)[of _ _ "optind st" "nargv st"]
    by (auto simp: finish_permute_def split: option.splits)
qed


lemma getopt_ok_optarg [simp]: "getopt_ok (st\<lparr>optarg := x\<rparr>) = getopt_ok st"
  by (simp add: getopt_ok_def split: option.splits)

lemma remaining_optarg [simp]: "remaining (st\<lparr>optarg := x\<rparr>) = remaining st"
  by (simp add: remaining_def)

text \<open>Consuming the argument at \<open>optind\<close>.\<close>

lemma consume_arg:
  assumes "getopt_ok st" and "optind st < length (nargv st)" and "optind st < n" and "n \<le> length (nargv st)"
  shows "getopt_ok (set_emsg (st\<lparr>optind := n\<rparr>))" and "remaining (set_emsg (st\<lparr>optind := n\<rparr>)) < remaining st"
proof -
  show "getopt_ok (set_emsg (st\<lparr>optind := n\<rparr>))"
    using assms by (auto simp: getopt_ok_def split: option.splits)
  have "weight (drop n (nargv st)) \<le> weight (drop (Suc (optind st)) (nargv st))"
    using weight_drop_mono[of "Suc (optind st)" n] assms(3) by simp
  then show "remaining (set_emsg (st\<lparr>optind := n\<rparr>)) < remaining st"
    using weight_drop_Suc[OF assms(2)] by (cases "place st") (auto simp: remaining_def)
qed

lemma scan_end_props:
  assumes "getopt_ok st" and "place st = ''''"
  defines "st1 \<equiv> if nonopt_end st = None \<and> nonopt_start st \<noteq> None
     then (set_emsg st)\<lparr>optind := the (nonopt_start st)\<rparr> else set_emsg st"
  shows "getopt_ok (finish_permute st1) \<and> mset (nargv (finish_permute st1)) = mset (nargv st)"
proof -
  have "getopt_ok (finish_permute st1)" "mset (nargv (finish_permute st1)) = mset (nargv st1)"
    by (rule finish_permute_props; use assms in \<open>auto simp: getopt_ok_def split: option.splits\<close>)+
  then show ?thesis by (auto simp: st1_def)
qed


text \<open>Advancing to the next option keeps the invariant and the arguments, and never goes back.\<close>

text \<open>What one call of the scanner keeps, and how it makes progress.\<close>

definition scan_result :: "getopt_state \<Rightarrow> int option \<times> getopt_state \<Rightarrow> bool" where
  "scan_result st x \<longleftrightarrow> (case x of (r, st') \<Rightarrow> getopt_ok st' \<and> mset (nargv st') = mset (nargv st)
     \<and> (r = None \<longrightarrow> place st' \<noteq> '''' \<and> remaining st' \<le> remaining st)
     \<and> (r \<noteq> None \<and> r \<noteq> Some (-1) \<longrightarrow> remaining st' < remaining st))"

lemma scan_nonoption_props:
  assumes "getopt_ok st" and "place st = ''''" and "optind st < length (nargv st)" and "is_nonoption options (nargv st ! optind st)"
    and "FLAG_PERMUTE flags \<Longrightarrow> \<not> FLAG_ALLARGS flags \<Longrightarrow>
      scan_result (skip_nonoption (set_emsg st)) (scan options flags (skip_nonoption (set_emsg st)))"
  shows "scan_result st (scan options flags st)"
proof -
  let ?st = "set_emsg st"
  have rs: "\<not> optreset st" "st\<lparr>optreset := False\<rparr> = st" using assms(1) by (simp_all add: getopt_ok_def)
  note unfold = scan.simps[of options flags st] Let_def rs
  have ok: "getopt_ok ?st" "place ?st = ''''" "remaining ?st = remaining st"
    using assms(1,2) by (auto simp: getopt_ok_def remaining_def split: option.splits)
  consider "FLAG_ALLARGS flags" | "\<not> FLAG_ALLARGS flags" "FLAG_PERMUTE flags"
    | "\<not> FLAG_ALLARGS flags" "\<not> FLAG_PERMUTE flags" by blast
  then show ?thesis
  proof cases
    case 1
    then have "scan options flags st =
        (Some INORDER, (set_emsg (st\<lparr>optind := Suc (optind st)\<rparr>))\<lparr>optarg := Some (nargv st ! optind st)\<rparr>)"
      using assms(2-4) by (simp add: unfold)
    then show ?thesis using consume_arg[OF assms(1,3), of "Suc (optind st)"] assms(3) by (simp add: scan_result_def)
  next
    case 2
    have "scan options flags st = scan options flags (skip_nonoption ?st)" using assms(2-4) 2 by (simp add: unfold)
    then show ?thesis
      using assms(5)[OF 2(2,1)] skip_nonoption_props[OF ok(1,2)] assms(3) ok(3)
      by (fastforce simp: scan_result_def split: prod.splits)
  next
    case 3
    then show ?thesis using assms(2-4) ok by (simp add: unfold scan_result_def)
  qed
qed

lemma scan_option_props:
  assumes "getopt_ok st" and "place st = ''''" and "optind st < length (nargv st)" and "\<not> is_nonoption options (nargv st ! optind st)"
  shows "scan_result st (scan options flags st)"
proof -
  have rs: "\<not> optreset st" "st\<lparr>optreset := False\<rparr> = st" using assms(1) by (simp_all add: getopt_ok_def)
  note unfold = scan.simps[of options flags st] Let_def rs
  let ?a = "nargv st ! optind st"
  let ?st = "if nonopt_start st \<noteq> None \<and> nonopt_end st = None then st\<lparr>nonopt_end := Some (optind st)\<rparr> else st"
  show ?thesis
  proof (cases "?a = ''--''")
    case True
    then have "scan options flags st = (Some (-1), finish_permute (set_emsg (?st\<lparr>optind := Suc (optind st)\<rparr>)))"
      using assms(2-4) by (simp add: unfold)
    moreover have "getopt_ok (finish_permute (set_emsg (?st\<lparr>optind := Suc (optind st)\<rparr>)))"
      "mset (nargv (finish_permute (set_emsg (?st\<lparr>optind := Suc (optind st)\<rparr>)))) = mset (nargv st)"
      using finish_permute_props[of "set_emsg (?st\<lparr>optind := Suc (optind st)\<rparr>)"] assms(1,3)
      by (auto simp: getopt_ok_def split: option.splits)
    ultimately show ?thesis by (simp add: scan_result_def)
  next
    case False
    have ne: "?a \<noteq> ''''" using assms(4) by (auto simp: is_nonoption_def)
    define st' where "st' = (if length ?a \<ge> 2 then ?st\<lparr>place := tl ?a, place_off := 1\<rparr> else ?st\<lparr>place := ?a, place_off := 0\<rparr>)"
    have res: "scan options flags st = (None, st')" using assms(2-4) False by (simp add: unfold st'_def)
    have "place st' \<noteq> ''''" "length (place st') \<le> length ?a" using ne by (cases ?a; auto simp: st'_def)+
    moreover have "nargv st' = nargv st" "optind st' = optind st" by (auto simp: st'_def)
    moreover have "getopt_ok st'"
      using assms(1,3) ne calculation(1) by (auto simp: st'_def getopt_ok_def split: option.splits if_splits)
    ultimately show ?thesis
      using weight_drop_Suc[OF assms(3)] assms(2) by (simp add: res scan_result_def remaining_def)
  qed
qed

lemma scan_result_holds:
  "getopt_ok st \<Longrightarrow> scan_result st (scan options flags st)"
proof (induction "length (nargv st) - optind st" arbitrary: st rule: less_induct)
  case less
  have rs: "\<not> optreset st" "st\<lparr>optreset := False\<rparr> = st" using less.prems by (simp_all add: getopt_ok_def)
  note unfold = scan.simps[of options flags st] Let_def rs
  consider "place st \<noteq> ''''" | "place st = ''''" "optind st \<ge> length (nargv st)"
    | "place st = ''''" "optind st < length (nargv st)" "is_nonoption options (nargv st ! optind st)"
    | "place st = ''''" "optind st < length (nargv st)" "\<not> is_nonoption options (nargv st ! optind st)"
    by linarith
  then show ?case
  proof cases
    case 1
    then show ?thesis using less.prems by (simp add: unfold scan_result_def)
  next
    case 2
    then show ?thesis using scan_end_props[OF less.prems] by (auto simp: unfold scan_result_def)
  next
    case 3
    have "getopt_ok (set_emsg st)" "place (set_emsg st) = ''''"
      using less.prems 3 by (auto simp: getopt_ok_def split: option.splits)
    from skip_nonoption_props[OF this] 3(2) show ?thesis
      by (intro scan_nonoption_props[OF less.prems 3] less.hyps) auto
  next
    case 4
    then show ?thesis by (rule scan_option_props[OF less.prems])
  qed
qed

lemma scan_props:
  assumes "getopt_ok st" and "scan options flags st = (r, st')"
  shows "getopt_ok st' \<and> mset (nargv st') = mset (nargv st)
     \<and> (r = None \<longrightarrow> place st' \<noteq> '''' \<and> remaining st' \<le> remaining st)
     \<and> (r \<noteq> None \<and> r \<noteq> Some (-1) \<longrightarrow> remaining st' < remaining st)"
  using scan_result_holds[OF assms(1), of options flags] assms(2) by (simp add: scan_result_def)

lemma scan_place:
  assumes "scan options flags st = (None, st')" and "\<not> optreset st" and "place st \<noteq> '''' \<longrightarrow> place_off st \<noteq> 0"
  shows "place_off st' \<noteq> 0 \<or> (place st' = ''-'' \<and> strchr CHR ''-'' options \<noteq> None)"
  using assms
proof (induction options flags st rule: scan.induct)
  case (1 options flags st)
  let ?a = "nargv st ! optind st"
  have rs: "st\<lparr>optreset := False\<rparr> = st" using "1.prems"(2) by simp
  note unfold = scan.simps[of options flags st] Let_def rs
  consider "place st \<noteq> ''''" | "place st = ''''" "optind st < length (nargv st)" "is_nonoption options ?a"
       "scan options flags (skip_nonoption (set_emsg st)) = (None, st')" "\<not> FLAG_ALLARGS flags" "FLAG_PERMUTE flags"
    | "place_off st' \<noteq> 0" | "place st' = ?a" "length ?a < 2" "\<not> is_nonoption options ?a"
    using "1.prems"(1,2) by (auto simp: unfold split: if_splits)
  then show ?case
  proof cases
    case 1
    then show ?thesis using "1.prems" by (auto simp: unfold)
  next
    case 2
    have "\<not> optreset (skip_nonoption (set_emsg st))" "place (skip_nonoption (set_emsg st)) = ''''"
      using "1.prems"(2) by (simp_all add: skip_nonoption_def Let_def split: option.splits)
    then show ?thesis using "1.IH" 2 "1.prems"(2) rs by (simp add: not_le)
  next
    case 4
    then have "?a = ''-''" by (cases ?a) (auto simp: is_nonoption_def)
    then show ?thesis using 4 by (simp add: is_nonoption_def)
  qed blast
qed

section \<open>One option\<close>

text \<open>A long option moves to the next argument or the one after it, unless it is left to the short
  options.\<close>

lemma parse_long_props:
  assumes "parse_long_options options longs short_too st = (r, st')" and "optind st < length (nargv st)"
    and "\<forall>l \<in> set longs. opt_val l \<noteq> -1"
  shows "nargv st' = nargv st \<and> optreset st' = optreset st \<and> nonopt_start st' = nonopt_start st
     \<and> nonopt_end st' = nonopt_end st \<and> place st' = place st
     \<and> (if r = -1 then short_too \<and> st' = st else optind st < optind st' \<and> optind st' \<le> length (nargv st))"
proof -
  let ?cur = "takeWhile (\<lambda>x. x \<noteq> CHR ''='') (place st)"
  obtain match amb where m: "match_long longs ?cur short_too 0 longs None False = (match, amb)" by fastforce
  have bound: "match = None \<or> the match < length longs"
  proof -
    have "match_long longs cur sh i ls mt a = (m', a') \<Longrightarrow> i + length ls \<le> length longs \<Longrightarrow>
        mt = None \<or> the mt < length longs \<Longrightarrow> m' = None \<or> the m' < length longs" for cur sh i ls mt a m' a'
      by (induction ls arbitrary: i mt a) (auto split: if_splits option.splits)
    then show ?thesis using m by fastforce
  qed
  have chars: "BADCH \<noteq> -1" "BADARG options \<noteq> -1"
    by (auto simp: BADCH_def BADARG_def of_char_def split: list.splits char.splits bool.splits)
  show ?thesis
  proof (cases "amb \<or> match = None")
    case True
    then show ?thesis
      using assms(1,2) chars by (auto simp: parse_long_options_def m Let_def split: if_splits)
  next
    case False
    then obtain k where k: "match = Some k" "\<not> amb" by auto
    have val: "opt_val (longs ! k) \<noteq> -1" using bound k assms(3) by simp
    show ?thesis
      using assms(1,2) chars val
      by (cases "opt_has_arg (longs ! k)"; cases "opt_flag (longs ! k)")
         (auto simp: parse_long_options_def m k Let_def arg_at_def missing_opt_def split: if_splits)
  qed
qed

text \<open>What one option does to the parser, short or long: it keeps the arguments and the invariant, and
  consumes some of the text.\<close>

definition consumes :: "getopt_state \<Rightarrow> int \<Rightarrow> getopt_state \<Rightarrow> bool" where
  "consumes st r st' \<longleftrightarrow> getopt_ok st' \<and> (place st' \<noteq> '''' \<longrightarrow> place_off st' \<noteq> 0) \<and> nargv st' = nargv st \<and> (r \<noteq> -1 \<longrightarrow> remaining st' < remaining st)"

lemma consumes_ignore [simp]:
  "consumes st r (st'\<lparr>optarg := x\<rparr>) = consumes st r st'" "consumes st r (st'\<lparr>optopt := y\<rparr>) = consumes st r st'"
  by (auto simp: consumes_def getopt_ok_def remaining_def split: option.splits)

lemma consumes_arg:
  assumes "getopt_ok st" and "place st \<noteq> ''''" and "optind st < n" and "n \<le> length (nargv st)"
  shows "consumes st r (set_emsg (st\<lparr>optind := n\<rparr>))"
  using consume_arg[OF assms(1) _ assms(3,4)] assms(1,2) by (auto simp: consumes_def getopt_ok_def)

lemma set_emsg_eqI:
  assumes "nargv st' = nargv st" and "optreset st' = optreset st" and "nonopt_start st' = nonopt_start st"
    and "nonopt_end st' = nonopt_end st" and "optind st' = n" and "place st' = ''''"
  shows "consumes st0 r st' = consumes st0 r (set_emsg (st\<lparr>optind := n\<rparr>))"
  using assms by (auto simp: consumes_def getopt_ok_def remaining_def split: option.splits)

lemma consumes_emsg:
  assumes "getopt_ok st" and "place st \<noteq> ''''" and "nargv st' = nargv st" and "optreset st' = optreset st"
    and "nonopt_start st' = nonopt_start st" and "nonopt_end st' = nonopt_end st" and "place st' = ''''"
    and "optind st < optind st'" and "optind st' \<le> length (nargv st)"
  shows "consumes st r st'"
  using set_emsg_eqI[OF assms(3-6) refl assms(7)] consumes_arg[OF assms(1,2,8,9)] by simp

text \<open>Reading one character of a cluster of options.\<close>

lemma consumes_char:
  assumes "getopt_ok st" and "place st = c # rest" and "rest \<noteq> ''''"
  shows "consumes st r (st\<lparr>place := rest, place_off := Suc k\<rparr>)"
  using assms by (auto simp: consumes_def getopt_ok_def remaining_def split: option.splits)

lemma long_W_consumes:
  assumes "long_W options longs st1 = (r, st')" and "\<forall>l \<in> set longs. opt_val l \<noteq> -1" and "getopt_ok st"
    and "place st \<noteq> ''''" and "nargv st1 = nargv st" and "optreset st1 = optreset st"
    and "nonopt_start st1 = nonopt_start st" and "nonopt_end st1 = nonopt_end st"
    and "optind st \<le> optind st1" and "optind st1 < length (nargv st)"
  shows "consumes st r st'"
proof -
  obtain st2 where p: "parse_long_options options longs False st1 = (r, st2)" and st': "st' = set_emsg st2"
    using assms(1) by (auto simp: long_W_def split: prod.splits)
  note q = parse_long_props[OF p _ assms(2)]
  have "r \<noteq> -1" using q assms(5,10) by auto
  then have "optind st < optind st2" "optind st2 \<le> length (nargv st)" using q assms(5,9,10) by auto
  then have "consumes st r (set_emsg (st\<lparr>optind := optind st2\<rparr>))"
    using consumes_arg[OF assms(3,4)] by blast
  then show ?thesis using set_emsg_eqI[of st' st "optind st2" st r] q assms(5-8,10) st' by simp
qed

lemma getopt_short_consumes:
  assumes "getopt_short options (Some longs) st = (r, st')" and "getopt_ok st" and "place st \<noteq> ''''"
    and "\<forall>l \<in> set longs. opt_val l \<noteq> -1"
    and "take 1 (place st) = ''-'' \<longrightarrow> place st = ''-'' \<and> strchr CHR ''-'' options \<noteq> None"
  shows "consumes st r st'"
proof -
  obtain c rest where p: "place st = c # rest" using assms(3) by (cases "place st") auto
  have lt: "optind st < length (nargv st)" using assms(2,3) by (simp add: getopt_ok_def)
  let ?st = "st\<lparr>place := rest, place_off := Suc (place_off st)\<rparr>"
  note emsg = consumes_emsg[OF assms(2,3)]
  have plain: "consumes st r' (if rest = '''' then ?st\<lparr>optind := Suc (optind st)\<rparr> else ?st)" for r'
    using emsg[of "?st\<lparr>optind := Suc (optind st)\<rparr>"] consumes_char[OF assms(2) p] lt by simp
  have W: "consumes st r' u" if "long_W options longs v = (r', u)" "nargv v = nargv st" "optreset v = optreset st"
      "nonopt_start v = nonopt_start st" "nonopt_end v = nonopt_end st" "optind st \<le> optind v" "optind v < length (nargv st)" for r' u v
    using long_W_consumes[OF that(1) assms(4,2,3) that(2-7)] .
  show ?thesis
  proof (cases "if c = CHR '':'' \<or> (c = CHR ''-'' \<and> rest \<noteq> '''') then None else strchr c options")
    case None
    then have "\<not> (c = CHR ''-'' \<and> rest = '''')" using assms(5) p by (auto split: if_splits)
    then have "r = BADCH" "st' = (if rest = '''' then ?st\<lparr>optind := Suc (optind st)\<rparr> else ?st)\<lparr>optopt := of_char c\<rparr>"
      using assms(1) None by (auto simp: getopt_short_def p Let_def)
    then show ?thesis using plain by simp
  next
    case (Some oli)
    then have found: "c \<noteq> CHR '':''" "c = CHR ''-'' \<longrightarrow> rest = ''''" "strchr c options = Some oli"
      by (auto split: if_splits)
    consider "c = CHR ''W''" "take 1 oli = '';''" | "\<not> (c = CHR ''W'' \<and> take 1 oli = '';'')" "take 1 oli \<noteq> '':''"
      | "\<not> (c = CHR ''W'' \<and> take 1 oli = '';'')" "take 1 oli = '':''" by blast
    then show ?thesis
    proof cases
      case 1
      then show ?thesis using assms(1) found lt W[of _ r st'] emsg[of st']
        by (cases "rest = ''''"; cases "length (nargv st) \<le> Suc (optind st)") (auto simp: getopt_short_def p Let_def)
    next
      case 2
      then show ?thesis using assms(1) found plain by (cases "rest = ''''") (auto simp: getopt_short_def p Let_def)
    next
      case 3
      then show ?thesis using assms(1) found lt emsg[of st']
        by (cases "rest = ''''"; cases "length (nargv st) \<le> Suc (optind st)"; cases "take 1 (tl oli) = '':''")
           (auto simp: getopt_short_def p Let_def)
    qed
  qed
qed


lemma getopt_option_consumes:
  assumes "getopt_option options (Some longs) flags st = (r, st')" and "getopt_ok st" and "place st \<noteq> ''''"
    and "\<forall>l \<in> set longs. opt_val l \<noteq> -1"
    and "place_off st \<noteq> 0 \<or> (place st = ''-'' \<and> strchr CHR ''-'' options \<noteq> None)"
  shows "consumes st r st'"
proof -
  have lt: "optind st < length (nargv st)" using assms(2,3) by (simp add: getopt_ok_def)
  let ?dash = "take 1 (place st) = ''-''"
  show ?thesis
  proof (cases "place_off st \<noteq> 0 \<and> (?dash \<or> FLAG_LONGONLY flags)")
    case True
    define st1 where "st1 = (if ?dash then st\<lparr>place := tl (place st), place_off := place_off st + 1\<rparr> else st)"
    define short where "short = (\<not> ?dash \<and> take 1 (place st) \<noteq> '':'' \<and> strchr (hd (place st)) options \<noteq> None)"
    obtain r2 st2 where p: "parse_long_options options longs short st1 = (r2, st2)" by fastforce
    have same: "nargv st1 = nargv st" "optind st1 = optind st" "optreset st1 = optreset st"
        "nonopt_start st1 = nonopt_start st" "nonopt_end st1 = nonopt_end st" by (simp_all add: st1_def)
    note q = parse_long_props[OF p, unfolded same, OF lt assms(4)]
    have res: "(r, st') = (if r2 \<noteq> -1 then (r2, set_emsg st2) else getopt_short options (Some longs) st2)"
      using assms(1) True p unfolding st1_def short_def by (simp add: getopt_option_def Let_def)
    show ?thesis
    proof (cases "r2 = -1")
      case True
      then have "st2 = st" "\<not> ?dash" using q by (auto simp: st1_def short_def)
      then show ?thesis using res True getopt_short_consumes[OF _ assms(2-4)] by simp
    next
      case False
      then show ?thesis using res q consumes_emsg[OF assms(2,3), of st'] by simp
    qed
  next
    case False
    then have "getopt_short options (Some longs) st = (r, st')" using assms(1) by (auto simp: getopt_option_def split: if_splits)
    moreover have "?dash \<longrightarrow> place st = ''-'' \<and> strchr CHR ''-'' options \<noteq> None" using False assms(5) by auto
    ultimately show ?thesis using getopt_short_consumes[OF _ assms(2-4)] by blast
  qed
qed

lemma scan_stops: "scan options flags st = (Some x, st') \<Longrightarrow> place st' = ''''"
proof (induction options flags st rule: scan.induct)
  case (1 options flags st)
  let ?st = "st\<lparr>optreset := False\<rparr>"
  have fin: "place (finish_permute u) = place u" for u
    by (simp add: finish_permute_def split: option.splits)
  consider "place st' = ''''" | "\<not> (\<not> optreset st \<and> place st \<noteq> '''')" "\<not> optind ?st \<ge> length (nargv ?st)"
       "is_nonoption options (nargv ?st ! optind ?st)" "\<not> FLAG_ALLARGS flags" "FLAG_PERMUTE flags"
       "scan options flags (skip_nonoption (set_emsg ?st)) = (Some x, st')"
    using "1.prems" by (auto simp: scan.simps[of options flags st] Let_def fin split: if_splits)
  then show ?case by cases (use "1.IH"[of ?st _ "set_emsg ?st"] in auto)
qed

text \<open>The invariant between two calls.\<close>

definition getopt_inv :: "getopt_state \<Rightarrow> bool" where
  "getopt_inv st \<longleftrightarrow> getopt_ok st \<and> (place st \<noteq> '''' \<longrightarrow> place_off st \<noteq> 0)"

lemma getopt_start_inv: "argv \<noteq> [] \<Longrightarrow> getopt_inv (getopt_start argv)"
  by (cases argv) (auto simp: getopt_inv_def getopt_ok_def getopt_start_def)

lemma getopt_internal_keeps:
  assumes "getopt_internal posix options (Some longs) flags st = (r, st')" and "getopt_inv st"
    and "\<forall>l \<in> set longs. opt_val l \<noteq> -1"
  shows "getopt_ok st' \<and> (r \<noteq> -1 \<longrightarrow> getopt_inv st') \<and> mset (nargv st') = mset (nargv st)
     \<and> (r \<noteq> -1 \<longrightarrow> remaining st' < remaining st)"
proof -
  have ok: "getopt_ok st" "\<not> optreset st" "optind st \<noteq> 0" "place st \<noteq> '''' \<longrightarrow> place_off st \<noteq> 0"
    using assms(2) by (auto simp: getopt_inv_def getopt_ok_def)
  define st1 where "st1 = (if posixly_correct st = None then st\<lparr>posixly_correct := Some posix\<rparr> else st)\<lparr>optarg := None\<rparr>"
  have st1: "getopt_ok st1" "remaining st1 = remaining st" "nargv st1 = nargv st" "\<not> optreset st1"
      "place st1 \<noteq> '''' \<longrightarrow> place_off st1 \<noteq> 0"
    using ok by (auto simp: st1_def getopt_ok_def remaining_def split: option.splits)
  define opts where "opts = (if take 1 options = ''+'' \<or> take 1 options = ''-'' then tl options else options)"
  define fl where "fl = (if take 1 options = ''-'' then flags\<lparr>FLAG_ALLARGS := True\<rparr>
      else if posixly_correct st1 = Some True \<or> take 1 options = ''+'' then flags\<lparr>FLAG_PERMUTE := False\<rparr> else flags)"
  have eq: "getopt_internal posix options (Some longs) flags st =
      (case scan opts fl st1 of (Some r, st) \<Rightarrow> (r, st) | (None, st) \<Rightarrow> getopt_option opts (Some longs) fl st)"
    unfolding opts_def fl_def st1_def getopt_internal_def Let_def using ok(2,3) by auto
  obtain sr st2 where sc: "scan opts fl st1 = (sr, st2)" by fastforce
  note sp = scan_props[OF st1(1) sc]
  show ?thesis
  proof (cases sr)
    case None
    have res: "getopt_option opts (Some longs) fl st2 = (r, st')" using assms(1) eq sc None by simp
    have "consumes st2 r st'"
      by (rule getopt_option_consumes[OF res])
         (use sp None assms(3) scan_place[OF sc[unfolded None] st1(4,5)] in auto)
    then show ?thesis using sp None st1 by (auto simp: consumes_def getopt_inv_def)
  next
    case (Some x)
    have res: "x = r" "st2 = st'" using assms(1) eq sc Some by auto
    have "place st2 = ''''" using scan_stops[of opts fl st1 x st2] sc Some by simp
    then show ?thesis using sp Some st1 res by (auto simp: getopt_inv_def)
  qed
qed


text \<open>C23: every call of \<open>getopt_long\<close> and \<open>getopt_long_only\<close> returns and keeps the parser's state sound:
  \<open>optind\<close> stays within the vector, the argument vector stays a rearrangement of the original one,
  the blocks handed to \<open>permute_args\<close> are never empty (so it never divides by zero), and a call that
  does not end the options consumes some of the remaining text, so that a loop over the options
  ends.\<close>

theorem getopt_long_sound:
  assumes "getopt_inv st" and "\<forall>l \<in> set longs. opt_val l \<noteq> -1"
    and "getopt_long posix options longs st = (r, st') \<or> getopt_long_only posix options longs st = (r, st')"
  shows "0 < optind st' \<and> optind st' \<le> length (nargv st') \<and> mset (nargv st') = mset (nargv st)
     \<and> (r \<noteq> -1 \<longrightarrow> getopt_inv st' \<and> remaining st' < remaining st)
     \<and> (\<forall>s e. nonopt_start st' = Some s \<and> nonopt_end st' = Some e \<longrightarrow> s < e \<and> e \<le> optind st')"
proof -
  have "getopt_ok st' \<and> (r \<noteq> -1 \<longrightarrow> getopt_inv st') \<and> mset (nargv st') = mset (nargv st)
     \<and> (r \<noteq> -1 \<longrightarrow> remaining st' < remaining st)"
    using assms getopt_internal_keeps unfolding getopt_long_def getopt_long_only_def by blast
  then show ?thesis by (auto simp: getopt_ok_def)
qed

definition demo_longs :: "option_spec list" where
  "demo_longs = [\<lparr>opt_name = ''timestep'', opt_has_arg = required_argument, opt_flag = None, opt_val = 116\<rparr>]"

theorem getopt_long_sound_witness:
  "\<exists>r st'. getopt_long False ''St:'' demo_longs (getopt_start [''dpsim'', ''file'', ''--timestep=3'']) = (r, st')
     \<and> mset (nargv st') = {# ''dpsim'', ''file'', ''--timestep=3'' #} \<and> 0 < optind st'"
proof -
  obtain r st' where "getopt_long False ''St:'' demo_longs (getopt_start [''dpsim'', ''file'', ''--timestep=3'']) = (r, st')"
    by fastforce
  then show ?thesis
    using getopt_long_sound[of "getopt_start [''dpsim'', ''file'', ''--timestep=3'']" demo_longs False "''St:''" r st']
      getopt_start_inv[of "[''dpsim'', ''file'', ''--timestep=3'']"]
    by (simp add: demo_longs_def) (simp add: getopt_start_def)
qed

end
