(* ===== verification/CommandLineArgs.thy ===== *)
theory CommandLineArgs
  imports MNASolver Simulation Getopt
begin

text \<open>
  The command line (\<open>Source/Utils.cpp\<close>, \<open>Include/dpsim/Utils.h\<close>).

  The constructor runs over any option parser: where the platform has a \<open>getopt_long\<close> the code
  uses it, elsewhere the one of \<open>Compat/getopt.h\<close>. A parser is the record \<open>getopt_ops\<close>. The
  conversions that depend on the platform (\<open>std::stod\<close> and \<open>std::stoi\<close>, the clock,
  \<open>std::get_time\<close> with \<open>std::mktime\<close>) are the record \<open>std_lib\<close>; \<open>Inl\<close> is what they throw.
\<close>

section \<open>State\<close>

datatype log_level = NONE | DEBUG | INFO | WARN | ERROR

record argument =
  arg_name :: string
  arg_has_arg :: has_arg
  arg_val :: char
  arg_valdesc :: "string option"
  arg_desc :: string

record command_line =
  mProgramName :: string
  mArguments :: "argument list"
  timeStep :: real
  duration :: real
  sysFreq :: real
  scenario :: int
  logLevel :: log_level
  cl_name :: string
  startSynch :: bool
  blocking :: bool
  solver_domain :: domain
  solver_type_of :: solver_type
  startTime :: int
  positional :: "string list"
  options :: "string \<rightharpoonup> real"

record std_lib =
  stod :: "string \<Rightarrow> exn + real"
  stoi :: "string \<Rightarrow> exn + int"
  clock_now :: int
  parse_date :: "string \<Rightarrow> int option"

record 'g getopt_ops =
  go_next :: "'g \<Rightarrow> int \<times> 'g"
  go_optarg :: "'g \<Rightarrow> string option"
  go_optind :: "'g \<Rightarrow> nat"
  go_argv :: "'g \<Rightarrow> string list"

definition arguments :: "argument list" where
  "arguments = map (\<lambda>(n, h, v, vd, d). \<lparr>arg_name = n, arg_has_arg = h, arg_val = v, arg_valdesc = vd, arg_desc = d\<rparr>)
    [(''start-synch'', no_argument, CHR ''S'', None, ''''),
     (''blocking'', no_argument, CHR ''b'', None, ''''),
     (''help'', no_argument, CHR ''h'', None, ''''),
     (''timestep'', required_argument, CHR ''t'', Some ''SECS'', ''Simulation time-step''),
     (''duration'', required_argument, CHR ''d'', Some ''SECS'', ''Simulation duration''),
     (''system-freq'', required_argument, CHR ''f'', Some ''HZ'', ''System Frequency''),
     (''scenario'', required_argument, CHR ''s'', Some ''NUM'', ''Scenario selection''),
     (''log-level'', required_argument, CHR ''l'', Some ''(NONE|INFO|DEBUG|WARN|ERROR)'', ''Logging level''),
     (''start-at'', required_argument, CHR ''a'', Some ''ISO8601'', ''Start time of real-time simulation''),
     (''start-in'', required_argument, CHR ''i'', Some ''SECS'', ''''),
     (''solver-domain'', required_argument, CHR ''D'', Some ''(DP|EMT)'', ''Domain of solver''),
     (''solver-type'', required_argument, CHR ''T'', Some ''(MNA)'', ''Type of solver''),
     (''option'', required_argument, CHR ''o'', Some ''KEY=VALUE'', ''User-definable options''),
     (''name'', required_argument, CHR ''n'', Some ''NAME'', ''Name of log files'')]"

definition short_options :: string where
  "short_options = ''ht:d:s:l:a:i:f:D:T:o:Sbn:''"

definition long_options :: "option_spec list" where
  "long_options = map (\<lambda>a. \<lparr>opt_name = arg_name a, opt_has_arg = arg_has_arg a, opt_flag = None,
     opt_val = of_char (arg_val a)\<rparr>) arguments"

section \<open>Operations\<close>

text \<open>A conversion that may throw, and the member it sets.\<close>

definition set_with :: "exn + 'v \<Rightarrow> ('v \<Rightarrow> command_line \<Rightarrow> command_line) \<Rightarrow> command_line \<Rightarrow> command_line outcome" where
  "set_with r f a = (case r of Inl x \<Rightarrow> Throw x a | Inr v \<Rightarrow> Ok (f v a))"

text \<open>\<open>-o KEY=VALUE\<close>; without an equals sign the option is ignored.\<close>

definition add_option :: "std_lib \<Rightarrow> string \<Rightarrow> command_line \<Rightarrow> command_line outcome" where
  "add_option std arg a =
     (case strchr CHR ''='' arg of
        None \<Rightarrow> Ok a
      | Some value \<Rightarrow> set_with (stod std value)
          (\<lambda>v a. a\<lparr>options := (options a)(takeWhile (\<lambda>c. c \<noteq> CHR ''='') arg \<mapsto> v)\<rparr>) a)"

definition set_log_level :: "string \<Rightarrow> command_line \<Rightarrow> command_line outcome" where
  "set_log_level arg a =
     (if arg = ''DEBUG'' then Ok (a\<lparr>logLevel := DEBUG\<rparr>)
      else if arg = ''INFO'' then Ok (a\<lparr>logLevel := INFO\<rparr>)
      else if arg = ''ERROR'' then Ok (a\<lparr>logLevel := ERROR\<rparr>)
      else if arg = ''WARN'' then Ok (a\<lparr>logLevel := WARN\<rparr>)
      else if arg = ''NONE'' then Ok (a\<lparr>logLevel := NONE\<rparr>)
      else Throw (InvalidArgument ''Invalid value for --log-level: must be a string of DEBUG, INFO, ERROR, WARN or NONE'') a)"

definition set_domain :: "string \<Rightarrow> command_line \<Rightarrow> command_line outcome" where
  "set_domain arg a =
     (if arg = ''DP'' then Ok (a\<lparr>solver_domain := DP\<rparr>)
      else if arg = ''EMT'' then Ok (a\<lparr>solver_domain := EMT\<rparr>)
      else Throw (InvalidArgument ''Invalid value for --solver-domain: must be a string of DP, EMT'') a)"

definition set_type :: "string \<Rightarrow> command_line \<Rightarrow> command_line outcome" where
  "set_type arg a =
     (if arg = ''MNA'' then Ok (a\<lparr>solver_type_of := MNA\<rparr>)
      else Throw (InvalidArgument ''Invalid value for --solver-type: must be a string of MNA'') a)"

text \<open>\<open>-i\<close>: \<open>static_cast<int>(deltaT * 1e3)\<close> truncates towards zero and is undefined outside the range
  of \<open>int\<close>; times are in nanoseconds.\<close>

definition set_start_in :: "std_lib \<Rightarrow> (real \<Rightarrow> real) \<Rightarrow> string \<Rightarrow> command_line \<Rightarrow> command_line outcome" where
  "set_start_in std rnd arg a =
     (case stod std arg of
        Inl x \<Rightarrow> Throw x a
      | Inr deltaT \<Rightarrow>
          (let x = rnd (deltaT * 1000); n = (if x < 0 then - \<lfloor>- x\<rfloor> else \<lfloor>x\<rfloor>)
           in if n < -2147483648 \<or> n > 2147483647 then Throw (UndefinedBehaviour ''double to int'') a
              else Ok (a\<lparr>startTime := clock_now std + n * 1000000\<rparr>)))"

definition set_start_at :: "std_lib \<Rightarrow> string \<Rightarrow> command_line \<Rightarrow> command_line outcome" where
  "set_start_at std arg a =
     (case parse_date std arg of
        None \<Rightarrow> Throw (InvalidArgument ''Invalid value for --start-at: must be a ISO8601 date'') a
      | Some t \<Rightarrow> Ok (a\<lparr>startTime := t\<rparr>))"

text \<open>The \<open>switch\<close> on the result of \<open>getopt_long\<close>. Reading through a null \<open>optarg\<close> is undefined.\<close>

definition with_arg :: "string option \<Rightarrow> (string \<Rightarrow> command_line \<Rightarrow> command_line outcome) \<Rightarrow> command_line \<Rightarrow> command_line outcome" where
  "with_arg oarg f a = (case oarg of None \<Rightarrow> Throw (UndefinedBehaviour ''optarg'') a | Some arg \<Rightarrow> f arg a)"

definition handle_option ::
    "std_lib \<Rightarrow> (real \<Rightarrow> real) \<Rightarrow> int \<Rightarrow> string option \<Rightarrow> command_line \<Rightarrow> command_line outcome" where
  "handle_option std rnd c oarg a =
     (if c = of_char CHR ''S'' then Ok (a\<lparr>startSynch := True\<rparr>)
      else if c = of_char CHR ''b'' then Ok (a\<lparr>blocking := True\<rparr>)
      else if c = of_char CHR ''t'' then with_arg oarg (\<lambda>s. set_with (stod std s) (\<lambda>v a. a\<lparr>timeStep := v\<rparr>)) a
      else if c = of_char CHR ''d'' then with_arg oarg (\<lambda>s. set_with (stod std s) (\<lambda>v a. a\<lparr>duration := v\<rparr>)) a
      else if c = of_char CHR ''f'' then with_arg oarg (\<lambda>s. set_with (stod std s) (\<lambda>v a. a\<lparr>sysFreq := v\<rparr>)) a
      else if c = of_char CHR ''s'' then with_arg oarg (\<lambda>s. set_with (stoi std s) (\<lambda>v a. a\<lparr>scenario := v\<rparr>)) a
      else if c = of_char CHR ''o'' then with_arg oarg (add_option std) a
      else if c = of_char CHR ''l'' then with_arg oarg set_log_level a
      else if c = of_char CHR ''D'' then with_arg oarg set_domain a
      else if c = of_char CHR ''T'' then with_arg oarg set_type a
      else if c = of_char CHR ''i'' then with_arg oarg (set_start_in std rnd) a
      else if c = of_char CHR ''a'' then with_arg oarg (set_start_at std) a
      else if c = of_char CHR ''n'' then with_arg oarg (\<lambda>s a. Ok (a\<lparr>cl_name := s\<rparr>)) a
      else if c = of_char CHR ''h'' then Throw (ProcessExit 0) a
      else Throw (ProcessExit (-1)) a)"

partial_function (option) option_loop ::
    "'g getopt_ops \<Rightarrow> std_lib \<Rightarrow> (real \<Rightarrow> real) \<Rightarrow> command_line \<times> 'g \<Rightarrow> (command_line \<times> 'g) outcome option" where
  "option_loop go std rnd s =
     (let (c, g) = go_next go (snd s)
      in if c = -1 then Some (Ok (fst s, g))
         else case handle_option std rnd c (go_optarg go g) (fst s) of
                Throw x a \<Rightarrow> Some (Throw x (a, g))
              | Ok a \<Rightarrow> option_loop go std rnd (a, g))"

text \<open>The constructor: the defaults, the options, the rest of the arguments.\<close>

definition CommandLineArgs_new ::
    "'g getopt_ops \<Rightarrow> std_lib \<Rightarrow> (real \<Rightarrow> real) \<Rightarrow> string \<Rightarrow> real \<Rightarrow> real \<Rightarrow> real \<Rightarrow> int \<Rightarrow> log_level \<Rightarrow> bool \<Rightarrow> bool \<Rightarrow>
     domain \<Rightarrow> solver_type \<Rightarrow> 'g \<Rightarrow> (command_line \<times> 'g) outcome option" where
  "CommandLineArgs_new go std rnd nm dt d sf s ll ss b sd st g =
     map_option (\<lambda>r. and_then r (\<lambda>(a, g).
         Ok (a\<lparr>positional := positional a @ drop (go_optind go g) (go_argv go g)\<rparr>, g)))
       (option_loop go std rnd
         (\<lparr>mProgramName = hd (go_argv go g), mArguments = arguments, timeStep = dt, duration = d, sysFreq = sf,
           scenario = s, logLevel = ll, cl_name = nm, startSynch = ss, blocking = b, solver_domain = sd,
           solver_type_of = st, startTime = 0, positional = [], options = Map.empty\<rparr>, g))"

definition showCopyright :: "string \<Rightarrow> string \<Rightarrow> string list" where
  "showCopyright version release =
     [''DPsim '' @ version @ ''-'' @ release,
      '' Copyright 2017-2018, Institute for Automation of Complex Power Systems, EONERC'',
      '' Markus Mirz <MMirz@eonerc.rwth-aachen.de>'',
      '' Steffen Vogel <StVogel@eonerc.rwth-aachen.de>'']"

definition usage_line :: "argument \<Rightarrow> string" where
  "usage_line a = ''  -'' @ [arg_val a] @ '', --'' @ arg_name a @
     (case arg_valdesc a of None \<Rightarrow> '''' | Some v \<Rightarrow> '' '' @ v) @ '' '' @ arg_desc a"

definition showUsage :: "string \<Rightarrow> string \<Rightarrow> command_line \<Rightarrow> string list" where
  "showUsage version release a =
     [''Usage: '' @ mProgramName a @ '' [OPTIONS] [FILES]'', '''', '' Available options:''] @
     map usage_line (mArguments a) @ [''''] @ showCopyright version release"

section \<open>Parsing over any option parser\<close>

lemma handle_option_positional:
  assumes "handle_option std rnd c oarg a = Ok a'"
  shows "positional a' = positional a"
proof -
  have set_with: "set_with r f a = Ok a' \<Longrightarrow> (\<And>v. positional (f v a) = positional a) \<Longrightarrow> positional a' = positional a" for r f
    by (auto simp: set_with_def split: sum.splits)
  have parts: "add_option std arg a = Ok a' \<Longrightarrow> positional a' = positional a"
    "set_log_level arg a = Ok a' \<Longrightarrow> positional a' = positional a"
    "set_domain arg a = Ok a' \<Longrightarrow> positional a' = positional a" "set_type arg a = Ok a' \<Longrightarrow> positional a' = positional a"
    "set_start_in std rnd arg a = Ok a' \<Longrightarrow> positional a' = positional a"
    "set_start_at std arg a = Ok a' \<Longrightarrow> positional a' = positional a" for arg
    by (auto simp: add_option_def set_log_level_def set_domain_def set_type_def set_start_in_def set_start_at_def Let_def
        split: option.splits if_splits sum.splits dest!: set_with)
  show ?thesis
    using assms
    by (auto simp: handle_option_def with_arg_def split: if_splits option.splits dest: parts intro: set_with)
qed

text \<open>The contract of an option parser: every call that is not the end of the options makes some
  progress, and the argument vector is only rearranged.\<close>

locale option_parser =
  fixes go :: "'g getopt_ops" and inv :: "'g \<Rightarrow> bool" and left :: "'g \<Rightarrow> nat"
  assumes progress: "inv g \<Longrightarrow> go_next go g = (c, g') \<Longrightarrow> c \<noteq> -1 \<Longrightarrow> inv g' \<and> left g' < left g"
    and argv_kept: "inv g \<Longrightarrow> go_next go g = (c, g') \<Longrightarrow> mset (go_argv go g') = mset (go_argv go g)"
begin

lemma option_loop_returns:
  assumes "inv g"
  shows "\<exists>r. option_loop go std rnd (a, g) = Some r \<and> mset (go_argv go (snd (final_state r))) = mset (go_argv go g)
     \<and> (returned r \<longrightarrow> positional (fst (final_state r)) = positional a)"
  using assms
proof (induction "left g" arbitrary: a g rule: less_induct)
  case less
  obtain c g' where n: "go_next go g = (c, g')" by fastforce
  note kept = argv_kept[OF less.prems n]
  show ?case
  proof (cases "c = -1")
    case True
    then show ?thesis using n kept by (subst option_loop.simps) simp
  next
    case False
    show ?thesis
    proof (cases "handle_option std rnd c (go_optarg go g') a")
      case (Ok a')
      have "inv g'" "left g' < left g" using progress[OF less.prems n False] by blast+
      from less.hyps[OF this(2,1), of a'] show ?thesis
        using n False Ok kept handle_option_positional[OF Ok] by (subst option_loop.simps) simp
    next
      case (Throw x a')
      then show ?thesis using n False kept by (subst option_loop.simps) simp
    qed
  qed
qed

lemma positional_from_argv:
  assumes "inv g"
  shows "\<exists>r. CommandLineArgs_new go std rnd nm dt d sf s ll ss b sd st g = Some r
     \<and> (\<forall>a g'. r = Ok (a, g') \<longrightarrow> positional a = drop (go_optind go g') (go_argv go g')
           \<and> mset (go_argv go g') = mset (go_argv go g))"
proof -
  let ?a = "\<lparr>mProgramName = hd (go_argv go g), mArguments = arguments, timeStep = dt, duration = d, sysFreq = sf,
           scenario = s, logLevel = ll, cl_name = nm, startSynch = ss, blocking = b, solver_domain = sd,
           solver_type_of = st, startTime = 0, positional = [], options = Map.empty\<rparr>"
  obtain r where "option_loop go std rnd (?a, g) = Some r" "mset (go_argv go (snd (final_state r))) = mset (go_argv go g)"
      "returned r \<longrightarrow> positional (fst (final_state r)) = []"
    using option_loop_returns[OF assms, of std rnd ?a] by auto
  then show ?thesis by (cases r) (auto simp: CommandLineArgs_new_def)
qed

end

section \<open>With the parser of the compatibility header\<close>

definition compat_getopt :: "bool \<Rightarrow> getopt_state getopt_ops" where
  "compat_getopt posix = \<lparr>go_next = getopt_long posix short_options long_options,
     go_optarg = optarg, go_optind = optind, go_argv = nargv\<rparr>"

lemma long_options_vals: "\<forall>l \<in> set long_options. opt_val l \<noteq> -1"
  by (auto simp: long_options_def of_char_def)

interpretation compat: option_parser "compat_getopt posix" getopt_inv remaining
  for posix :: bool
proof
  fix g c g'
  assume inv: "getopt_inv g" and n: "go_next (compat_getopt posix) g = (c, g')"
  then have keeps: "(c \<noteq> -1 \<longrightarrow> getopt_inv g') \<and> mset (nargv g') = mset (nargv g) \<and> (c \<noteq> -1 \<longrightarrow> remaining g' < remaining g)"
    using getopt_internal_keeps[OF _ inv long_options_vals] by (simp add: compat_getopt_def getopt_long_def)
  then show "c \<noteq> -1 \<Longrightarrow> getopt_inv g' \<and> remaining g' < remaining g" by blast
  show "mset (go_argv (compat_getopt posix) g') = mset (go_argv (compat_getopt posix) g)"
    using keeps by (simp add: compat_getopt_def)
qed

text \<open>C34: with the parser of the compatibility header, the constructor always ends, by returning, by
  an exception or by exiting the process. When it returns, the positional arguments are the tail of a
  rearrangement of the argument vector.\<close>

theorem CommandLineArgs_returns:
  assumes "argv \<noteq> []"
  shows "\<exists>r. CommandLineArgs_new (compat_getopt posix) std rnd nm dt d sf s ll ss b sd st (getopt_start argv) = Some r
     \<and> (\<forall>a g. r = Ok (a, g) \<longrightarrow> (\<exists>pre. mset (pre @ positional a) = mset argv))"
proof -
  obtain r where r: "CommandLineArgs_new (compat_getopt posix) std rnd nm dt d sf s ll ss b sd st (getopt_start argv) = Some r"
      "\<forall>a g'. r = Ok (a, g') \<longrightarrow> positional a = drop (optind g') (nargv g') \<and> mset (nargv g') = mset argv"
    using compat.positional_from_argv[OF getopt_start_inv[OF assms], of posix std rnd nm dt d sf s ll ss b sd st]
    by (auto simp: compat_getopt_def getopt_start_def)
  have "mset (take (optind g) (nargv g) @ positional a) = mset argv" if "r = Ok (a, g)" for a g
    using r(2) that by (metis append_take_drop_id)
  then show ?thesis using r(1) by blast
qed

definition demo_std :: std_lib where
  "demo_std = \<lparr>stod = (\<lambda>s. if s = ''2'' then Inr 2 else Inl (InvalidArgument ''stod'')),
     stoi = (\<lambda>s. Inl (InvalidArgument ''stoi'')), clock_now = 0, parse_date = (\<lambda>_. None)\<rparr>"

theorem CommandLineArgs_returns_witness:
  "\<exists>r. CommandLineArgs_new (compat_getopt False) demo_std (\<lambda>x. x) ''dpsim'' 1 1 50 (-1) INFO False False DP MNA
     (getopt_start [''dpsim'', ''a'', ''-S'', ''b'']) = Some r"
  using CommandLineArgs_returns[of "[''dpsim'', ''a'', ''-S'', ''b'']" False demo_std "\<lambda>x. x"] by blast

text \<open>the tables of options agree. Every long option has its letter in the string of short
  options, once, followed by a colon exactly if it takes an argument; all names and all letters are
  different; and every letter is handled by the \<open>switch\<close>, never by its default branch, when its
  argument is valid (the help option exits with 0).\<close>

theorem option_tables_agree:
  "distinct (map arg_name arguments) \<and> distinct (map arg_val arguments)
   \<and> list_all (\<lambda>a. case strchr (arg_val a) short_options of
        None \<Rightarrow> False
      | Some rest \<Rightarrow> (take 1 rest = '':'') = (arg_has_arg a = required_argument) \<and> strchr (arg_val a) rest = None) arguments
   \<and> list_all (\<lambda>a. handle_option std rnd (of_char (arg_val a)) None c \<noteq> Throw (ProcessExit (-1)) c) arguments"
proof -
  have "list_all (\<lambda>a. handle_option std rnd (of_char (arg_val a)) None c \<noteq> Throw (ProcessExit (-1)) c) arguments"
    by (simp add: arguments_def handle_option_def with_arg_def)
  moreover have "distinct (map arg_name arguments) \<and> distinct (map arg_val arguments)"
    by (simp add: arguments_def)
  moreover have "list_all (\<lambda>a. case strchr (arg_val a) short_options of
        None \<Rightarrow> False
      | Some rest \<Rightarrow> (take 1 rest = '':'') = (arg_has_arg a = required_argument) \<and> strchr (arg_val a) rest = None) arguments"
    by (simp add: arguments_def strchr_def short_options_def)
  ultimately show ?thesis by blast
qed

text \<open>user options. \<open>-o KEY=VALUE\<close> splits at the first equals sign and stores the converted value
  under the key, leaving all other keys alone; a text without an equals sign changes nothing, and a
  value that cannot be converted throws and changes nothing.\<close>

theorem user_option_split:
  assumes "CHR ''='' \<notin> set key"
  shows "handle_option std rnd (of_char CHR ''o'') (Some (key @ ''='' @ value)) a =
       (case stod std value of
          Inl x \<Rightarrow> Throw x a
        | Inr v \<Rightarrow> Ok (a\<lparr>options := (options a)(key \<mapsto> v)\<rparr>))
     \<and> handle_option std rnd (of_char CHR ''o'') (Some key) a = Ok a"
proof -
  have none: "dropWhile (\<lambda>x. x \<noteq> CHR ''='') key = []" using assms by (induction key) auto
  have split: "dropWhile (\<lambda>x. x \<noteq> CHR ''='') (key @ CHR ''='' # value) = CHR ''='' # value"
      "takeWhile (\<lambda>x. x \<noteq> CHR ''='') (key @ CHR ''='' # value) = key"
    using assms by (induction key) auto
  show ?thesis
    by (simp add: handle_option_def with_arg_def add_option_def strchr_def split none set_with_def)
qed

theorem user_option_split_witness:
  "\<forall>a. handle_option demo_std (\<lambda>x. x) (of_char CHR ''o'') (Some ''k=2'') a = Ok (a\<lparr>options := (options a)(''k'' \<mapsto> 2)\<rparr>)"
  using user_option_split[of "''k''" demo_std "\<lambda>x. x" "''2''"] by (simp add: demo_std_def)

end
