(* ===== verification/ExampleCim.thy ===== *)
theory ExampleCim
  imports ExampleLib CommandLineArgs
begin

text \<open>
  The example programs whose network comes from CIM files (\<open>Examples/Cxx/CIM\<close> and the \<open>WSCC\<close> programs of
  \<open>Examples/Cxx/Shmem\<close>). The reader and the methods of \<open>SystemTopology\<close> are the record \<open>cim_lib\<close>; the
  paths are those of the Linux build. A program that reads its command line takes the result of
  \<open>CommandLineArgs\<close>.
\<close>

section \<open>Offline programs\<close>

record cim_lib =
  cim_load :: "string \<Rightarrow> real \<Rightarrow> string list \<Rightarrow> domain \<Rightarrow> topology"
  cim_node :: "topology \<Rightarrow> string \<Rightarrow> node_obj"
  cim_node_name :: "node_obj \<Rightarrow> string"
  cim_addComponent :: "part \<Rightarrow> topology \<Rightarrow> topology"

text \<open>\<open>sys.mComponents.push_back(c)\<close>.\<close>

definition push_component :: "part \<Rightarrow> topology \<Rightarrow> topology" where
  "push_component p sys = sys\<lparr>top_parts := top_parts sys @ [p]\<rparr>"

definition wscc_files :: "string \<Rightarrow> string list" where
  "wscc_files path =
     [path @ ''WSCC-09_RX_DI.xml'',
      path @ ''WSCC-09_RX_EQ.xml'',
      path @ ''WSCC-09_RX_SV.xml'',
      path @ ''WSCC-09_RX_TP.xml'']"

definition WSCC_9bus_CIM :: "cim_lib \<Rightarrow> program" where
  "WSCC_9bus_CIM L =
     (let path = ''Examples/CIM/WSCC-09_RX/'';
          filenames = wscc_files path;
          simName = ''WSCC-9bus'';
          sys = cim_load L simName 60 filenames DP;
          sim = with_steadyState (simulation False simName sys 0.0001 0.1 DP MNA)
      in sim)"

definition WSCC_9bus_CIM_Dyn :: "cim_lib \<Rightarrow> program" where
  "WSCC_9bus_CIM_Dyn L =
     (let path = ''Examples/CIM/WSCC-09_RX_Dyn/'';
          filenames = wscc_files path;
          simName = ''WSCC-9bus_dyn'';
          sys = cim_load L simName 60 filenames DP;
          sim = with_steadyState (simulation False simName sys 0.0001 0.1 DP MNA)
      in sim)"

definition WSCC_9bus_CIM_Dyn_Switch :: "cim_lib \<Rightarrow> program" where
  "WSCC_9bus_CIM_Dyn_Switch L =
     (let path = ''Examples/CIM/WSCC-09_RX_Dyn/'';
          filenames = wscc_files path;
          simName = ''WSCC-9bus_dyn_switch'';
          sys = cim_load L simName 60 filenames DP;
          sw = make_part DP_Ph1 Switch ''DP_SynGen_TrStab_Step_StepLoad'';
          sw = setParameters [RealV 1000000000, RealV 0.1] sw;
          sw = connect [GND, cim_node L sys ''BUS9''] sw;
          sw = call ''open'' [] sw;
          sys = cim_addComponent L sw sys;
          sim = with_steadyState (simulation False simName sys 0.0001 0.1 DP MNA);
          sim = with_event 0.05 sw True sim;
          sim = with_event 0.07 sw False sim
      in sim)"

definition dpsim_cim :: "cim_lib \<Rightarrow> command_line \<Rightarrow> program" where
  "dpsim_cim L args =
     (let simName = ''dpsim'';
          sys = cim_load L simName (sysFreq args) (positional args) (solver_domain args)
      in simulation False simName sys (timeStep args) (duration args) (solver_domain args) (solver_type_of args))"

section \<open>Programs with interfaces\<close>

text \<open>The loop of \<open>Shmem_WSCC-9bus\<close>: magnitude and phase of every node, numbered by a counter.\<close>

definition export_node :: "node_obj \<Rightarrow> shm \<times> 32 word \<Rightarrow> shm \<times> 32 word" where
  "export_node n s =
     (let (intf, k) = s;
          v = NodeAttr n ''v'';
          intf = export_attribute RealSlot (Mag v) (sint (k + 0)) intf;
          intf = export_attribute RealSlot (Phase v) (sint (k + 1)) intf
      in (intf, k + 2))"

definition Shmem_WSCC_9bus :: "cim_lib \<Rightarrow> program" where
  "Shmem_WSCC_9bus L =
     (let path = ''Examples/CIM/WSCC-09_RX/'';
          filenames = wscc_files path;
          simName = ''Shmem_WSCC-9bus'';
          sys = cim_load L simName 60 filenames DP;
          sim = with_steadyState (simulation True simName sys 0.001 120 DP MNA);
          conf = \<lparr>queuelen = 1024, samplelen = 64, polling = 0\<rparr>;
          in_name = ''/villas-dpsim'';
          out = ''/dpsim-villas'';
          intf = make_interface_conf out in_name conf;
          (intf, k) = fold export_node (top_nodes sys) (intf, 0);
          sim = with_interface intf True True sim
      in sim)"

text \<open>\<open>sscanf(name, "BUS%u", &i)\<close>: after the literal text, white space, an optional sign and digits; a
  negative number wraps around.\<close>

definition is_digit :: "char \<Rightarrow> bool" where
  "is_digit c \<longleftrightarrow> (of_char c :: nat) \<in> {48..57}"

definition scan_BUS :: "string \<Rightarrow> 32 word option" where
  "scan_BUS name =
     (if take 3 name \<noteq> ''BUS'' then None
      else let t = dropWhile (\<lambda>c. c = CHR '' '' \<or> (of_char c :: nat) \<in> {9..13}) (drop 3 name);
               negative = (t \<noteq> [] \<and> hd t = CHR ''-'');
               t = (if t \<noteq> [] \<and> (hd t = CHR ''-'' \<or> hd t = CHR ''+'') then tl t else t);
               ds = takeWhile is_digit t
           in if ds = [] then None
              else Some (if negative then - of_nat (read_nat ds) else of_nat (read_nat ds)))"

text \<open>The loop of the other two programs: magnitude and phase of every bus, numbered by its name.\<close>

definition export_bus :: "cim_lib \<Rightarrow> node_obj \<Rightarrow> shm \<Rightarrow> shm" where
  "export_bus L n intf =
     (case scan_BUS (cim_node_name L n) of
        None \<Rightarrow> intf
      | Some i \<Rightarrow>
          (let i = i - 1;
               v = NodeAttr n ''v'';
               intf = export_attribute RealSlot (Mag v) (sint (i * 2 + 0)) intf;
               intf = export_attribute RealSlot (Phase v) (sint (i * 2 + 1)) intf
           in intf))"

definition Shmem_WSCC_9bus_Ctrl :: "cim_lib \<Rightarrow> command_line \<Rightarrow> program" where
  "Shmem_WSCC_9bus_Ctrl L args =
     (let path = ''Examples/CIM/WSCC-09_RX/'';
          filenames = wscc_files path;
          simName = ''Shmem_WSCC-9bus_Ctrl'';
          sys = cim_load L simName 60 filenames DP;
          load_profile = make_part DP_Ph1 PQLoadCS ''load_cs_profile'';
          load_profile = connect [cim_node L sys ''BUS7''] load_profile;
          load_profile = setParameters [RealV 0, RealV 0, RealV 230000] load_profile;
          sys = push_component load_profile sys;
          load = make_part DP_Ph1 PQLoadCS ''load_cs'';
          load = connect [cim_node L sys ''BUS4''] load;
          load = setParameters [RealV 0, RealV 0, RealV 230000] load;
          sys = push_component load sys;
          coefficients_profile = replicate 2000 (RealV (1 / 2000));
          coefficients = replicate 100 (RealV (1 / 100));
          filtP_profile = call ''FIRFilter'' [Vals coefficients_profile, Val (RealV 0)] (make_part Signal FIRFilter ''filter_p_profile'');
          filtP_profile = call ''setPriority'' [Val (IntV 1)] filtP_profile;
          filtP_profile = call ''setConnection'' [AttrOf (part_name load_profile) ''power_active''] filtP_profile;
          filtP_profile = call ''input.set'' [Val (RealV 0)] filtP_profile;
          sys = push_component filtP_profile sys;
          filtP = call ''FIRFilter'' [Vals coefficients, Val (RealV 0)] (make_part Signal FIRFilter ''filter_p'');
          filtP = call ''setPriority'' [Val (IntV 1)] filtP;
          filtP = call ''setConnection'' [AttrOf (part_name load) ''power_active''] filtP;
          filtP = call ''input.set'' [Val (RealV 0)] filtP;
          sys = push_component filtP sys;
          sim = with_steadyState (simulation True simName sys (timeStep args) (duration args) (solver_domain args) (solver_type_of args));
          conf = \<lparr>queuelen = 1024, samplelen = 64, polling = 0\<rparr>;
          in_name = ''/villas-dpsim1'';
          out = ''/dpsim1-villas'';
          intf = make_interface_conf out in_name conf;
          intf = fold (export_bus L) (top_nodes sys) intf;
          intf = import_attribute RealSlot (PartAttr filtP ''input'') 0 intf;
          intf = import_attribute RealSlot (PartAttr filtP_profile ''input'') 1 intf
      in with_interface intf False False sim)"

text \<open>The two scenarios of \<open>Shmem_WSCC-9bus_CtrlDist\<close>; \<open>main\<close> runs the one that the command line names, or
  nothing. The topology is passed to the simulation by value, so the component that is pushed after
  that is not part of it.\<close>

definition CtrlDist_0 :: "cim_lib \<Rightarrow> command_line \<Rightarrow> program" where
  "CtrlDist_0 L args =
     (let path = ''Examples/CIM/WSCC-09_RX/'';
          filenames = wscc_files path;
          sys = cim_load L (cl_name args) (sysFreq args) filenames DP;
          load_profile = call ''PQLoadCS'' [Val (RealV 0), Val (RealV 0), Val (RealV 230000)] (make_part DP_Ph1 PQLoadCS ''load_cs_profile'');
          load_profile = connect [cim_node L sys ''BUS7''] load_profile;
          sys = push_component load_profile sys;
          ecs = call ''CurrentSource'' [Val (ComplexV 0 0)] (make_part DP_Ph1 CurrentSource ''i_intf'');
          ecs = connect [cim_node L sys ''BUS4'', GND] ecs;
          sys = push_component ecs sys;
          sim = with_steadyState (simulation True (cl_name args @ ''_1'') sys (timeStep args) (duration args) DP MNA);
          in1 = ''/dpsim10'';
          out1 = ''/dpsim01'';
          conf = \<lparr>queuelen = 1024, samplelen = 64, polling = 0\<rparr>;
          intf1 = make_interface_conf out1 in1 conf;
          in2 = ''/villas-dpsim1'';
          out2 = ''/dpsim1-villas'';
          intf2 = make_interface_conf out2 in2 conf;
          coefficients_profile = replicate 2000 (RealV (1 / 2000));
          filtP_profile = call ''FIRFilter'' [Vals coefficients_profile, Val (RealV 0)] (make_part Signal FIRFilter ''filter_p_profile'');
          filtP_profile = call ''setPriority'' [Val (IntV 1)] filtP_profile;
          filtP_profile = call ''setConnection'' [AttrOf (part_name load_profile) ''power_active''] filtP_profile;
          filtP_profile = call ''input.set'' [Val (RealV 0)] filtP_profile;
          sys = push_component filtP_profile sys;
          intf1 = import_attribute ComplexSlot (PartAttr ecs ''I_ref'') 0 intf1;
          intf1 = export_attribute ComplexSlot (PartAttr ecs ''v_comp'') 0 intf1;
          intf2 = import_attribute RealSlot (PartAttr filtP_profile ''input'') 0 intf2;
          intf2 = fold (export_bus L) (top_nodes sys) intf2;
          sim = with_interface intf1 False True sim;
          sim = with_interface intf2 False False sim
      in with_startAt (startTime args) sim)"

definition CtrlDist_1 :: "command_line \<Rightarrow> program" where
  "CtrlDist_1 args =
     (let n1 = Node ''n1'' Single [ComplexV 218067.5 (-15833.67)];
          evs = make_part DP_Ph1 VoltageSource ''v_intf'';
          evs = setParameters [ComplexV 0 0] evs;
          evs = connect [GND, n1] evs;
          load = call ''PQLoadCS'' [Val (RealV 0), Val (RealV 0), Val (RealV 230000)] (make_part DP_Ph1 PQLoadCS ''load_cs'');
          load = connect [n1] load;
          coefficients = replicate 100 (RealV (1 / 100));
          filtP = call ''FIRFilter'' [Vals coefficients, Val (RealV 0)] (make_part Signal FIRFilter ''filter_p'');
          filtP = call ''setPriority'' [Val (IntV 1)] filtP;
          filtP = call ''setConnection'' [AttrOf (part_name load) ''active_power''] filtP;
          filtP = call ''input.set'' [Val (RealV 0)] filtP;
          sys = SystemTopology (sysFreq args) [n1] [evs, load, filtP];
          sim = simulation True (cl_name args @ ''_2'') sys (timeStep args) (duration args) DP MNA;
          in1 = ''/dpsim01'';
          out1 = ''/dpsim10'';
          conf1 = \<lparr>queuelen = 1024, samplelen = 64, polling = 0\<rparr>;
          intf1 = make_interface_conf out1 in1 conf1;
          in2 = ''/villas-dpsim2'';
          out2 = ''/dpsim2-villas'';
          conf2 = \<lparr>queuelen = 1024, samplelen = 64, polling = 0\<rparr>;
          intf2 = make_interface_conf out2 in2 conf2;
          intf1 = import_attribute ComplexSlot (PartAttr evs ''V_ref'') 0 intf1;
          intf1 = export_attribute ComplexSlot (PartAttr evs ''i_comp'') 0 intf1;
          intf2 = import_attribute RealSlot (PartAttr filtP ''input'') 0 intf2;
          intf2 = export_attribute RealSlot (PartAttr load ''power_active'') 0 intf2;
          intf2 = export_attribute ComplexSlot (PartAttr load ''v_comp'') 1 intf2;
          intf2 = export_attribute ComplexSlot (PartAttr load ''i_comp'') 2 intf2;
          sim = with_interface intf1 False True sim;
          sim = with_interface intf2 False False sim
      in with_startAt (startTime args) sim)"

definition Shmem_WSCC_9bus_CtrlDist :: "cim_lib \<Rightarrow> command_line \<Rightarrow> program option" where
  "Shmem_WSCC_9bus_CtrlDist L args =
     (if scenario args = 0 then Some (CtrlDist_0 L args)
      else if scenario args = 1 then Some (CtrlDist_1 args) else None)"

end
