(* ===== verification/ExampleExchange.thy ===== *)
theory ExampleExchange
  imports ExampleRuns ExampleShmem ExampleCim
begin

text \<open>
  What holds of the example programs with interfaces: what they import and export, and at which places
  of a sample.
\<close>

section \<open>The circuits of the programs themselves\<close>

text \<open>Everything an interface exchanges belongs to the topology, at places of the sample that exist, and no
  two exports or imports use the same place.\<close>

definition exchange_ok :: "topology \<Rightarrow> shm \<Rightarrow> bool" where
  "exchange_ok sys i \<longleftrightarrow>
     list_all (\<lambda>(t, a, idx). belongs sys a \<and> 0 \<le> idx \<and> idx < samplelen (shm_conf i)) (shm_imports i @ shm_exports i)
     \<and> distinct (map (\<lambda>(t, a, idx). idx) (shm_imports i)) \<and> distinct (map (\<lambda>(t, a, idx). idx) (shm_exports i))"

definition exchanges_ok :: "program \<Rightarrow> bool" where
  "exchanges_ok prg \<longleftrightarrow> list_all (\<lambda>(i, b, start). exchange_ok (prg_system prg) i) (prg_interfaces prg)"

text \<open>Documented behaviour of \<open>SystemTopology::component\<close>: if there is a component of that name, one of them
  is returned.\<close>

definition finds_components :: "(topology \<Rightarrow> string \<Rightarrow> part) \<Rightarrow> bool" where
  "finds_components named \<longleftrightarrow> (\<forall>sys. \<forall>p \<in> set (top_parts sys).
     named sys (part_name p) \<in> set (top_parts sys) \<and> part_name (named sys (part_name p)) = part_name p)"

lemmas exchange_defs = exchanges_ok_def exchange_ok_def check_defs

lemma shmem_single_ok:
  "complete ShmemExample \<and> exchanges_ok ShmemExample" "complete ShmemRealTime \<and> exchanges_ok ShmemRealTime"
  "complete ShmemControllableSource \<and> exchanges_ok ShmemControllableSource"
  "complete ShmemControllableFiltSource \<and> exchanges_ok ShmemControllableFiltSource"
  by (simp_all add: exchange_defs ShmemExample_def ShmemRealTime_def ShmemControllableSource_def ShmemControllableFiltSource_def)

lemma shmem_direct_ok:
  "complete (the (ShmemDistributedDirect [prog, ''0''])) \<and> exchanges_ok (the (ShmemDistributedDirect [prog, ''0'']))"
  "complete (the (ShmemDistributedDirect [prog, ''1''])) \<and> exchanges_ok (the (ShmemDistributedDirect [prog, ''1'']))"
  by (simp_all add: exchange_defs ShmemDistributedDirect_def)

lemma shmem_villas_ok:
  assumes "finds_components named"
  shows "complete (the (ShmemDistributedVillas named [prog, ''0''])) \<and> exchanges_ok (the (ShmemDistributedVillas named [prog, ''0'']))"
    and "complete (the (ShmemDistributedVillas named [prog, ''1''])) \<and> exchanges_ok (the (ShmemDistributedVillas named [prog, ''1'']))"
proof -
  show "complete (the (ShmemDistributedVillas named [prog, ''0''])) \<and> exchanges_ok (the (ShmemDistributedVillas named [prog, ''0'']))"
    by (simp add: exchange_defs ShmemDistributedVillas_def)
  let ?sys = "prg_system (the (ShmemDistributedVillas named [prog, ''1'']))"
  have "''sw'' \<in> part_name ` set (top_parts ?sys)" by (simp add: ShmemDistributedVillas_def program_defs)
  then have "named ?sys ''sw'' \<in> set (top_parts ?sys)" "part_name (named ?sys ''sw'') = ''sw''"
    using assms unfolding finds_components_def by (metis imageE)+
  then show "complete (the (ShmemDistributedVillas named [prog, ''1''])) \<and> exchanges_ok (the (ShmemDistributedVillas named [prog, ''1'']))"
    by (auto simp: exchange_defs ShmemDistributedVillas_def)
qed

lemma direct_programs:
  "ShmemDistributedDirect argv = (if length argv < 2 then None else ShmemDistributedDirect [hd argv, argv ! 1])"
  "ShmemDistributedDirect [prog, a] \<noteq> None \<longleftrightarrow> a = ''0'' \<or> a = ''1''"
  by (simp_all add: ShmemDistributedDirect_def Let_def)

lemma villas_programs:
  "ShmemDistributedVillas named argv = (if length argv < 2 then None else ShmemDistributedVillas named [hd argv, argv ! 1])"
  "ShmemDistributedVillas named [prog, a] \<noteq> None \<longleftrightarrow> a = ''0'' \<or> a = ''1''"
  by (simp_all add: ShmemDistributedVillas_def Let_def)


text \<open>The two programs of \<open>ShmemDistributedDirect\<close> are coupled with each other by one blocking interface each,
  and their final time is not a whole number of steps.\<close>

lemma direct_pair_is_synchronous:
  "\<exists>i j. prg_interfaces (the (ShmemDistributedDirect [x, ''0''])) = [(i, True, True)]
     \<and> prg_interfaces (the (ShmemDistributedDirect [y, ''1''])) = [(j, True, True)]
     \<and> shm_wname i = shm_rname j \<and> shm_rname i = shm_wname j \<and> \<not> whole_steps (the (ShmemDistributedDirect [x, ''0'']))"
  by (simp add: ShmemDistributedDirect_def program_defs whole_steps_def prg_steps_def)

definition demo_named :: "topology \<Rightarrow> string \<Rightarrow> part" where
  "demo_named sys name = (case filter (\<lambda>p. part_name p = name) (top_parts sys) of p # ps \<Rightarrow> p | [] \<Rightarrow> make_part Signal Switch name)"


section \<open>Networks from CIM files\<close>

definition node_exports :: "(nat \<times> node_obj) list \<Rightarrow> (slot_type \<times> source \<times> int) list" where
  "node_exports ns = concat (map (\<lambda>(j, n).
     [(RealSlot, Mag (NodeAttr n ''v''), 2 * int j), (RealSlot, Phase (NodeAttr n ''v''), 2 * int j + 1)]) ns)"

lemma sint_small: "n < 2 ^ 31 \<Longrightarrow> sint (of_nat n :: 32 word) = int n"
  by (simp add: signed_of_nat signed_take_bit_int_eq_self)

lemma fold_export_node:
  assumes "2 * (k + length ns) < 2 ^ 31"
  shows "shm_exports (fst (fold export_node ns (i, of_nat (2 * k)))) = shm_exports i @ node_exports (enumerate k ns)
     \<and> shm_conf (fst (fold export_node ns (i, of_nat (2 * k)))) = shm_conf i"
  using assms
proof (induction ns arbitrary: i k)
  case (Cons n ns)
  let ?i = "fst (export_node n (i, of_nat (2 * k)))"
  have "export_node n (i, of_nat (2 * k)) = (?i, of_nat (2 * Suc k))"
    by (simp add: export_node_def Let_def algebra_simps)
  moreover have "shm_exports ?i = shm_exports i @ node_exports [(k, n)]" "shm_conf ?i = shm_conf i"
    using sint_small[of "2 * k"] sint_small[of "2 * k + 1"] Cons.prems
    by (simp_all add: export_node_def export_attribute_def node_exports_def Let_def add.commute)
  moreover have "node_exports (enumerate k (n # ns)) = node_exports [(k, n)] @ node_exports (enumerate (Suc k) ns)"
    by (simp add: node_exports_def)
  ultimately show ?case using Cons.IH[of "Suc k" ?i] Cons.prems by (simp only: fold_simps append_assoc) simp
qed (simp add: node_exports_def)

definition in_sample :: "shm \<Rightarrow> (slot_type \<times> source \<times> int) list \<Rightarrow> bool" where
  "in_sample i xs \<longleftrightarrow> (\<forall>(t, a, idx) \<in> set xs. 0 \<le> idx \<and> idx < samplelen (shm_conf i))"

lemma all_enumerate: "(\<forall>x \<in> set (enumerate 0 ns). P x) \<longleftrightarrow> (\<forall>j < length ns. P (j, ns ! j))"
  by (auto simp: in_set_enumerate_eq)

lemma node_exports_in_sample:
  "in_sample i (node_exports (enumerate 0 ns)) \<longleftrightarrow> 2 * int (length ns) \<le> samplelen (shm_conf i) \<or> ns = []"
proof -
  have "in_sample i (node_exports xs) \<longleftrightarrow> (\<forall>x \<in> set xs. 2 * int (fst x) + 1 < samplelen (shm_conf i))" for xs
    by (fastforce simp: in_sample_def node_exports_def)
  then have "in_sample i (node_exports (enumerate 0 ns)) \<longleftrightarrow> (\<forall>j < length ns. 2 * int j + 1 < samplelen (shm_conf i))"
    by (simp only: all_enumerate fst_conv)
  also have "\<dots> \<longleftrightarrow> 2 * int (length ns) \<le> samplelen (shm_conf i) \<or> ns = []"
  proof
    assume h: "\<forall>j < length ns. 2 * int j + 1 < samplelen (shm_conf i)"
    show "2 * int (length ns) \<le> samplelen (shm_conf i) \<or> ns = []"
      using h[rule_format, of "length ns - 1"] by (cases ns) auto
  qed auto
  finally show ?thesis .
qed

text \<open>\<open>Shmem_WSCC-9bus\<close> exports magnitude and phase of every node at consecutive places; they fit into its
  samples of 64 values exactly if the network has at most 32 nodes.\<close>

theorem wscc_exports_fit:
  assumes "length (top_nodes (prg_system (Shmem_WSCC_9bus L))) < 2 ^ 29"
  shows "\<exists>i. prg_interfaces (Shmem_WSCC_9bus L) = [(i, True, True)]
     \<and> shm_exports i = node_exports (enumerate 0 (top_nodes (prg_system (Shmem_WSCC_9bus L))))
     \<and> (in_sample i (shm_exports i) \<longleftrightarrow> length (top_nodes (prg_system (Shmem_WSCC_9bus L))) \<le> 32)"
proof -
  let ?ns = "top_nodes (cim_load L ''Shmem_WSCC-9bus'' 60 (wscc_files ''Examples/CIM/WSCC-09_RX/'') DP)"
  let ?start = "make_interface_conf ''/dpsim-villas'' ''/villas-dpsim'' \<lparr>queuelen = 1024, samplelen = 64, polling = 0\<rparr>"
  let ?i = "fst (fold export_node ?ns (?start, 0))"
  have ns: "top_nodes (prg_system (Shmem_WSCC_9bus L)) = ?ns" and i: "prg_interfaces (Shmem_WSCC_9bus L) = [(?i, True, True)]"
    by (simp_all add: Shmem_WSCC_9bus_def with_interface_def with_steadyState_def simulation_def Let_def split_def)
  have i0: "shm_exports ?start = []" "samplelen (shm_conf ?start) = 64" by (simp_all add: make_interface_conf_def)
  have "shm_exports ?i = node_exports (enumerate 0 ?ns) \<and> shm_conf ?i = shm_conf ?start"
    using fold_export_node[of 0 ?ns ?start] assms by (simp add: ns i0)
  moreover from this have "in_sample ?i (shm_exports ?i) \<longleftrightarrow> length ?ns \<le> 32"
    using node_exports_in_sample[of ?i ?ns] by (auto simp: i0)
  ultimately show ?thesis by (simp add: ns i)
qed

text \<open>A bus name is read back as its number, so the other two programs export bus \<open>k\<close> at the places
  \<open>2 (k - 1)\<close> and \<open>2 (k - 1) + 1\<close>.\<close>

lemma scan_BUS_show: "scan_BUS (''BUS'' @ show_nat k) = Some (of_nat k)"
proof -
  have dig: "\<forall>c \<in> set (show_nat k). is_digit c" using show_nat_digits[of k] by (auto simp: is_digit_def)
  have ne: "show_nat k \<noteq> []" by (rule show_nat_nonempty)
  then have "is_digit (hd (show_nat k))" using dig by simp
  then have hd: "hd (show_nat k) \<noteq> CHR '' ''" "(of_char (hd (show_nat k)) :: nat) \<notin> {9..13}" "hd (show_nat k) \<noteq> CHR ''-''" "hd (show_nat k) \<noteq> CHR ''+''"
    by (auto simp: is_digit_def)
  have tw: "takeWhile is_digit (show_nat k) = show_nat k" using dig by (simp add: takeWhile_eq_all_conv)
  have dw: "dropWhile (\<lambda>c. c = CHR '' '' \<or> (of_char c :: nat) \<in> {9..13}) (show_nat k) = show_nat k"
    using hd(1,2) ne by (simp add: dropWhile_eq_self_iff)
  have "take 3 (''BUS'' @ show_nat k) = ''BUS''" "drop 3 (''BUS'' @ show_nat k) = show_nat k" by simp_all
  then show ?thesis using ne hd by (simp only: scan_BUS_def dw tw Let_def) (simp add: tw)
qed

lemma export_bus_exports:
  assumes "cim_node_name L n = ''BUS'' @ show_nat k" and "1 \<le> k" and "2 * k < 2 ^ 31"
  shows "shm_exports (export_bus L n i) = shm_exports i
     @ [(RealSlot, Mag (NodeAttr n ''v''), 2 * int (k - 1)), (RealSlot, Phase (NodeAttr n ''v''), 2 * int (k - 1) + 1)]"
proof -
  obtain j where k: "k = Suc j" using assms(2) by (cases k) auto
  have "(of_nat k - 1) * 2 + (1 :: 32 word) = of_nat (2 * j + 1)" "(of_nat k - 1) * (2 :: 32 word) = of_nat (2 * j)"
    by (simp_all add: k)
  then show ?thesis
    using sint_small[of "2 * j"] sint_small[of "2 * j + 1"] assms(3)
    by (simp add: export_bus_def assms(1) scan_BUS_show[simplified] export_attribute_def Let_def k add.commute mult.commute)
qed

text \<open>In scenario 0 of \<open>CtrlDist\<close> the filter is pushed to the topology after the simulation has got its copy:
  if the network itself has no filter, then the simulation has none, and the signal that the second
  interface imports goes to a component that is never executed.\<close>

theorem ctrl_filter_not_simulated:
  assumes "\<forall>p \<in> set (top_parts (cim_load L (cl_name args) (sysFreq args) (wscc_files ''Examples/CIM/WSCC-09_RX/'') DP)).
     part_class p \<noteq> FIRFilter"
  shows "(\<forall>p \<in> set (top_parts (prg_system (CtrlDist_0 L args))). part_class p \<noteq> FIRFilter)
     \<and> (\<exists>i p a. prg_interfaces (CtrlDist_0 L args) ! 1 = (i, False, False) \<and> shm_imports i = [(RealSlot, PartAttr p a, 0)]
          \<and> part_class p = FIRFilter)"
proof -
  have keep: "shm_imports (fold (export_bus L) ns i) = shm_imports i" for ns i
    by (induction ns arbitrary: i) (auto simp: export_bus_def export_attribute_def Let_def split: option.splits)
  show ?thesis
    using assms by (auto simp: CtrlDist_0_def push_component_def keep program_defs)
qed

end
