(* ===== verification/TimerTest.thy ===== *)
theory TimerTest
  imports RealTimeSimulation CommandLineArgs
begin

text \<open>
  The test program of the timer (\<open>Tests/Timer.cpp\<close>): it composes the timer with the command line. It
  waits for ticks until the duration has passed and prints a point for each wait. \<open>show_time\<close> is the
  locale dependent output of a point in time.
\<close>

section \<open>The program\<close>

type_synonym 'e tt_state = "timer \<times> string \<times> 'e"

definition tt_on_timer :: "(timer \<Rightarrow> timer outcome) \<Rightarrow> 'e tt_state \<Rightarrow> 'e tt_state outcome option" where
  "tt_on_timer f s = Some (on_part fst (\<lambda>t s. (t, snd s)) f s)"

definition tt_sleep :: "'e kernel \<Rightarrow> 'e tt_state \<Rightarrow> 'e tt_state outcome option" where
  "tt_sleep K s =
     (let (t, out, e) = s; (bytes, tk, e) = timerfd_read K e
      in tt_on_timer (Timer_sleep_timerfd bytes tk) (t, out, e))"

text \<open>\<open>while (t.ticks() * args.timeStep < args.duration)\<close>.\<close>

definition tt_continues :: "(real \<Rightarrow> real) \<Rightarrow> command_line \<Rightarrow> timer \<Rightarrow> bool" where
  "tt_continues rnd args t \<longleftrightarrow> rnd (rnd (real_of_int (ticks t)) * timeStep args) < duration args"

partial_function (option) tt_loop ::
    "'e kernel \<Rightarrow> (real \<Rightarrow> real) \<Rightarrow> command_line \<Rightarrow> 'e tt_state \<Rightarrow> 'e tt_state outcome option" where
  "tt_loop K rnd args s =
     (if tt_continues rnd args (fst s)
      then case tt_sleep K s of
             None \<Rightarrow> None
           | Some (Throw x s) \<Rightarrow> Some (Throw x s)
           | Some (Ok (t, out, e)) \<Rightarrow> tt_loop K rnd args (t, out @ ''.'', e)
      else Some (Ok s))"

definition tt_run ::
    "'e kernel \<Rightarrow> (real \<Rightarrow> real) \<Rightarrow> (int \<Rightarrow> string) \<Rightarrow> command_line \<Rightarrow> 'e tt_state \<Rightarrow> 'e tt_state outcome option" where
  "tt_run K rnd show_time args s =
     then_run (then_run (tt_on_timer (\<lambda>t. setInterval_double rnd (timeStep args) (setStartTime (startTime args) t)) s)
       (\<lambda>(t, out, e).
         let (startAt, e) = (if startTime args = 0 then system_now K e else (startTime args, e));
             (now, e) = system_now K e;
             out = out @ ''Start clock at: '' @ show_time startAt @ ''(in '' @ show_duration (startAt - now) @ '')\<newline>''
                       @ ''Timer interval: '' @ show_duration (mTickInterval t) @ ''\<newline>'';
             (rt, e) = system_now K e; (steady, e) = steady_now K e; (ret, e) = timerfd_settime K e
         in then_run (tt_on_timer (Timer_start rt steady ret) (t, out, e)) (tt_loop K rnd args)))
       (\<lambda>(t, out, e). let (ret, e) = timerfd_settime K e in tt_on_timer (Timer_stop ret) (t, out, e))"

text \<open>\<open>main\<close>; the default arguments are those of \<open>CommandLineArgs\<close>.\<close>

definition TimerTest_main ::
    "'e kernel \<Rightarrow> 'g getopt_ops \<Rightarrow> std_lib \<Rightarrow> (real \<Rightarrow> real) \<Rightarrow> (int \<Rightarrow> string) \<Rightarrow> int \<Rightarrow> int \<Rightarrow> 'g \<Rightarrow> 'e \<Rightarrow>
     'e tt_state outcome option" where
  "TimerTest_main K go std rnd show_time fd garbage g e =
     (case Timer_new fd garbage 0 of
        Throw x t \<Rightarrow> Some (Throw x (t, [], e))
      | Ok t \<Rightarrow>
          (case CommandLineArgs_new go std rnd ''dpsim'' (1 / 1000) 1 50 (-1) INFO False False DP MNA g of
             None \<Rightarrow> None
           | Some (Throw x _) \<Rightarrow> Some (Throw x (t, [], e))
           | Some (Ok (args, g)) \<Rightarrow> tt_run K rnd show_time args (t, [], e)))"

section \<open>The loop ends\<close>

lemma ticks_unat: "unat (mTicks t) < 2 ^ 63 \<Longrightarrow> ticks t = int (unat (mTicks t))"
proof -
  assume "unat (mTicks t) < 2 ^ 63"
  then have "int (unat (mTicks t)) < 2 ^ 63" by (metis of_nat_less_iff of_nat_numeral of_nat_power)
  moreover have "sint (mTicks t) = signed_take_bit 63 (int (unat (mTicks t)))" by (simp add: sint_uint)
  ultimately show ?thesis unfolding ticks_def by (simp only: signed_take_bit_int_eq_self[of 63])
qed

text \<open>The expirations that the first \<open>m\<close> reads report.\<close>

definition expired :: "'e kernel \<Rightarrow> 'e \<Rightarrow> nat \<Rightarrow> nat" where
  "expired K e m = sum_list (map unat (expirations K e m))"

lemma expired_0 [simp]: "expired K e 0 = 0"
  by (simp add: expired_def expirations_def)

lemma expired_Suc: "expired K e (Suc m) = unat (fst (snd (timerfd_read K e))) + expired K (snd (snd (timerfd_read K e))) m"
  by (simp add: expired_def expirations_Suc)

lemma tt_loop_stops:
  fixes cont and rnd :: "real \<Rightarrow> real" and args :: command_line
  defines "cont \<equiv> \<lambda>k. rnd (rnd (real k) * timeStep args) < duration args"
  assumes "kernel_ok K" and "\<And>e. 1 \<le> unat (fst (snd (timerfd_read K e))) \<and> unat (fst (snd (timerfd_read K e))) \<le> M"
    and "\<And>k. N \<le> k \<Longrightarrow> \<not> cont k" and "N + M < 2 ^ 63" and "mFlags t AND fail_on_overrun = 0" and "unat (mTicks t) < N + M"
  shows "\<exists>m t' e'. tt_loop K rnd args (t, out, e) = Some (Ok (t', out @ replicate m CHR ''.'', e'))
     \<and> mState t' = mState t \<and> unat (mTicks t') = unat (mTicks t) + expired K e m \<and> m \<le> N - unat (mTicks t)
     \<and> (\<forall>k < m. cont (unat (mTicks t) + expired K e k)) \<and> \<not> cont (unat (mTicks t) + expired K e m)"
  using assms(6,7)
proof (induction "N - unat (mTicks t)" arbitrary: t out e rule: less_induct)
  case less
  let ?c = "unat (mTicks t)"
  have continues: "tt_continues rnd args t \<longleftrightarrow> cont ?c"
    using less.prems(2) assms(5) by (simp add: tt_continues_def cont_def ticks_unat)
  show ?case
  proof (cases "cont ?c")
    case False
    then show ?thesis
      using continues by (intro exI[of _ 0] exI[of _ t] exI[of _ e]) (simp add: tt_loop.simps)
  next
    case True
    obtain bytes tk e1 where rd: "timerfd_read K e = (bytes, tk, e1)" by (rule prod_cases3)
    have "0 \<le> bytes" "1 \<le> unat tk" "unat tk \<le> M"
      using assms(2) assms(3)[of e] rd by (auto simp: kernel_ok_def dest: spec[of _ e])
    define t1 where "t1 = t\<lparr>mOverruns := mOverruns t + (tk - 1), mTicks := mTicks t + tk\<rparr>"
    have sleep: "tt_sleep K (t, out, e) = Some (Ok (t1, out, e1))"
      using \<open>0 \<le> bytes\<close> less.prems(1)
      by (simp add: tt_sleep_def rd tt_on_timer_def on_part_def Timer_sleep_timerfd_def count_ticks_def Let_def t1_def)
    have "?c < N" using True assms(4) by (meson not_le)
    then have c1: "unat (mTicks t1) = ?c + unat tk"
      using \<open>unat tk \<le> M\<close> assms(5) by (subst unat_add_lem[THEN iffD1, symmetric]) (simp_all add: t1_def)
    have "N - unat (mTicks t1) < N - ?c" "mFlags t1 AND fail_on_overrun = 0" "unat (mTicks t1) < N + M"
      using \<open>?c < N\<close> \<open>1 \<le> unat tk\<close> \<open>unat tk \<le> M\<close> less.prems(1) by (simp_all add: c1) (simp add: t1_def)
    from less.hyps[OF this, of "out @ ''.''" e1] obtain m t' e' where
      m: "tt_loop K rnd args (t1, out @ ''.'', e1) = Some (Ok (t', (out @ ''.'') @ replicate m CHR ''.'', e'))"
         "mState t' = mState t1" "unat (mTicks t') = unat (mTicks t1) + expired K e1 m" "m \<le> N - unat (mTicks t1)"
         "\<forall>k < m. cont (unat (mTicks t1) + expired K e1 k)" "\<not> cont (unat (mTicks t1) + expired K e1 m)"
      by blast
    have "tt_loop K rnd args (t, out, e) = Some (Ok (t', out @ replicate (Suc m) CHR ''.'', e'))"
      using continues True sleep m(1) by (subst tt_loop.simps) simp
    moreover have "\<forall>k < Suc m. cont (?c + expired K e k)"
      using True m(5) by (auto simp: less_Suc_eq_0_disj expired_Suc rd c1 add.assoc)
    moreover have "mState t1 = mState t" by (simp add: t1_def)
    moreover have "unat (mTicks t') = ?c + expired K e (Suc m)" "\<not> cont (?c + expired K e (Suc m))" "Suc m \<le> N - ?c"
      using m(3,4,6) \<open>?c < N\<close> \<open>1 \<le> unat tk\<close> unfolding c1 by (simp_all add: expired_Suc rd add.assoc)
    ultimately show ?thesis
      using m(2) by (intro exI[of _ "Suc m"] exI[of _ t'] exI[of _ e']) (simp del: replicate.simps)
  qed
qed

section \<open>Properties\<close>

text \<open>C29: the timer program stops. Let the kernel's timer work and report between 1 and \<open>M\<close> expirations per
  wait, and let \<open>N\<close> ticks of the time step on the command line last for the duration. Then the program
  returns with the timer stopped. It has waited, and printed a point, as often as it took until the
  ticks the kernel reported covered the duration, and not once more.\<close>

theorem TimerTest_stops:
  assumes "CommandLineArgs_new go std rnd ''dpsim'' (1 / 1000) 1 50 (-1) INFO False False DP MNA g = Some (Ok (args, g'))"
    and "0 \<le> fd" and "kernel_ok K"
    and "\<And>e. 1 \<le> unat (fst (snd (timerfd_read K e))) \<and> unat (fst (snd (timerfd_read K e))) \<le> M"
    and "\<And>k. N \<le> k \<Longrightarrow> duration args \<le> rnd (rnd (real k) * timeStep args)" and "N + M < 2 ^ 63" and "0 < N"
    and "0 \<le> rnd (timeStep args * 1000000000)" and "rnd (timeStep args * 1000000000) < 2 ^ 64"
  shows "\<exists>m t out e' e0. TimerTest_main K go std rnd show_time fd garbage g e = Some (Ok (t, out @ replicate m CHR ''.'', e'))
     \<and> mState t = stopped \<and> unat (mTicks t) = expired K e0 m \<and> m \<le> N
     \<and> (\<forall>k < m. rnd (rnd (real (expired K e0 k)) * timeStep args) < duration args)
     \<and> duration args \<le> rnd (rnd (real (expired K e0 m)) * timeStep args)"
proof -
  obtain t0 where t0: "Timer_new fd garbage 0 = Ok t0" "mState t0 = stopped" "mFlags t0 = 0"
    using assms(2) by (simp add: Timer_new_def)
  obtain t1 where t1: "setInterval_double rnd (timeStep args) (setStartTime (startTime args) t0) = Ok t1"
      "mState t1 = stopped" "mFlags t1 = 0"
    using assms(8,9) t0(2,3) by (simp add: setInterval_double_def setStartTime_def)
  obtain startAt e1 where 1: "(if startTime args = 0 then system_now K e else (startTime args, e)) = (startAt, e1)" by fastforce
  obtain now e2 where 2: "system_now K e1 = (now, e2)" by fastforce
  obtain rt e3 where 3: "system_now K e2 = (rt, e3)" by fastforce
  obtain steady e4 where 4: "steady_now K e3 = (steady, e4)" by fastforce
  obtain ret e0 where 5: "timerfd_settime K e4 = (ret, e0)" by fastforce
  have "0 \<le> ret" using assms(3) 5 by (auto simp: kernel_ok_def dest: spec[of _ e4])
  then obtain t2 where t2: "Timer_start rt steady ret t1 = Ok t2" "mState t2 = running" "mTicks t2 = 0" "mFlags t2 = 0"
    using t1(2,3) by (simp add: Timer_start_def Let_def)
  define out where "out = ''Start clock at: '' @ show_time startAt @ ''(in '' @ show_duration (startAt - now) @ '')\<newline>''
                       @ ''Timer interval: '' @ show_duration (mTickInterval t1) @ ''\<newline>''"
  have "unat (mTicks t2) < N + M" "mFlags t2 AND fail_on_overrun = 0" using assms(7) by (simp_all add: t2)
  then obtain m t3 e5 where loop: "tt_loop K rnd args (t2, out, e0) = Some (Ok (t3, out @ replicate m CHR ''.'', e5))"
     "mState t3 = running" "unat (mTicks t3) = expired K e0 m" "m \<le> N"
     "\<forall>k < m. rnd (rnd (real (expired K e0 k)) * timeStep args) < duration args"
     "duration args \<le> rnd (rnd (real (expired K e0 m)) * timeStep args)"
    using tt_loop_stops[OF assms(3,4), of N rnd args t2 out e0] assms(5,6) by (auto simp: t2 not_less)
  obtain ret' e' where 6: "timerfd_settime K e5 = (ret', e')" by fastforce
  have "0 \<le> ret'" using assms(3) 6 by (auto simp: kernel_ok_def dest: spec[of _ e5])
  then obtain t4 where t4: "Timer_stop ret' t3 = Ok t4" "mState t4 = stopped" "mTicks t4 = mTicks t3"
    using loop(2) by (simp add: Timer_stop_def)
  have "TimerTest_main K go std rnd show_time fd garbage g e = tt_run K rnd show_time args (t0, [], e)"
    by (simp add: TimerTest_main_def assms(1) t0(1))
  also have "\<dots> = Some (Ok (t4, out @ replicate m CHR ''.'', e'))"
    using t1(1) t2(1) t4(1) loop(1) unfolding out_def
    by (simp add: tt_run_def tt_on_timer_def on_part_def 1 2 3 4 5 6)
  finally show ?thesis using t4(2,3) loop(3-6) by metis
qed

text \<open>The example: the options \<open>-t 2 -d 2\<close>, a time step and a duration of two seconds, and a kernel that
  reports three expirations at the first wait.\<close>

definition demo_tt_getopt :: "(string option \<times> (int \<times> string) list) getopt_ops" where
  "demo_tt_getopt = \<lparr>go_next = (\<lambda>(a, os). case os of [] \<Rightarrow> (-1, None, []) | (c, a) # os \<Rightarrow> (c, Some a, os)),
     go_optarg = fst, go_optind = (\<lambda>_. 1), go_argv = (\<lambda>_. [''Timer''])\<rparr>"

lemma demo_tt_args:
  "\<exists>args g'. CommandLineArgs_new demo_tt_getopt demo_std (\<lambda>x. x) ''dpsim'' (1 / 1000) 1 50 (-1) INFO False False DP MNA
       (None, [(of_char CHR ''t'', ''2''), (of_char CHR ''d'', ''2'')]) = Some (Ok (args, g'))
     \<and> timeStep args = 2 \<and> duration args = 2"
  by (simp add: CommandLineArgs_new_def option_loop.simps demo_tt_getopt_def handle_option_def with_arg_def set_with_def demo_std_def)

theorem TimerTest_stops_witness:
  "\<exists>m t out e'. TimerTest_main demo_kernel demo_tt_getopt demo_std (\<lambda>x. x) (\<lambda>_. ''now'') 3 0
       (None, [(of_char CHR ''t'', ''2''), (of_char CHR ''d'', ''2'')]) 0 = Some (Ok (t, out @ replicate m CHR ''.'', e'))
     \<and> mState t = stopped \<and> m \<le> 1"
proof -
  obtain args g' where args: "CommandLineArgs_new demo_tt_getopt demo_std (\<lambda>x. x) ''dpsim'' (1 / 1000) 1 50 (-1) INFO False False DP MNA
       (None, [(of_char CHR ''t'', ''2''), (of_char CHR ''d'', ''2'')]) = Some (Ok (args, g'))"
     "timeStep args = 2" "duration args = 2"
    using demo_tt_args by blast
  have "kernel_ok demo_kernel" and "1 \<le> unat (fst (snd (timerfd_read demo_kernel e))) \<and> unat (fst (snd (timerfd_read demo_kernel e))) \<le> 3" for e
    by (simp_all add: kernel_ok_def demo_kernel_def)
  from TimerTest_stops[OF args(1) _ this, of 3 1 "\<lambda>_. ''now''" 0 0] show ?thesis
    unfolding args(2,3) by fastforce
qed

end
