(* ===== verification/DAESolver.thy ===== *)
theory DAESolver
  imports Simulation
begin

text \<open>
  The solver for differential algebraic equations (\<open>Source/DAESolver.cpp\<close>,
  \<open>Include/dpsim/DAESolver.h\<close>), built with the IDA solver of SUNDIALS.

  The components and nodes of the CPS library and IDA are the record \<open>cps_dae\<close>. \<open>ida_solve\<close> is
  \<open>IDASolve\<close> on the two vectors; it calls \<open>residualFunction\<close> back, which is modelled on its own.
  A serial vector of SUNDIALS is a list; writing outside of it is undefined behaviour. What the
  destructor frees is not modelled.
\<close>

section \<open>State\<close>

record 'w cps_dae =
  asDAE :: "comp \<Rightarrow> bool"
  asPowerReal :: "comp \<Rightarrow> bool"
  dae_initializeFromPowerflow :: "comp \<Rightarrow> real \<Rightarrow> 'w \<Rightarrow> 'w"
  initialVoltage :: "node \<Rightarrow> 'w \<Rightarrow> real"
  node_voltage :: "node \<Rightarrow> 'w \<Rightarrow> real"
  comp_voltage :: "comp \<Rightarrow> 'w \<Rightarrow> real"
  daeResidual :: "comp \<Rightarrow> real \<Rightarrow> vec \<Rightarrow> vec \<Rightarrow> 'w \<Rightarrow> vec \<times> int list \<Rightarrow> vec \<times> int list"
  ida_solve :: "real \<Rightarrow> vec \<times> vec \<times> 'w \<Rightarrow> int \<times> real \<times> vec \<times> vec \<times> 'w"
  fresh_vec :: "nat \<Rightarrow> vec"

record dae =
  dae_system :: system_topology
  mOffsets :: "int list"
  mTimestep :: real
  mNEQ :: nat
  mComponents :: "comp list"
  dae_mNodes :: "node list"
  dae_state :: vec
  dstate_dt :: vec
  tret :: real
  mResidualFunctions :: "comp list"

section \<open>Operations\<close>

text \<open>The numbering of the simulation nodes; \<open>idx\<close> is the last index used and starts at
  \<open>(UInt) -1\<close>.\<close>

fun dae_assign :: "32 word \<Rightarrow> node list \<Rightarrow> node list" where
  "dae_assign idx [] = []"
| "dae_assign idx (n # ns) =
     (let idx = idx + 1; n = setSimNode 0 idx n
      in if phaseType n = ABC
         then let n = setSimNode 1 (idx + 1) n; n = setSimNode 2 (idx + 2) n in n # dae_assign (idx + 2) ns
         else n # dae_assign idx ns)"

text \<open>\<open>v[i] = x\<close> on a vector of SUNDIALS.\<close>

definition put_at :: "nat \<Rightarrow> real \<Rightarrow> vec \<Rightarrow> vec option" where
  "put_at i x v = (if i < length v then Some (v[i := x]) else None)"

text \<open>\<open>sval[counter++] = x\<close> for each of \<open>xs\<close>.\<close>

primrec put_all :: "real list \<Rightarrow> nat \<times> vec \<Rightarrow> (nat \<times> vec) option" where
  "put_all [] s = Some s"
| "put_all (x # xs) s = (case put_at (fst s) x (snd s) of None \<Rightarrow> None | Some v \<Rightarrow> put_all xs (Suc (fst s), v))"

text \<open>The loop over the components: a component that is not a power component with real variables or
  has no DAE interface throws.\<close>

primrec register_components :: "'w cps_dae \<Rightarrow> 'w \<Rightarrow> comp list \<Rightarrow> dae \<times> nat \<times> vec \<Rightarrow> (dae \<times> nat \<times> vec) outcome" where
  "register_components cps w [] s = Ok s"
| "register_components cps w (c # cs) s =
     (let (d, n, v) = s in
      if \<not> asPowerReal cps c then Throw CpsException s
      else case put_at n (comp_voltage cps c w) v of
             None \<Rightarrow> Throw (UndefinedBehaviour ''sval'') s
           | Some v \<Rightarrow>
               if \<not> asDAE cps c then Throw CpsException (d, Suc n, v)
               else register_components cps w cs
                      (d\<lparr>mResidualFunctions := mResidualFunctions d @ [c]\<rparr>, Suc n, v))"

definition DAESolver_initialize :: "'w cps_dae \<Rightarrow> dae \<times> 'w \<Rightarrow> (dae \<times> 'w) outcome" where
  "DAESolver_initialize cps s =
     (let (d, w) = s;
          w = fold (\<lambda>c w. if asPowerReal cps c
                then dae_initializeFromPowerflow cps c (mSystemFrequency (dae_system d)) w else w) (mComponents d) w;
          d = d\<lparr>dae_state := fresh_vec cps (mNEQ d), dstate_dt := fresh_vec cps (mNEQ d)\<rparr>
      in case put_all (map (\<lambda>n. initialVoltage cps n w) (dae_mNodes d)) (0, dae_state d) of
           None \<Rightarrow> Throw (UndefinedBehaviour ''sval'') (d, w)
         | Some (n, v) \<Rightarrow>
             (case register_components cps w (mComponents d) (d, n, v) of
                Throw x (d, n, v) \<Rightarrow> Throw x (d, w)
              | Ok (d, n, v) \<Rightarrow>
                  (case put_all (replicate (mNEQ d - 1) 0) (n, v) of
                     None \<Rightarrow> Throw (UndefinedBehaviour ''sval'') (d, w)
                   | Some (n, v) \<Rightarrow>
                       (case put_all (replicate (mNEQ d - 1) 0) (0, dstate_dt d) of
                          None \<Rightarrow> Throw (UndefinedBehaviour ''s_dtval'') (d, w)
                        | Some (_, dv) \<Rightarrow> Ok (d\<lparr>dae_state := v, dstate_dt := dv\<rparr>, w)))))"

text \<open>The constructor.\<close>

definition DAESolver_new :: "'w cps_dae \<Rightarrow> system_topology \<Rightarrow> real \<Rightarrow> 'w \<Rightarrow> (dae \<times> 'w) outcome" where
  "DAESolver_new cps sys dt w =
     (let d = \<lparr>dae_system = sys, mOffsets = [0, 0], mTimestep = dt,
               mNEQ = length (sysComponents sys) + 2 * length (sysNodes sys), mComponents = [], dae_mNodes = [],
               dae_state = [], dstate_dt = [], tret = 0, mResidualFunctions = []\<rparr>;
          good = takeWhile (asDAE cps) (sysComponents sys)
      in if good \<noteq> sysComponents sys then Throw CpsException (d\<lparr>mComponents := good\<rparr>, w)
         else DAESolver_initialize cps (d\<lparr>mComponents := good,
                dae_mNodes := dae_assign (-1) (filter (\<lambda>n. \<not> isGround n) (sysNodes sys))\<rparr>, w))"

text \<open>\<open>residualFunction\<close>: the node equations, then those of the components.\<close>

primrec node_residuals :: "'w cps_dae \<Rightarrow> vec \<Rightarrow> 'w \<Rightarrow> node list \<Rightarrow> vec \<times> int list \<Rightarrow> (vec \<times> int list) outcome" where
  "node_residuals cps st w [] s = Ok s"
| "node_residuals cps st w (n # ns) s =
     (let (resid, off) = s; i = nat (hd off)
      in if i < length st \<and> i < length resid
         then node_residuals cps st w ns (resid[i := st ! i - node_voltage cps n w], off[0 := hd off + 1])
         else Throw (UndefinedBehaviour ''residual'') s)"

definition residualFunction :: "'w cps_dae \<Rightarrow> real \<Rightarrow> vec \<Rightarrow> vec \<Rightarrow> vec \<Rightarrow> dae \<times> 'w \<Rightarrow> (vec \<times> dae) outcome" where
  "residualFunction cps ttime st dst resid s =
     (let (d, w) = s
      in case node_residuals cps st w (dae_mNodes d) (resid, [0, 0]) of
           Throw x (resid, off) \<Rightarrow> Throw x (resid, d\<lparr>mOffsets := off\<rparr>)
         | Ok r \<Rightarrow>
             (let (resid, off) = fold (\<lambda>c. daeResidual cps c ttime st dst w) (mResidualFunctions d) r
              in Ok (resid, d\<lparr>mOffsets := off\<rparr>)))"

text \<open>\<open>step\<close>: the result of \<open>IDASolve\<close> only decides whether a message is printed.\<close>

definition DAESolver_step :: "'w cps_dae \<Rightarrow> (real \<Rightarrow> real) \<Rightarrow> real \<Rightarrow> dae \<times> 'w \<Rightarrow> real \<times> dae \<times> 'w" where
  "DAESolver_step cps rnd time s =
     (let (d, w) = s; (ret, t, st, dst, w) = ida_solve cps time (dae_state d, dstate_dt d, w)
      in (fp_add rnd time (mTimestep d), d\<lparr>tret := t, dae_state := st, dstate_dt := dst\<rparr>, w))"

definition dae_lib :: "'w cps_attrs \<Rightarrow> 'w cps_dae \<Rightarrow> (real \<Rightarrow> real) \<Rightarrow> (real \<Rightarrow> string) \<Rightarrow> (nat \<Rightarrow> ('d, 'e) villas) \<Rightarrow>
    (attr \<Rightarrow> 'w \<Rightarrow> string) \<Rightarrow> (dae, 'd, 'w, 'e) sim_lib" where
  "dae_lib attrs cps rnd fmt vil toString =
     \<lparr>sl_cps = attrs, sl_villas = vil, sl_step = DAESolver_step cps rnd, sl_log = (\<lambda>_ d. d), sl_fmt = fmt,
      sl_toString = toString\<rparr>"

section \<open>The solver as a solver of the simulation\<close>

interpretation dae_clock: fixed_step "dae_lib attrs cps rnd fmt vil toString" rnd mTimestep
  for attrs :: "'w cps_attrs" and cps rnd fmt and vil :: "nat \<Rightarrow> ('d, 'e) villas" and toString
  by unfold_locales (simp_all add: dae_lib_def DAESolver_step_def Let_def split_def)

section \<open>Properties\<close>

text \<open>C35: both solvers number the simulation nodes in the same way, although one counts from 0 and
  increments after use and the other from -1, which wraps around, and increments before use.\<close>

theorem dae_numbering_is_mna_numbering:
  "dae_assign (-1) ns = fst (assign_loop numNet 0 0 netSim ns)"
proof -
  have "dae_assign (sim - 1) ns = fst (assign_loop numNet idx sim net ns)" for sim idx net
  proof (induction ns arbitrary: sim idx net)
    case (Cons n ns)
    have "phaseType n = ABC \<Longrightarrow> dae_assign (sim - 1 + 1 + 2) ns = dae_assign (sim + 3 - 1) ns" by (simp add: algebra_simps)
    then show ?case
      using Cons[of "sim + of_nat (phases n)"]
      by (auto simp: assign_loop_Cons Let_def split_def phases_def assigned_node_def algebra_simps)
  qed simp
  from this[of 0 0 netSim] show ?thesis by simp
qed

lemma put_all_bounds:
  "put_all xs (n, v) = (if n + length xs \<le> length v \<or> xs = [] then Some (n + length xs,
      fold (\<lambda>(i, x) v. v[n + i := x]) (enumerate 0 xs) v) else None)"
proof (induction xs arbitrary: n v)
  case (Cons x xs)
  have "fold (\<lambda>(i, x) v. v[Suc n + i := x]) (enumerate 0 xs) u = fold (\<lambda>(i, x) v. v[n + i := x]) (enumerate (Suc 0) xs) u" for u
    by (simp add: enumerate_Suc_eq fold_map comp_def split_def)
  then show ?case using Cons[of "Suc n" "v[n := x]"] by (auto simp: put_at_def)
qed simp

lemma put_all_length: "put_all xs (n, v) = Some (m, u) \<Longrightarrow> length u = length v \<and> m = n + length xs"
  by (induction xs arbitrary: n v) (auto simp: put_at_def split: if_splits, fastforce)

lemma register_components_Ok:
  assumes "\<forall>c \<in> set cs. asPowerReal cps c \<and> asDAE cps c" and "n + length cs \<le> length v"
  shows "\<exists>u. register_components cps w cs (d, n, v) =
     Ok (d\<lparr>mResidualFunctions := mResidualFunctions d @ cs\<rparr>, n + length cs, u) \<and> length u = length v"
  using assms
proof (induction cs arbitrary: d n v)
  case (Cons c cs)
  let ?d = "d\<lparr>mResidualFunctions := mResidualFunctions d @ [c]\<rparr>"
  have "n < length v" using Cons.prems(2) by simp
  then show ?case
    using Cons.IH[of "Suc n" "v[n := comp_voltage cps c w]" ?d] Cons.prems by (simp add: put_at_def)
qed simp

text \<open>C38: the DAE solver cannot be constructed. For every topology whose components all support it and
  that has at least two network nodes and components together, \<open>initialize\<close> writes behind the end of
  the state vector: after one entry per node and per component it writes another \<open>mNEQ - 1\<close> ones
  into a vector of \<open>mNEQ\<close> entries.\<close>

theorem DAESolver_overruns_state:
  assumes "\<forall>c \<in> set (sysComponents sys). asPowerReal cps c \<and> asDAE cps c" and "\<forall>n. length (fresh_vec cps n) = n"
    and "2 \<le> length (sysComponents sys) + length (filter (\<lambda>n. \<not> isGround n) (sysNodes sys))"
  shows "\<exists>s. DAESolver_new cps sys dt w = Throw (UndefinedBehaviour ''sval'') s"
proof -
  let ?ns = "filter (\<lambda>n. \<not> isGround n) (sysNodes sys)"
  let ?N = "length (sysComponents sys) + 2 * length (sysNodes sys)"
  have len: "length (dae_assign i ns) = length ns" for i ns
    by (induction i ns rule: dae_assign.induct) (auto simp: Let_def)
  have good: "takeWhile (asDAE cps) (sysComponents sys) = sysComponents sys"
    using assms(1) by (simp add: takeWhile_eq_all_conv)
  have le: "length ?ns \<le> length (sysNodes sys)" by simp
  define d where "d = \<lparr>dae_system = sys, mOffsets = [0, 0], mTimestep = dt, mNEQ = ?N,
      mComponents = sysComponents sys, dae_mNodes = dae_assign (-1) ?ns,
      dae_state = fresh_vec cps ?N, dstate_dt = fresh_vec cps ?N, tret = 0, mResidualFunctions = []\<rparr>"
  define w' where "w' = fold (\<lambda>c w. if asPowerReal cps c
      then dae_initializeFromPowerflow cps c (mSystemFrequency sys) w else w) (sysComponents sys) w"
  obtain v where v: "put_all (map (\<lambda>n. initialVoltage cps n w') (dae_mNodes d)) (0, dae_state d) = Some (length ?ns, v)"
      "length v = ?N"
    using put_all_bounds[of "map (\<lambda>n. initialVoltage cps n w') (dae_mNodes d)" 0 "dae_state d"]
      put_all_length[of "map (\<lambda>n. initialVoltage cps n w') (dae_mNodes d)" 0 "dae_state d"] assms(2) le
    by (auto simp: d_def len split: if_splits)
  obtain u where u: "register_components cps w' (mComponents d) (d, length ?ns, v) =
      Ok (d\<lparr>mResidualFunctions := sysComponents sys\<rparr>, length ?ns + length (sysComponents sys), u)" "length u = ?N"
    using register_components_Ok[of "mComponents d" cps "length ?ns" v w' d] assms(1) v(2) le by (auto simp: d_def)
  have over: "put_all (replicate (?N - 1) 0) (length ?ns + length (sysComponents sys), u) = None"
    using assms(3) u(2) le by (auto simp: put_all_bounds simp del: length_filter_le)
  define d0 where "d0 = d\<lparr>dae_state := [], dstate_dt := []\<rparr>"
  have new: "DAESolver_new cps sys dt w = DAESolver_initialize cps (d0, w)"
    by (simp add: DAESolver_new_def good d0_def d_def Let_def)
  have d0: "mComponents d0 = sysComponents sys" "dae_system d0 = sys" "mNEQ d0 = ?N"
      "d0\<lparr>dae_state := fresh_vec cps ?N, dstate_dt := fresh_vec cps ?N\<rparr> = d" "mNEQ d = ?N"
    by (simp_all add: d0_def d_def)
  show ?thesis
    unfolding new DAESolver_initialize_def Let_def prod.case d0 w'_def[symmetric]
    using v(1) u(1) over d0(5) by simp
qed

text \<open>the residual of the nodes. \<open>residualFunction\<close> resets the offsets and stores, for each node in
  order, the difference between its entry of the state and its voltage, before the components add
  theirs behind them with the offset at the number of nodes.\<close>

theorem residualFunction_nodes:
  assumes "length (dae_mNodes d) \<le> length st" and "length (dae_mNodes d) \<le> length resid"
  shows "residualFunction cps t st dst resid (d, w) =
     (let (r, off) = fold (\<lambda>c. daeResidual cps c t st dst w) (mResidualFunctions d)
          (map2 (\<lambda>x n. x - node_voltage cps n w) st (dae_mNodes d) @ drop (length (dae_mNodes d)) resid,
           [int (length (dae_mNodes d)), 0])
      in Ok (r, d\<lparr>mOffsets := off\<rparr>))"
proof -
  have loop: "node_residuals cps st w ns (pre @ resid', [int (length pre), 0]) =
      Ok (pre @ map2 (\<lambda>x n. x - node_voltage cps n w) (drop (length pre) st) ns @ drop (length ns) resid',
          [int (length pre + length ns), 0])"
    if "length pre + length ns \<le> length st" "length ns \<le> length resid'" for ns pre resid'
    using that
  proof (induction ns arbitrary: pre resid')
    case (Cons n ns)
    obtain x xs where r: "resid' = x # xs" using Cons.prems(2) by (cases resid') auto
    have d: "drop (length pre) st = st ! length pre # drop (Suc (length pre)) st"
      using Cons.prems(1) by (simp add: Cons_nth_drop_Suc)
    show ?case
      using Cons.IH[of "pre @ [st ! length pre - node_voltage cps n w]" xs] Cons.prems
      by (simp add: r d Let_def add.commute)
  qed simp
  show ?thesis
    using loop[of "[]" "dae_mNodes d" resid] assms by (simp add: residualFunction_def split_def Let_def)
qed


definition demo_dae :: "demo_world cps_dae" where
  "demo_dae = \<lparr>asDAE = (\<lambda>_. True), asPowerReal = (\<lambda>_. True), dae_initializeFromPowerflow = (\<lambda>_ _ w. w),
     initialVoltage = (\<lambda>_ _. 1), node_voltage = (\<lambda>_ _. 1), comp_voltage = (\<lambda>_ _. 2),
     daeResidual = (\<lambda>_ _ _ _ _ s. s), ida_solve = (\<lambda>t (x, y, w). (0, t, x, y, w)), fresh_vec = (\<lambda>n. replicate n 0)\<rparr>"

theorem DAESolver_overruns_state_witness:
  "\<exists>s. DAESolver_new demo_dae \<lparr>sysComponents = [1], sysNodes = [demo_node Single], mSystemFrequency = 50, mSystemOmega = 314\<rparr>
     1 demo_start = Throw (UndefinedBehaviour ''sval'') s"
  by (rule DAESolver_overruns_state) (simp_all add: demo_dae_def demo_node_def)

definition demo_dae_state :: dae where
  "demo_dae_state = \<lparr>dae_system = \<lparr>sysComponents = [1], sysNodes = [demo_node Single], mSystemFrequency = 50, mSystemOmega = 314\<rparr>,
     mOffsets = [4, 4], mTimestep = 1, mNEQ = 3, mComponents = [1], dae_mNodes = [demo_node Single],
     dae_state = [3, 0, 0], dstate_dt = [0, 0, 0], tret = 0, mResidualFunctions = [1]\<rparr>"

theorem residualFunction_nodes_witness:
  "residualFunction demo_dae 0 [3, 0, 0] [0, 0, 0] [9, 9, 9] (demo_dae_state, demo_start)
     = Ok ([2, 9, 9], demo_dae_state\<lparr>mOffsets := [1, 0]\<rparr>)"
  using residualFunction_nodes[of demo_dae_state "[3, 0, 0]" "[9, 9, 9]" demo_dae 0 "[0, 0, 0]" demo_start]
  by (simp add: demo_dae_state_def demo_dae_def)

end
