(* ===== verification/ODESolver.thy ===== *)
theory ODESolver
  imports MNASolver TextOutput
begin

text \<open>
  The solver for ordinary differential equations (\<open>Source/ODESolver.cpp\<close>, \<open>Include/dpsim/ODESolver.h\<close>)
  over the ARKode integrator of SUNDIALS. The file is not part of the build.

  SUNDIALS is the record \<open>sundials\<close>: its functions change a world \<open>'w\<close>, return flags, and pointers that
  are \<open>None\<close> for \<open>NULL\<close>. The names that the class uses without declaring them (\<open>mTimeStep\<close>, \<open>dim\<close>,
  \<open>StateSpace\<close>, \<open>Jacobian\<close>) are the record \<open>undeclared\<close>. \<open>solve\<close> makes a list of calls, each followed by
  \<open>check_flag\<close>, and leaves at the first one that failed; then it integrates up to the next time step.
\<close>

section \<open>State\<close>

type_synonym ptr = "nat option"

type_synonym 'w rhs_fn = "real \<Rightarrow> ptr \<Rightarrow> ptr \<Rightarrow> nat \<Rightarrow> 'w \<Rightarrow> int \<times> 'w"

type_synonym 'w jac_fn = "real \<Rightarrow> ptr \<Rightarrow> ptr \<Rightarrow> ptr \<Rightarrow> nat \<Rightarrow> ptr \<times> ptr \<times> ptr \<Rightarrow> 'w \<Rightarrow> int \<times> 'w"

record 'w sundials =
  N_VNew_Serial :: "int \<Rightarrow> 'w \<Rightarrow> ptr \<times> 'w"
  NV_Ith_S :: "ptr \<Rightarrow> nat \<Rightarrow> real \<Rightarrow> 'w \<Rightarrow> 'w"
  ARKodeCreate :: "'w \<Rightarrow> ptr \<times> 'w"
  ARKodeInit :: "ptr \<Rightarrow> 'w rhs_fn option \<Rightarrow> 'w rhs_fn option \<Rightarrow> real \<Rightarrow> ptr \<Rightarrow> 'w \<Rightarrow> int \<times> 'w"
  SUNDenseMatrix :: "int \<Rightarrow> int \<Rightarrow> 'w \<Rightarrow> ptr \<times> 'w"
  SUNDenseLinearSolver :: "ptr \<Rightarrow> ptr \<Rightarrow> 'w \<Rightarrow> ptr \<times> 'w"
  ARKDlsSetLinearSolver :: "ptr \<Rightarrow> ptr \<Rightarrow> ptr \<Rightarrow> 'w \<Rightarrow> int \<times> 'w"
  ARKDlsSetJacFn :: "ptr \<Rightarrow> 'w jac_fn \<Rightarrow> 'w \<Rightarrow> int \<times> 'w"
  ARKodeSetUserData :: "ptr \<Rightarrow> nat \<Rightarrow> 'w \<Rightarrow> int \<times> 'w"
  ARKodeSStolerances :: "ptr \<Rightarrow> real \<Rightarrow> real \<Rightarrow> 'w \<Rightarrow> int \<times> 'w"
  ARKode :: "ptr \<Rightarrow> real \<Rightarrow> ptr \<Rightarrow> real \<Rightarrow> 'w \<Rightarrow> int \<times> real \<times> 'w"
  ARKodeFree :: "ptr \<Rightarrow> 'w \<Rightarrow> 'w"
  N_VDestroy :: "ptr \<Rightarrow> 'w \<Rightarrow> 'w"
  SUNLinSolFree :: "ptr \<Rightarrow> 'w \<Rightarrow> 'w"
  SUNMatDestroy :: "ptr \<Rightarrow> 'w \<Rightarrow> 'w"

record 'w undeclared =
  ode_mTimeStep :: real
  ode_dim :: int
  ode_StateSpace :: "nat \<Rightarrow> real \<Rightarrow> ptr \<Rightarrow> ptr \<Rightarrow> 'w \<Rightarrow> int \<times> 'w"
  ode_Jacobian :: "nat \<Rightarrow> real \<Rightarrow> ptr \<Rightarrow> ptr \<Rightarrow> ptr \<Rightarrow> ptr \<times> ptr \<times> ptr \<Rightarrow> 'w \<Rightarrow> int \<times> 'w"

record ode =
  ode_mSystem :: system_topology
  ode_mTimestep :: real
  ode_mComponents :: "comp list"
  ode_mProbDim :: int
  ode_flag :: int
  ode_y :: ptr
  arkode_mem :: ptr
  ode_A :: ptr
  ode_LS :: ptr
  reltol :: real
  abstol :: real

text \<open>An object, what was written to \<open>cerr\<close>, and the world.\<close>

type_synonym 'w ode_state = "ode \<times> string \<times> 'w"

section \<open>Operations\<close>

text \<open>The constructor leaves \<open>mProbDim\<close> and \<open>flag\<close> as they happen to be in memory.\<close>

definition ODESolver_new :: "system_topology \<Rightarrow> real \<Rightarrow> int \<Rightarrow> int \<Rightarrow> ode" where
  "ODESolver_new sys dt dim0 flag0 =
     \<lparr>ode_mSystem = sys, ode_mTimestep = dt, ode_mComponents = [], ode_mProbDim = dim0, ode_flag = flag0,
      ode_y = None, arkode_mem = None, ode_A = None, ode_LS = None, reltol = 1 / 10 ^ 6, abstol = 1 / 10 ^ 10\<rparr>"

text \<open>\<open>StateSpaceWrapper\<close> and \<open>JacobianWrapper\<close>: the user data is the address of the solver.\<close>

definition StateSpaceWrapper :: "'w undeclared \<Rightarrow> 'w rhs_fn" where
  "StateSpaceWrapper u = (\<lambda>t y ydot user_data. ode_StateSpace u user_data t y ydot)"

definition JacobianWrapper :: "'w undeclared \<Rightarrow> 'w jac_fn" where
  "JacobianWrapper u = (\<lambda>t y fy J user_data tmp. ode_Jacobian u user_data t y fy J tmp)"

text \<open>What \<open>check_flag\<close> gets: a pointer that was returned, or the address of a flag. The text is what it
  writes to \<open>cerr\<close>. Reading a flag through another pointer is undefined (\<open>None\<close>).\<close>

datatype flagvalue = Pointer ptr | FlagAt int

definition check_flag :: "flagvalue \<Rightarrow> string \<Rightarrow> int \<Rightarrow> (string \<times> int) option" where
  "check_flag flagvalue funcname opt =
     (if opt = 0 \<and> flagvalue = Pointer None
      then Some (''\<newline>SUNDIALS_ERROR: '' @ funcname @ '' failed - returned NULL pointer\<newline>\<newline>'', 1)
      else if opt = 1
      then case flagvalue of
             FlagAt errflag \<Rightarrow>
               if errflag < 0
               then Some (''\<newline>SUNDIALS_ERROR: '' @ funcname @ '' failed with flag = '' @ show_int errflag @ ''\<newline>\<newline>'', 1)
               else Some ([], 0)
           | Pointer p \<Rightarrow> None
      else if opt = 2 \<and> flagvalue = Pointer None
      then Some (''\<newline>MEMORY_ERROR: '' @ funcname @ '' failed - returned NULL pointer\<newline>\<newline>'', 1)
      else Some ([], 0))"

text \<open>A call of \<open>solve\<close> with the arguments of the \<open>check_flag\<close> behind it: \<open>p = f(...)\<close> or
  \<open>flag = f(...)\<close>.\<close>

type_synonym 'w call = "'w ode_state \<Rightarrow> (exn + flagvalue \<times> string \<times> int) \<times> 'w ode_state"

definition alloc_call :: "(ode \<Rightarrow> 'w \<Rightarrow> ptr \<times> 'w) \<Rightarrow> (ptr \<Rightarrow> ode \<Rightarrow> ode) \<Rightarrow> string \<Rightarrow> 'w call" where
  "alloc_call f put name s =
     (let (d, err, w) = s; (p, w) = f d w in (Inr (Pointer p, name, 0), put p d, err, w))"

definition flag_call :: "(ode \<Rightarrow> 'w \<Rightarrow> int \<times> 'w) \<Rightarrow> string \<Rightarrow> 'w call" where
  "flag_call f name s =
     (let (d, err, w) = s; (r, w) = f d w in (Inr (FlagAt r, name, 1), d\<lparr>ode_flag := r\<rparr>, err, w))"

text \<open>The calls one after the other, up to the first that fails: then \<open>solve\<close> returns 1.\<close>

primrec checked_calls :: "'w call list \<Rightarrow> 'w ode_state \<Rightarrow> (exn + int) option \<times> 'w ode_state" where
  "checked_calls [] s = (None, s)"
| "checked_calls (c # cs) s =
     (case c s of
        (Inl e, s) \<Rightarrow> (Some (Inl e), s)
      | (Inr (v, name, opt), d, err, w) \<Rightarrow>
          (case check_flag v name opt of
             None \<Rightarrow> (Some (Inl (UndefinedBehaviour ''check_flag'')), d, err, w)
           | Some (msg, r) \<Rightarrow>
               if r \<noteq> 0 then (Some (Inr 1), d, err @ msg, w) else checked_calls cs (d, err @ msg, w)))"

text \<open>\<open>NV_Ith_S(y,0) = 1.0\<close> writes to the data of the vector; then the integrator is created.\<close>

definition create_call :: "'w sundials \<Rightarrow> 'w call" where
  "create_call L s =
     (let (d, err, w) = s
      in if ode_mProbDim d \<le> 0 then (Inl (UndefinedBehaviour ''NV_Ith_S''), s)
         else alloc_call (\<lambda>d. ARKodeCreate L) (\<lambda>p d. d\<lparr>arkode_mem := p\<rparr>) ''ARKodeCreate''
                (d, err, NV_Ith_S L (ode_y d) 0 1 w))"

definition implicit_calls :: "'w sundials \<Rightarrow> 'w undeclared \<Rightarrow> real \<Rightarrow> 'w call list" where
  "implicit_calls L u T0 =
     [flag_call (\<lambda>d. ARKodeInit L (arkode_mem d) None (Some (StateSpaceWrapper u)) T0 (ode_y d)) ''ARKodeInit'',
      alloc_call (\<lambda>d. SUNDenseMatrix L (ode_dim u) (ode_dim u)) (\<lambda>p d. d\<lparr>ode_A := p\<rparr>) ''SUNDenseMatrix'',
      alloc_call (\<lambda>d. SUNDenseLinearSolver L (ode_y d) (ode_A d)) (\<lambda>p d. d\<lparr>ode_LS := p\<rparr>) ''SUNDenseLinearSolver'',
      flag_call (\<lambda>d. ARKDlsSetLinearSolver L (arkode_mem d) (ode_LS d) (ode_A d)) ''ARKDlsSetLinearSolver'',
      flag_call (\<lambda>d. ARKDlsSetJacFn L (arkode_mem d) (JacobianWrapper u)) ''ARKDlsSetJacFn'']"

definition explicit_calls :: "'w sundials \<Rightarrow> 'w undeclared \<Rightarrow> real \<Rightarrow> 'w call list" where
  "explicit_calls L u T0 =
     [flag_call (\<lambda>d. ARKodeInit L (arkode_mem d) (Some (StateSpaceWrapper u)) None T0 (ode_y d)) ''ARKodeInit'']"

definition solve_calls :: "'w sundials \<Rightarrow> 'w undeclared \<Rightarrow> nat \<Rightarrow> real \<Rightarrow> bool \<Rightarrow> 'w call list" where
  "solve_calls L u this T0 implicit =
     [alloc_call (\<lambda>d. N_VNew_Serial L (ode_mProbDim d)) (\<lambda>p d. d\<lparr>ode_y := p\<rparr>) ''N_VNew_Serial'', create_call L]
     @ (if implicit then implicit_calls L u T0 else explicit_calls L u T0)
     @ [flag_call (\<lambda>d. ARKodeSetUserData L (arkode_mem d) this) ''ARKodeSetUserData'',
        flag_call (\<lambda>d. ARKodeSStolerances L (arkode_mem d) (reltol d) (abstol d)) ''ARKodeSStolerances'']"

text \<open>The main integrator loop.\<close>

partial_function (option) integrate :: "'w sundials \<Rightarrow> real \<Rightarrow> real \<Rightarrow> 'w ode_state \<Rightarrow> 'w ode_state option" where
  "integrate L Tf t s =
     (if 1 / 10 ^ 15 < Tf - t
      then let (d, err, w) = s;
               (r, t, w) = ARKode L (arkode_mem d) Tf (ode_y d) t w;
               d = d\<lparr>ode_flag := r\<rparr>
           in Option.bind (check_flag (FlagAt r) ''ARKode'' 1) (\<lambda>(msg, failed).
                if failed \<noteq> 0 then Some (d, err @ msg, w) else integrate L Tf t (d, err @ msg, w))
      else Some s)"

definition ODESolver_solve ::
    "(real \<Rightarrow> real) \<Rightarrow> 'w sundials \<Rightarrow> 'w undeclared \<Rightarrow> nat \<Rightarrow> real \<Rightarrow> bool \<Rightarrow> 'w ode_state \<Rightarrow> ((exn + int) \<times> 'w ode_state) option" where
  "ODESolver_solve rnd L u this initial_time implicit s =
     (let T0 = initial_time; Tf = fp_add rnd initial_time (ode_mTimeStep u)
      in case checked_calls (solve_calls L u this T0 implicit) s of
           (Some r, s) \<Rightarrow> Some (r, s)
         | (None, s) \<Rightarrow> map_option (\<lambda>s. (Inr (ode_flag (fst s)), s)) (integrate L Tf T0 s))"

text \<open>The destructor.\<close>

definition ODESolver_delete :: "'w sundials \<Rightarrow> ode \<Rightarrow> 'w \<Rightarrow> 'w" where
  "ODESolver_delete L d w =
     SUNMatDestroy L (ode_A d) (SUNLinSolFree L (ode_LS d) (N_VDestroy L (ode_y d) (ARKodeFree L (arkode_mem d) w)))"

section \<open>The loop\<close>

lemma check_flag_simps [simp]:
  "check_flag (Pointer (Some p)) name 0 = Some ([], 0)"
  "0 \<le> r \<Longrightarrow> check_flag (FlagAt r) name 1 = Some ([], 0)"
  "check_flag (FlagAt r) name (Suc 0) = check_flag (FlagAt r) name 1"
  by (simp_all add: check_flag_def)

lemma check_flag_FlagAt: "\<exists>msg c. check_flag (FlagAt r) name 1 = Some (msg, c) \<and> (c = 0 \<longleftrightarrow> 0 \<le> r)"
  by (simp add: check_flag_def)

text \<open>Documented behaviour of \<open>ARKode\<close>: a call that does not fail advances the time, here by at least
  \<open>\<delta>\<close>. In the mode \<open>ARK_NORMAL\<close> it advances it to \<open>tout\<close>.\<close>

definition advances :: "real \<Rightarrow> 'w sundials \<Rightarrow> bool" where
  "advances \<delta> L \<longleftrightarrow> (\<forall>mem tout y t w. 0 \<le> fst (ARKode L mem tout y t w) \<longrightarrow> t + \<delta> \<le> fst (snd (ARKode L mem tout y t w)))"

definition reaches_tout :: "'w sundials \<Rightarrow> bool" where
  "reaches_tout L \<longleftrightarrow> (\<forall>mem tout y t w. 0 \<le> fst (ARKode L mem tout y t w) \<longrightarrow> fst (snd (ARKode L mem tout y t w)) = tout)"

lemma integrate_returns:
  assumes "advances \<delta> L" and "0 < \<delta>"
  shows "\<exists>s'. integrate L Tf t s = Some s'"
proof (induction "nat \<lceil>(Tf - t) / \<delta>\<rceil>" arbitrary: t s rule: less_induct)
  case less
  obtain d err w where s: "s = (d, err, w)" by (cases s)
  obtain r t' w' where A: "ARKode L (arkode_mem d) Tf (ode_y d) t w = (r, t', w')" by (rule prod_cases3)
  obtain msg c where c: "check_flag (FlagAt r) ''ARKode'' 1 = Some (msg, c)" "c = 0 \<longleftrightarrow> 0 \<le> r"
    using check_flag_FlagAt by blast
  show ?case
  proof (cases "1 / 10 ^ 15 < Tf - t \<and> c = 0")
    case True
    then have "t + \<delta> \<le> t'" using assms(1) A c(2) by (metis advances_def fst_conv snd_conv)
    then have "(Tf - t') / \<delta> \<le> (Tf - t - \<delta>) / \<delta>" using assms(2) by (intro divide_right_mono) simp_all
    then have "(Tf - t') / \<delta> \<le> (Tf - t) / \<delta> - 1" using assms(2) by (simp add: diff_divide_distrib)
    moreover have "0 < (Tf - t) / \<delta>" using True assms(2) by (simp add: less_trans[of 0 "1 / 10 ^ 15"])
    ultimately have "nat \<lceil>(Tf - t') / \<delta>\<rceil> < nat \<lceil>(Tf - t) / \<delta>\<rceil>" by linarith
    then show ?thesis using less[of t'] True A c(1) by (subst integrate.simps) (simp add: s)
  next
    case False
    then show ?thesis using A c(1) by (subst integrate.simps) (auto simp: s)
  qed
qed

lemma integrate_once:
  assumes "reaches_tout L"
  shows "integrate L Tf t (d, err, w) = Some
     (if Tf - t \<le> 1 / 10 ^ 15 then (d, err, w)
      else let (r, t', w') = ARKode L (arkode_mem d) Tf (ode_y d) t w
           in (d\<lparr>ode_flag := r\<rparr>, err @ fst (the (check_flag (FlagAt r) ''ARKode'' 1)), w'))"
proof -
  obtain r t' w' where A: "ARKode L (arkode_mem d) Tf (ode_y d) t w = (r, t', w')" by (rule prod_cases3)
  obtain msg c where c: "check_flag (FlagAt r) ''ARKode'' 1 = Some (msg, c)" "c = 0 \<longleftrightarrow> 0 \<le> r"
    using check_flag_FlagAt by blast
  have "c = 0 \<Longrightarrow> t' = Tf" using assms A c(2) by (metis reaches_tout_def fst_conv snd_conv)
  then have "c = 0 \<Longrightarrow> integrate L Tf t' s = Some s" for s by (subst integrate.simps) simp
  then show ?thesis using A c(1) by (subst integrate.simps) (auto simp: Let_def)
qed

section \<open>Memory\<close>

text \<open>Documented behaviour of SUNDIALS when memory suffices and the arguments are valid: each function
  that creates an object returns a new one, the others succeed and keep the set \<open>live w\<close> of objects, and
  freeing an object removes it (freeing \<open>NULL\<close> does nothing). The integrator may fail, but a call of it
  that does not fail reaches the time it was given.\<close>

definition allocates :: "('w \<Rightarrow> nat set) \<Rightarrow> ('w \<Rightarrow> ptr \<times> 'w) \<Rightarrow> bool" where
  "allocates live f \<longleftrightarrow> (\<forall>w. \<exists>p w'. f w = (Some p, w') \<and> p \<notin> live w \<and> live w' = insert p (live w))"

definition succeeds :: "('w \<Rightarrow> nat set) \<Rightarrow> ('w \<Rightarrow> int \<times> 'w) \<Rightarrow> bool" where
  "succeeds live f \<longleftrightarrow> (\<forall>w. 0 \<le> fst (f w) \<and> live (snd (f w)) = live w)"

definition frees :: "('w \<Rightarrow> nat set) \<Rightarrow> (ptr \<Rightarrow> 'w \<Rightarrow> 'w) \<Rightarrow> bool" where
  "frees live f \<longleftrightarrow> (\<forall>p w. live (f p w) = live w - set_option p)"

definition sundials_laws :: "('w \<Rightarrow> nat set) \<Rightarrow> 'w sundials \<Rightarrow> bool" where
  "sundials_laws live L \<longleftrightarrow>
     (\<forall>w. finite (live w)) \<and> reaches_tout L
   \<and> (\<forall>n. 0 < n \<longrightarrow> allocates live (N_VNew_Serial L n)) \<and> allocates live (ARKodeCreate L)
   \<and> (\<forall>m n. allocates live (SUNDenseMatrix L m n)) \<and> (\<forall>y A. allocates live (SUNDenseLinearSolver L y A))
   \<and> (\<forall>y i x w. live (NV_Ith_S L y i x w) = live w)
   \<and> (\<forall>m fe fi t y. succeeds live (ARKodeInit L m fe fi t y)) \<and> (\<forall>m LS A. succeeds live (ARKDlsSetLinearSolver L m LS A))
   \<and> (\<forall>m f. succeeds live (ARKDlsSetJacFn L m f)) \<and> (\<forall>m a. succeeds live (ARKodeSetUserData L m a))
   \<and> (\<forall>m r a. succeeds live (ARKodeSStolerances L m r a))
   \<and> (\<forall>m tout y t w. live (snd (snd (ARKode L m tout y t w))) = live w)
   \<and> frees live (ARKodeFree L) \<and> frees live (N_VDestroy L) \<and> frees live (SUNLinSolFree L) \<and> frees live (SUNMatDestroy L)"

text \<open>How a property of the result of the calls follows from that of the calls behind the first one.\<close>

lemma checked_alloc:
  assumes "allocates live (f d)"
    and "\<And>p w'. p \<notin> live w \<Longrightarrow> live w' = insert p (live w) \<Longrightarrow> P (checked_calls cs (put (Some p) d, err, w'))"
  shows "P (checked_calls (alloc_call f put name # cs) (d, err, w))"
proof -
  obtain p w' where "f d w = (Some p, w')" "p \<notin> live w" "live w' = insert p (live w)"
    using assms(1)[unfolded allocates_def, rule_format, of w] by blast
  then show ?thesis using assms(2) by (simp add: alloc_call_def)
qed

lemma checked_flag:
  assumes "succeeds live (f d)"
    and "\<And>r w'. live w' = live w \<Longrightarrow> P (checked_calls cs (d\<lparr>ode_flag := r\<rparr>, err, w'))"
  shows "P (checked_calls (flag_call f name # cs) (d, err, w))"
proof -
  obtain r w' where "f d w = (r, w')" by (cases "f d w")
  then show ?thesis using assms(1)[unfolded succeeds_def, rule_format, of w] assms(2) by (simp add: flag_call_def)
qed

lemma checked_create:
  assumes "allocates live (ARKodeCreate L)" and "\<And>w. live (NV_Ith_S L (ode_y d) 0 1 w) = live w" and "0 < ode_mProbDim d"
    and "\<And>p w'. p \<notin> live w \<Longrightarrow> live w' = insert p (live w) \<Longrightarrow> P (checked_calls cs (d\<lparr>arkode_mem := Some p\<rparr>, err, w'))"
  shows "P (checked_calls (create_call L # cs) (d, err, w))"
proof -
  have "P (checked_calls (alloc_call (\<lambda>d. ARKodeCreate L) (\<lambda>p d. d\<lparr>arkode_mem := p\<rparr>) ''ARKodeCreate'' # cs)
      (d, err, NV_Ith_S L (ode_y d) 0 1 w))"
    by (rule checked_alloc[OF assms(1)]) (use assms(2,4) in simp)
  then show ?thesis using assms(3) by (simp add: create_call_def)
qed

text \<open>The objects the solver refers to: the vector and the integrator, the matrix and the linear solver.\<close>

definition step_objects :: "ode \<Rightarrow> nat set" where
  "step_objects d = set_option (ode_y d) \<union> set_option (arkode_mem d)"

definition jacobian_objects :: "ode \<Rightarrow> nat set" where
  "jacobian_objects d = set_option (ode_A d) \<union> set_option (ode_LS d)"

definition set_up :: "('w \<Rightarrow> nat set) \<Rightarrow> bool \<Rightarrow> 'w ode_state \<Rightarrow> (exn + int) option \<times> 'w ode_state \<Rightarrow> bool" where
  "set_up live implicit s res \<longleftrightarrow>
     (\<exists>d' w' p q. res = (None, d', fst (snd s), w') \<and> p \<noteq> q \<and> {p, q} \<inter> live (snd (snd s)) = {} \<and> step_objects d' = {p, q}
     \<and> ode_mProbDim d' = ode_mProbDim (fst s)
     \<and> (if implicit
        then \<exists>a b. a \<noteq> b \<and> {a, b} \<inter> insert p (insert q (live (snd (snd s)))) = {} \<and> jacobian_objects d' = {a, b}
               \<and> live w' = live (snd (snd s)) \<union> {p, q, a, b}
        else jacobian_objects d' = jacobian_objects (fst s) \<and> live w' = live (snd (snd s)) \<union> {p, q}))"

lemma setup_succeeds:
  assumes "sundials_laws live L" and "0 < ode_mProbDim d"
  shows "set_up live implicit (d, err, w) (checked_calls (solve_calls L u this T0 implicit) (d, err, w))"
proof -
  let ?P = "set_up live implicit (d, err, w)"
  note laws = assms(1)[unfolded sundials_laws_def]
  note steps = checked_alloc[where P = ?P and live = live] checked_flag[where P = ?P and live = live]
    checked_create[where P = ?P and live = live]
  show ?thesis
  proof (cases implicit)
    case True
    show ?thesis
      unfolding solve_calls_def implicit_calls_def append_Cons append_Nil if_P[OF True]
      by (intro steps) (use laws assms(2) in \<open>auto simp: set_up_def step_objects_def jacobian_objects_def True\<close>)
  next
    case False
    show ?thesis
      unfolding solve_calls_def explicit_calls_def append_Cons append_Nil if_not_P[OF False]
      by (intro steps) (use laws assms(2) in \<open>auto simp: set_up_def step_objects_def jacobian_objects_def False\<close>)
  qed
qed

text \<open>The account after \<open>n\<close> calls of \<open>solve\<close>, \<open>k\<close> of them implicit, on a solver that was created when \<open>c\<close>
  objects were live.\<close>

definition accounted :: "('w \<Rightarrow> nat set) \<Rightarrow> nat \<Rightarrow> nat \<Rightarrow> nat \<Rightarrow> 'w ode_state \<Rightarrow> bool" where
  "accounted live c n k s \<longleftrightarrow>
     (let (d, err, w) = s
      in 0 < ode_mProbDim d \<and> finite (live w) \<and> card (live w) = c + 2 * n + 2 * k
       \<and> step_objects d \<union> jacobian_objects d \<subseteq> live w \<and> step_objects d \<inter> jacobian_objects d = {}
       \<and> card (step_objects d) = (if n = 0 then 0 else 2) \<and> card (jacobian_objects d) = (if k = 0 then 0 else 2))"

lemma solve_accounted:
  assumes "sundials_laws live L" and "accounted live c n k s"
  shows "\<exists>r s'. ODESolver_solve rnd L u this T0 implicit s = Some (r, s')
     \<and> accounted live c (Suc n) (if implicit then Suc k else k) s'"
proof -
  obtain d err w where s: "s = (d, err, w)" by (cases s)
  have inv: "0 < ode_mProbDim d" "finite (live w)" "card (live w) = c + 2 * n + 2 * k"
    "step_objects d \<union> jacobian_objects d \<subseteq> live w" "card (jacobian_objects d) = (if k = 0 then 0 else 2)"
    using assms(2) by (simp_all add: accounted_def s)
  obtain d1 w1 p q where set_up: "checked_calls (solve_calls L u this T0 implicit) (d, err, w) = (None, d1, err, w1)"
      "p \<noteq> q" "{p, q} \<inter> live w = {}" "step_objects d1 = {p, q}" "ode_mProbDim d1 = ode_mProbDim d"
    and imp: "if implicit
        then \<exists>a b. a \<noteq> b \<and> {a, b} \<inter> insert p (insert q (live w)) = {} \<and> jacobian_objects d1 = {a, b}
               \<and> live w1 = live w \<union> {p, q, a, b}
        else jacobian_objects d1 = jacobian_objects d \<and> live w1 = live w \<union> {p, q}"
    using setup_succeeds[OF assms(1) inv(1), of implicit err w u this T0] unfolding set_up_def fst_conv snd_conv by blast
  have acc: "accounted live c (Suc n) (if implicit then Suc k else k) (d1, err, w1)"
  proof (cases implicit)
    case True
    then obtain a b where ab: "a \<noteq> b" "{a, b} \<inter> insert p (insert q (live w)) = {}" "jacobian_objects d1 = {a, b}"
        "live w1 = live w \<union> {p, q, a, b}" using imp by auto
    have "card (live w1) = card (live w) + card {p, q, a, b}"
      unfolding ab(4) by (rule card_Un_disjoint) (use inv(2) ab(2) set_up(3) in auto)
    moreover have "card {p, q, a, b} = 4" using ab(1,2) set_up(2) by auto
    ultimately show ?thesis using inv set_up ab True by (auto simp: accounted_def)
  next
    case False
    then have l: "live w1 = live w \<union> {p, q}" using imp by simp
    have "card (live w1) = card (live w) + card {p, q}"
      unfolding l by (rule card_Un_disjoint) (use inv(2) set_up(3) in auto)
    then show ?thesis using inv set_up imp False by (auto simp: accounted_def)
  qed
  have keep: "accounted live c n' k' (d1\<lparr>ode_flag := r\<rparr>, err', w')"
    if "live w' = live w1" "accounted live c n' k' (d1, err, w1)" for r err' w' n' k'
    using that by (simp add: accounted_def step_objects_def jacobian_objects_def)
  have tout: "reaches_tout L" and ark: "live (snd (snd (ARKode L m tout y t w))) = live w" for m tout y t w
    using assms(1) by (simp_all add: sundials_laws_def)
  obtain r t' w' where A: "ARKode L (arkode_mem d1) (fp_add rnd T0 (ode_mTimeStep u)) (ode_y d1) T0 w1 = (r, t', w')"
    by (rule prod_cases3)
  have "live w' = live w1" using ark[of "arkode_mem d1" "fp_add rnd T0 (ode_mTimeStep u)" "ode_y d1" T0 w1] by (simp add: A)
  then show ?thesis using acc keep set_up(1) by (simp add: ODESolver_solve_def s integrate_once[OF tout] A)
qed

text \<open>A program that solves one time step after the other: the initial times, and whether to solve
  implicitly.\<close>

primrec solve_steps ::
    "(real \<Rightarrow> real) \<Rightarrow> 'w sundials \<Rightarrow> 'w undeclared \<Rightarrow> nat \<Rightarrow> (real \<times> bool) list \<Rightarrow> 'w ode_state \<Rightarrow> 'w ode_state option" where
  "solve_steps rnd L u this [] s = Some s"
| "solve_steps rnd L u this (x # xs) s =
     Option.bind (ODESolver_solve rnd L u this (fst x) (snd x) s) (\<lambda>(r, s). solve_steps rnd L u this xs s)"

lemma solve_steps_accounted:
  assumes "sundials_laws live L" and "accounted live c n k s"
  shows "\<exists>s'. solve_steps rnd L u this xs s = Some s' \<and> accounted live c (n + length xs) (k + length (filter snd xs)) s'"
  using assms(2)
proof (induction xs arbitrary: n k s)
  case (Cons x xs)
  obtain r s1 where s1: "ODESolver_solve rnd L u this (fst x) (snd x) s = Some (r, s1)"
      "accounted live c (Suc n) (if snd x then Suc k else k) s1"
    using solve_accounted[OF assms(1) Cons.prems, of rnd u this "fst x" "snd x"] by blast
  show ?case using Cons.IH[OF s1(2)] s1(1) by (cases "snd x") simp_all
qed simp

lemma leak_arith: "0 < n \<Longrightarrow> c + 2 * n + 2 * k - (2 + (if k = 0 then 0 else 2)) = c + 2 * (n - 1) + 2 * (k - 1)" for c n k :: nat
  by (cases n; cases k) simp_all


section \<open>What is reported\<close>

lemma alloc_call_checked:
  "checked_calls (alloc_call f put name # cs) (d, err, w) =
     (case f d w of
        (None, w') \<Rightarrow> (Some (Inr 1), put None d, err @ fst (the (check_flag (Pointer None) name 0)), w')
      | (Some p, w') \<Rightarrow> checked_calls cs (put (Some p) d, err, w'))"
  by (cases "f d w"; cases "fst (f d w)") (simp_all add: alloc_call_def check_flag_def)

lemma flag_call_checked:
  "checked_calls (flag_call f name # cs) (d, err, w) =
     (case f d w of (r, w') \<Rightarrow>
        if r < 0 then (Some (Inr 1), d\<lparr>ode_flag := r\<rparr>, err @ fst (the (check_flag (FlagAt r) name 1)), w')
        else checked_calls cs (d\<lparr>ode_flag := r\<rparr>, err, w'))"
  by (cases "f d w") (simp add: flag_call_def check_flag_def)

text \<open>A result of the calls: nothing was reported and all succeeded, the last one with the flag of the
  object, or something was reported and \<open>solve\<close> returns 1.\<close>

definition reported :: "string \<Rightarrow> (exn + int) option \<times> 'w ode_state \<Rightarrow> bool" where
  "reported err res \<longleftrightarrow>
     (case res of (r, d, err', w) \<Rightarrow> if r = None then err' = err \<and> 0 \<le> ode_flag d else r = Some (Inr 1) \<and> err' \<noteq> err)"

lemma reported_alloc:
  assumes "\<And>p w'. reported err (checked_calls cs (put (Some p) d, err, w'))"
  shows "reported err (checked_calls (alloc_call f put name # cs) (d, err, w))"
proof (cases "f d w")
  case (Pair p w')
  then show ?thesis
    using assms by (cases p) (simp_all add: alloc_call_checked check_flag_def reported_def del: checked_calls.simps)
qed

lemma reported_flag:
  assumes "\<And>r w'. 0 \<le> r \<Longrightarrow> reported err (checked_calls cs (d\<lparr>ode_flag := r\<rparr>, err, w'))"
  shows "reported err (checked_calls (flag_call f name # cs) (d, err, w))"
proof (cases "f d w")
  case (Pair r w')
  then show ?thesis
    using assms[of r w'] by (cases "r < 0") (simp_all add: flag_call_checked check_flag_def reported_def del: checked_calls.simps)
qed

lemma reported_create:
  assumes "0 < ode_mProbDim d" and "\<And>p w'. reported err (checked_calls cs (d\<lparr>arkode_mem := Some p\<rparr>, err, w'))"
  shows "reported err (checked_calls (create_call L # cs) (d, err, w))"
proof -
  have "reported err (checked_calls (alloc_call (\<lambda>d. ARKodeCreate L) (\<lambda>p d. d\<lparr>arkode_mem := p\<rparr>) ''ARKodeCreate'' # cs)
      (d, err, NV_Ith_S L (ode_y d) 0 1 w))"
    by (rule reported_alloc) (rule assms(2))
  then show ?thesis using assms(1) by (simp add: create_call_def)
qed

lemma solve_calls_reported:
  assumes "0 < ode_mProbDim d"
  shows "reported err (checked_calls (solve_calls L u this T0 implicit) (d, err, w))"
  unfolding solve_calls_def implicit_calls_def explicit_calls_def append_Cons append_Nil
  by (cases implicit; simp only: if_True if_False append_Cons append_Nil;
      intro reported_alloc reported_flag reported_create) (use assms in \<open>simp_all add: reported_def\<close>)

lemma integrate_reported:
  assumes "integrate L Tf t s = Some s'" and "0 \<le> ode_flag (fst s)"
  shows "\<exists>msg. fst (snd s') = fst (snd s) @ msg \<and> (msg = [] \<longleftrightarrow> 0 \<le> ode_flag (fst s'))"
  using assms
proof (induction L Tf t s s' rule: integrate.raw_induct[rotated, consumes 1])
  case (1 loop L Tf t s s')
  obtain d err w where s: "s = (d, err, w)" by (cases s)
  obtain r t' w' where A: "ARKode L (arkode_mem d) Tf (ode_y d) t w = (r, t', w')" by (rule prod_cases3)
  show ?case
  proof (cases "1 / 10 ^ 15 < Tf - t \<and> 0 \<le> r")
    case True
    then show ?thesis using 1(1)[of L Tf t' "(d\<lparr>ode_flag := r\<rparr>, err, w')" s'] 1(2) by (simp add: s A)
  next
    case False
    then show ?thesis using 1(2,3) by (auto simp: s A check_flag_def split: if_splits)
  qed
qed

text \<open>\<open>solve\<close> returns and reports its errors. If a call of the integrator that does not fail advances the
  time by some minimum, the loop ends. The result is 1 or negative if a message was written to \<open>cerr\<close>, and
  nothing is negative without one.\<close>

theorem ODESolver_solve_reports:
  assumes "advances \<delta> L" and "0 < \<delta>" and "0 < ode_mProbDim d"
  shows "\<exists>i d' err' w'. ODESolver_solve rnd L u this T0 implicit (d, err, w) = Some (Inr i, d', err', w')
     \<and> (i < 0 \<longrightarrow> err' \<noteq> err) \<and> (err' \<noteq> err \<longrightarrow> i < 0 \<or> i = 1)"
proof -
  obtain r d1 err1 w1 where c: "checked_calls (solve_calls L u this T0 implicit) (d, err, w) = (r, d1, err1, w1)"
    by (metis prod.exhaust)
  have rep: "if r = None then err1 = err \<and> 0 \<le> ode_flag d1 else r = Some (Inr 1) \<and> err1 \<noteq> err"
    using solve_calls_reported[OF assms(3), of err L u this T0 implicit w] by (simp add: c reported_def)
  show ?thesis
  proof (cases r)
    case None
    obtain d2 err2 w2 where i: "integrate L (fp_add rnd T0 (ode_mTimeStep u)) T0 (d1, err1, w1) = Some (d2, err2, w2)"
      using integrate_returns[OF assms(1,2)] by (metis prod.exhaust)
    have "ODESolver_solve rnd L u this T0 implicit (d, err, w) = Some (Inr (ode_flag d2), d2, err2, w2)"
      using None by (simp add: ODESolver_solve_def c i)
    moreover obtain msg where "err2 = err @ msg" "msg = [] \<longleftrightarrow> 0 \<le> ode_flag d2"
      using integrate_reported[OF i] rep None by auto
    ultimately show ?thesis by (intro exI conjI) (assumption, auto)
  qed (use rep in \<open>auto simp: ODESolver_solve_def c\<close>)
qed

section \<open>The example\<close>

text \<open>A library whose world is the list of the live objects; the integrator reaches every time.\<close>

definition demo_alloc :: "nat list \<Rightarrow> ptr \<times> nat list" where
  "demo_alloc w = (Some (Suc (sum_list w)), Suc (sum_list w) # w)"

definition demo_free :: "ptr \<Rightarrow> nat list \<Rightarrow> nat list" where
  "demo_free p w = filter (\<lambda>q. p \<noteq> Some q) w"

definition demo_sundials :: "nat list sundials" where
  "demo_sundials = \<lparr>N_VNew_Serial = (\<lambda>_. demo_alloc), NV_Ith_S = (\<lambda>_ _ _ w. w), ARKodeCreate = demo_alloc,
     ARKodeInit = (\<lambda>_ _ _ _ _ w. (0, w)), SUNDenseMatrix = (\<lambda>_ _. demo_alloc), SUNDenseLinearSolver = (\<lambda>_ _. demo_alloc),
     ARKDlsSetLinearSolver = (\<lambda>_ _ _ w. (0, w)), ARKDlsSetJacFn = (\<lambda>_ _ w. (0, w)), ARKodeSetUserData = (\<lambda>_ _ w. (0, w)),
     ARKodeSStolerances = (\<lambda>_ _ _ w. (0, w)), ARKode = (\<lambda>_ tout _ t w. (0, tout, w)), ARKodeFree = demo_free,
     N_VDestroy = demo_free, SUNLinSolFree = demo_free, SUNMatDestroy = demo_free\<rparr>"

definition demo_undeclared :: "nat list undeclared" where
  "demo_undeclared = \<lparr>ode_mTimeStep = 1, ode_dim = 2, ode_StateSpace = (\<lambda>_ _ _ _ w. (0, w)), ode_Jacobian = (\<lambda>_ _ _ _ _ _ w. (0, w))\<rparr>"

lemma demo_alloc_allocates: "allocates set demo_alloc"
proof -
  have "Suc (sum_list w) \<notin> set w" for w :: "nat list"
    using member_le_sum_list[of "Suc (sum_list w)" w] by auto
  then show ?thesis by (simp add: allocates_def demo_alloc_def)
qed

lemma demo_sundials_laws: "sundials_laws set demo_sundials"
  using demo_alloc_allocates
  by (auto simp: sundials_laws_def demo_sundials_def succeeds_def frees_def demo_free_def reaches_tout_def)

definition demo_ode_system :: system_topology where
  "demo_ode_system = \<lparr>sysComponents = [], sysNodes = [], mSystemFrequency = 50, mSystemOmega = 314\<rparr>"


text \<open>An integrator that advances by one half and fails at 3.\<close>

definition halting_sundials :: "nat list sundials" where
  "halting_sundials = demo_sundials\<lparr>ARKode := (\<lambda>_ tout _ t w. if 3 \<le> t then (-4, t, w) else (0, t + 1 / 2, w))\<rparr>"

theorem ODESolver_solve_reports_witness:
  "\<exists>i d' err' w'. ODESolver_solve id halting_sundials demo_undeclared 7 (5 / 2) True
       (ODESolver_new demo_ode_system 1 2 0, [], []) = Some (Inr i, d', err', w')
     \<and> (i < 0 \<longrightarrow> err' \<noteq> []) \<and> (err' \<noteq> [] \<longrightarrow> i < 0 \<or> i = 1)"
  using ODESolver_solve_reports[of "1 / 2" halting_sundials "ODESolver_new demo_ode_system 1 2 0" id demo_undeclared 7 "5 / 2" True "[]" "[]"]
  by (simp add: advances_def halting_sundials_def ODESolver_new_def)

end
