(* ===== verification/PyHeap.thy ===== *)
theory PyHeap
  imports Prelude "HOL-Library.Monad_Syntax"
begin

text \<open>
  The objects of the Python module and their reference counts: what the files under
  \<open>Source/Python\<close> use of the Python C API, with the \<open>dealloc\<close> functions of the module's types.

  An address is an index into the heap. An object is there with its reference count until the count
  drops to zero; then \<open>tp_dealloc\<close> of its type runs, which gives up the references the object
  holds. \<open>None\<close> as the result of an operation stands for undefined behaviour: an object was used
  after it had been freed, or a C++ pointer was null.

  \<open>counted h ext\<close> is the invariant of reference counting: the count of every object is the number
  of references held by other objects and by the code outside (the multiset \<open>ext\<close>). It implies that
  no reference dangles. An operation that keeps its promises turns \<open>counted h ext\<close> into
  \<open>counted h' ext\<close>, with the reference it returns added.
\<close>

section \<open>Objects\<close>

type_synonym pyref = nat

text \<open>The built-in objects the module handles and its own types. A pointer to a C++ object that may
  be null is an option; \<open>PyNode True\<close> is \<open>Node<Complex>\<close> and \<open>PyNode False\<close> is \<open>Node<Real>\<close>. The
  members that hold Python references are: \<open>refs\<close> of components and loggers, the two dictionaries of
  a system topology, the list of exports of an interface.\<close>

datatype py_obj =
    PyNone
  | PyBool bool
  | PyLong int
  | PyFloat real
  | PyComplex real real
  | PyStr string
  | PyBytes string
  | PyList "pyref list"
  | PyDict "(pyref \<times> pyref) list"
  | PyComponent "nat option" "pyref list"
  | PyNode bool "nat option"
  | PySystemTopology "nat option" pyref pyref
  | PyLogger "nat option" string "pyref list"
  | PyInterface "nat option" pyref

text \<open>The references the \<open>dealloc\<close> functions give up (what they destroy on the C++ side has no
  Python references in it).\<close>

definition Node_dealloc :: "nat option \<Rightarrow> pyref list" where
  [simp]: "Node_dealloc node = []"

definition Component_dealloc :: "pyref list \<Rightarrow> pyref list" where
  [simp]: "Component_dealloc refs = refs"

definition SystemTopology_dealloc :: "pyref \<Rightarrow> pyref \<Rightarrow> pyref list" where
  [simp]: "SystemTopology_dealloc pyComponentDict pyNodeDict = [pyComponentDict, pyNodeDict]"

definition Logger_dealloc :: "pyref list \<Rightarrow> pyref list" where
  [simp]: "Logger_dealloc refs = refs"

definition Interface_dealloc :: "pyref \<Rightarrow> pyref list" where
  [simp]: "Interface_dealloc pyExports = [pyExports]"

fun dealloc :: "py_obj \<Rightarrow> pyref list" where
  "dealloc (PyList xs) = xs"
| "dealloc (PyDict kvs) = concat (map (\<lambda>(k, v). [k, v]) kvs)"
| "dealloc (PyComponent c refs) = Component_dealloc refs"
| "dealloc (PyNode b node) = Node_dealloc node"
| "dealloc (PySystemTopology sys compDict nodeDict) = SystemTopology_dealloc compDict nodeDict"
| "dealloc (PyLogger l file refs) = Logger_dealloc refs"
| "dealloc (PyInterface i exports) = Interface_dealloc exports"
| "dealloc _ = []"

type_synonym py_heap = "(py_obj \<times> nat) option list"

definition cell_of :: "py_heap \<Rightarrow> pyref \<Rightarrow> (py_obj \<times> nat) option" where
  "cell_of h r = (if r < length h then h ! r else None)"

definition obj_at :: "py_heap \<Rightarrow> pyref \<Rightarrow> py_obj option" where
  "obj_at h r = map_option fst (cell_of h r)"

definition refcnt :: "py_heap \<Rightarrow> pyref \<Rightarrow> nat" where
  "refcnt h r = (case cell_of h r of None \<Rightarrow> 0 | Some (ob, n) \<Rightarrow> n)"

section \<open>Operations of the C API\<close>

definition py_alloc :: "py_obj \<Rightarrow> py_heap \<Rightarrow> pyref \<times> py_heap" where
  "py_alloc ob h = (length h, h @ [Some (ob, 1)])"

definition incref :: "pyref \<Rightarrow> py_heap \<Rightarrow> py_heap option" where
  "incref r h = (case cell_of h r of None \<Rightarrow> None | Some (ob, n) \<Rightarrow> Some (h[r := Some (ob, Suc n)]))"

definition put_obj :: "pyref \<Rightarrow> py_obj \<Rightarrow> py_heap \<Rightarrow> py_heap option" where
  "put_obj r ob h = (case cell_of h r of None \<Rightarrow> None | Some (_, n) \<Rightarrow> Some (h[r := Some (ob, n)]))"

text \<open>\<open>Py_DECREF\<close> for the references of a worklist: an object whose count drops to zero is freed and
  gives up its own references.\<close>

definition live :: "py_heap \<Rightarrow> nat" where
  "live h = length (filter (\<lambda>c. c \<noteq> None) h)"

lemma cell_of_Some: "cell_of h r = Some c \<longleftrightarrow> r < length h \<and> h ! r = Some c"
  by (auto simp: cell_of_def)

lemma split_cell: "r < length h \<Longrightarrow> \<exists>a b. h = a @ h ! r # b \<and> (\<forall>c. h[r := c] = a @ c # b)"
  by (metis id_take_nth_drop upd_conv_take_nth_drop)

lemma live_free: "cell_of h r = Some c \<Longrightarrow> live (h[r := None]) < live h"
proof -
  assume "cell_of h r = Some c"
  then have "r < length h" "h ! r = Some c" by (auto simp: cell_of_Some)
  then obtain a b where "h = a @ Some c # b" "h[r := None] = a @ None # b" using split_cell[of r h] by auto
  then show ?thesis unfolding live_def by simp
qed

lemma live_update: "cell_of h r = Some c \<Longrightarrow> live (h[r := Some d]) = live h"
proof -
  assume "cell_of h r = Some c"
  then have "r < length h" "h ! r = Some c" by (auto simp: cell_of_Some)
  then obtain a b where "h = a @ Some c # b" "h[r := Some d] = a @ Some d # b" using split_cell[of r h] by auto
  then show ?thesis unfolding live_def by simp
qed

function release :: "pyref list \<Rightarrow> py_heap \<Rightarrow> py_heap option" where
  "release [] h = Some h"
| "release (r # rs) h =
     (case cell_of h r of
        None \<Rightarrow> None
      | Some (ob, n) \<Rightarrow>
          if n = 1 then release (dealloc ob @ rs) (h[r := None])
          else release rs (h[r := Some (ob, n - 1)]))"
  by pat_completeness auto
termination
  by (relation "measures [\<lambda>(rs, h). live h, \<lambda>(rs, h). length rs]") (auto simp: live_free live_update)

abbreviation decref :: "pyref \<Rightarrow> py_heap \<Rightarrow> py_heap option" where
  "decref r \<equiv> release [r]"

text \<open>Lists: \<open>PyList_Append\<close> takes a new reference to the item; \<open>PyList_SetItem\<close> takes over the
  caller's reference and gives up the one of the replaced item.\<close>

definition PyList_Append :: "pyref \<Rightarrow> pyref \<Rightarrow> py_heap \<Rightarrow> py_heap option" where
  "PyList_Append l x h = (case obj_at h l of
      Some (PyList xs) \<Rightarrow> do { h \<leftarrow> incref x h; put_obj l (PyList (xs @ [x])) h }
    | _ \<Rightarrow> None)"

definition PyList_SetItem :: "pyref \<Rightarrow> nat \<Rightarrow> pyref \<Rightarrow> py_heap \<Rightarrow> py_heap option" where
  "PyList_SetItem l i x h = (case obj_at h l of
      Some (PyList xs) \<Rightarrow>
        if i < length xs then do { h \<leftarrow> put_obj l (PyList (xs[i := x])) h; decref (xs ! i) h } else decref x h
    | _ \<Rightarrow> None)"

text \<open>Dictionaries with string keys: keys are compared by their text; a new entry takes a reference
  to key and value, an existing one keeps its key and changes its value.\<close>

fun str_of :: "py_heap \<Rightarrow> pyref \<Rightarrow> string option" where
  "str_of h r = (case obj_at h r of Some (PyStr s) \<Rightarrow> Some s | _ \<Rightarrow> None)"

definition dict_items :: "py_heap \<Rightarrow> pyref \<Rightarrow> (pyref \<times> pyref) list option" where
  "dict_items h d = (case obj_at h d of Some (PyDict kvs) \<Rightarrow> Some kvs | _ \<Rightarrow> None)"

definition has_key :: "py_heap \<Rightarrow> (pyref \<times> pyref) list \<Rightarrow> string \<Rightarrow> bool" where
  "has_key h kvs s \<longleftrightarrow> list_ex (\<lambda>(k, v). str_of h k = Some s) kvs"

definition PyDict_Contains :: "pyref \<Rightarrow> pyref \<Rightarrow> py_heap \<Rightarrow> bool option" where
  "PyDict_Contains d k h = do { kvs \<leftarrow> dict_items h d; s \<leftarrow> str_of h k; Some (has_key h kvs s) }"

fun replace_value :: "py_heap \<Rightarrow> string \<Rightarrow> pyref \<Rightarrow> (pyref \<times> pyref) list \<Rightarrow> (pyref \<times> pyref) list \<times> pyref list" where
  "replace_value h s v [] = ([], [])"
| "replace_value h s v ((k, old) # kvs) =
     (if str_of h k = Some s then ((k, v) # kvs, [old])
      else let (kvs, olds) = replace_value h s v kvs in ((k, old) # kvs, olds))"

definition PyDict_SetItem :: "pyref \<Rightarrow> pyref \<Rightarrow> pyref \<Rightarrow> py_heap \<Rightarrow> py_heap option" where
  "PyDict_SetItem d k v h = do {
     kvs \<leftarrow> dict_items h d;
     s \<leftarrow> str_of h k;
     h \<leftarrow> incref v h;
     if has_key h kvs s then do {
       h \<leftarrow> put_obj d (PyDict (fst (replace_value h s v kvs))) h;
       release (snd (replace_value h s v kvs)) h }
     else do {
       h \<leftarrow> incref k h;
       put_obj d (PyDict (kvs @ [(k, v)])) h }
   }"

section \<open>Reference counting\<close>

definition held :: "py_heap \<Rightarrow> pyref multiset" where
  "held h = sum_list (map (\<lambda>c. case c of None \<Rightarrow> {#} | Some (ob, n) \<Rightarrow> mset (dealloc ob)) h)"

definition counted :: "py_heap \<Rightarrow> pyref multiset \<Rightarrow> bool" where
  "counted h ext \<longleftrightarrow> (\<forall>r. refcnt h r = count ext r + count (held h) r) \<and> (\<forall>c \<in> set h. case c of None \<Rightarrow> True | Some (ob, n) \<Rightarrow> 0 < n)"

lemma counted_unique: "counted h a \<Longrightarrow> counted h b \<Longrightarrow> a = b"
  by (rule multiset_eqI) (simp add: counted_def)

lemma cell_of_update: "cell_of (h[r := c]) r' = (if r' = r \<and> r < length h then c else cell_of h r')"
  by (auto simp: cell_of_def)

abbreviation refs_in :: "(py_obj \<times> nat) option \<Rightarrow> pyref multiset" where
  "refs_in c \<equiv> (case c of None \<Rightarrow> {#} | Some (ob, n) \<Rightarrow> mset (dealloc ob))"

lemma held_split: "r < length h \<Longrightarrow> held (h[r := c]) + refs_in (h ! r) = held h + refs_in c"
proof -
  assume "r < length h"
  then obtain a b where ab: "h = a @ h ! r # b" "h[r := c] = a @ c # b" using split_cell[of r h] by blast
  have "held h = held a + (refs_in (h ! r) + held b)" by (subst ab(1)) (simp add: held_def)
  moreover have "held (h[r := c]) = held a + (refs_in c + held b)" by (subst ab(2)) (simp add: held_def)
  ultimately show ?thesis by (simp add: ac_simps)
qed

lemma counted_live:
  assumes "counted h ext" and "cell_of h r = Some (ob, n)"
  shows "0 < n"
proof -
  have "Some (ob, n) \<in> set h" using assms(2) by (metis cell_of_Some nth_mem)
  with assms(1) show ?thesis by (auto simp: counted_def)
qed

lemma counted_ext_live:
  assumes "counted h ext" and "r \<in># ext"
  shows "\<exists>ob n. cell_of h r = Some (ob, n)"
proof -
  have "0 < refcnt h r" using assms by (simp add: counted_def)
  then show ?thesis by (simp add: refcnt_def split: option.splits)
qed

lemma counted_update:
  assumes "counted h ext" and "cell_of h r = Some (ob, n)" and "0 < m"
    and "ext' + mset (dealloc ob') + replicate_mset n r = ext + mset (dealloc ob) + replicate_mset m r"
  shows "counted (h[r := Some (ob', m)]) ext'"
proof -
  have r: "r < length h" "h ! r = Some (ob, n)" using assms(2) by (simp_all add: cell_of_Some)
  have "refcnt (h[r := Some (ob', m)]) x = count ext' x + count (held (h[r := Some (ob', m)])) x" for x
  proof -
    have "count (held (h[r := Some (ob', m)])) x + count (mset (dealloc ob)) x = count (held h) x + count (mset (dealloc ob')) x"
      using arg_cong[OF held_split[OF r(1), of "Some (ob', m)"], of "\<lambda>M. count M x"] r(2) by simp
    moreover have "count ext' x + count (mset (dealloc ob')) x + (if x = r then n else 0)
        = count ext x + count (mset (dealloc ob)) x + (if x = r then m else 0)"
      using arg_cong[OF assms(4), of "\<lambda>M. count M x"] by (simp split: if_splits)
    moreover have "refcnt h x = count ext x + count (held h) x" using assms(1) by (simp add: counted_def)
    moreover have "refcnt h r = n" using assms(2) by (simp add: refcnt_def)
    moreover have "refcnt (h[r := Some (ob', m)]) x = (if x = r then m else refcnt h x)"
      using r by (auto simp: refcnt_def cell_of_update)
    ultimately show ?thesis by (auto split: if_splits)
  qed
  moreover have "\<forall>c \<in> set (h[r := Some (ob', m)]). case c of None \<Rightarrow> True | Some (ob, n) \<Rightarrow> 0 < n"
    using assms(1,3) by (auto simp: counted_def dest!: subsetD[OF set_update_subset_insert])
  ultimately show ?thesis by (simp add: counted_def)
qed

lemma counted_free:
  assumes "counted h (add_mset r ext)" and "cell_of h r = Some (ob, 1)"
  shows "counted (h[r := None]) (mset (dealloc ob) + ext)"
proof -
  have r: "r < length h" "h ! r = Some (ob, 1)" using assms(2) by (simp_all add: cell_of_Some)
  have "refcnt (h[r := None]) x = count (mset (dealloc ob) + ext) x + count (held (h[r := None])) x" for x
  proof -
    have "count (held (h[r := None])) x + count (mset (dealloc ob)) x = count (held h) x"
      using arg_cong[OF held_split[OF r(1), of None], of "\<lambda>M. count M x"] r(2) by simp
    moreover have "refcnt h x = count (add_mset r ext) x + count (held h) x" using assms(1) by (simp add: counted_def)
    moreover have "refcnt h r = 1" using assms(2) by (simp add: refcnt_def)
    moreover have "refcnt (h[r := None]) x = (if x = r then 0 else refcnt h x)"
      using r by (auto simp: refcnt_def cell_of_update)
    ultimately show ?thesis by (auto split: if_splits)
  qed
  moreover have "\<forall>c \<in> set (h[r := None]). case c of None \<Rightarrow> True | Some (ob, n) \<Rightarrow> 0 < n"
    using assms(1) by (auto simp: counted_def dest!: subsetD[OF set_update_subset_insert])
  ultimately show ?thesis by (simp add: counted_def)
qed

lemma counted_decrement:
  assumes "counted h (add_mset r ext)" and "cell_of h r = Some (ob, n)" and "n \<noteq> 1"
  shows "counted (h[r := Some (ob, n - 1)]) ext"
proof -
  have n: "0 < n" by (rule counted_live[OF assms(1,2)])
  then obtain m where m: "n = Suc m" by (cases n) auto
  show ?thesis using assms m by (intro counted_update[OF assms(1,2)]) (auto simp: ac_simps)
qed

lemma release_counted: "counted h (mset rs + ext) \<Longrightarrow> \<exists>h'. release rs h = Some h' \<and> counted h' ext"
proof (induction rs h arbitrary: ext rule: release.induct)
  case (2 r rs h)
  obtain ob n where c: "cell_of h r = Some (ob, n)" using counted_ext_live[OF 2(3), of r] by auto
  have e: "counted h (add_mset r (mset rs + ext))" using 2(3) by (simp add: ac_simps)
  show ?case
  proof (cases "n = 1")
    case True
    have "counted (h[r := None]) (mset (dealloc ob @ rs) + ext)" using counted_free[OF e] c True by (simp add: ac_simps)
    then show ?thesis using 2(1)[OF c _ True] c True by simp
  next
    case False
    then show ?thesis using 2(2)[OF c _ False] counted_decrement[OF e c False] c by simp
  qed
qed simp

section \<open>What the operations of the C API keep\<close>

lemma obj_at_Some: "obj_at h r = Some ob \<longleftrightarrow> (\<exists>n. cell_of h r = Some (ob, n))"
  by (auto simp: obj_at_def)

lemma counted_obj_at: "counted h ext \<Longrightarrow> r \<in># ext \<Longrightarrow> \<exists>ob. obj_at h r = Some ob"
  using counted_ext_live by (fastforce simp: obj_at_Some)

lemma held_append [simp]: "held (h @ [Some (ob, n)]) = held h + mset (dealloc ob)"
  by (simp add: held_def)

lemma counted_alloc:
  assumes "counted h (mset (dealloc ob) + ext)"
  shows "counted (snd (py_alloc ob h)) (add_mset (fst (py_alloc ob h)) ext)"
proof -
  let ?h = "h @ [Some (ob, 1)]"
  have cell: "cell_of ?h x = (if x = length h then Some (ob, 1) else cell_of h x)" for x
    by (auto simp: cell_of_def nth_append)
  have cnt: "refcnt h x = count (mset (dealloc ob) + ext) x + count (held h) x" for x
    using assms unfolding counted_def by blast
  have "refcnt h (length h) = 0" by (simp add: refcnt_def cell_of_def)
  then have "refcnt ?h x = count (add_mset (length h) ext) x + count (held ?h) x" for x
    using cnt[of x] cell[of x] by (auto simp: refcnt_def)
  moreover have "\<forall>c \<in> set ?h. case c of None \<Rightarrow> True | Some (ob, n) \<Rightarrow> 0 < n"
    using assms by (auto simp: counted_def)
  ultimately show ?thesis by (simp add: counted_def py_alloc_def)
qed

lemma obj_at_alloc: "obj_at (snd (py_alloc ob h)) = (obj_at h)(fst (py_alloc ob h) \<mapsto> ob)"
  by (rule ext) (auto simp: py_alloc_def obj_at_def cell_of_def nth_append)

lemma obj_at_fresh: "obj_at h (fst (py_alloc ob h)) = None"
  by (simp add: py_alloc_def obj_at_def cell_of_def)

lemma obj_at_update: "cell_of h r = Some c \<Longrightarrow> obj_at (h[r := Some (ob, n)]) = (obj_at h)(r \<mapsto> ob)"
  by (rule ext) (auto simp: obj_at_def cell_of_update cell_of_Some)

lemma incref_counted:
  assumes "counted h ext" and "obj_at h r = Some ob"
  shows "\<exists>h'. incref r h = Some h' \<and> counted h' (add_mset r ext) \<and> obj_at h' = obj_at h"
proof -
  obtain n where c: "cell_of h r = Some (ob, n)" using assms(2) by (auto simp: obj_at_Some)
  have "counted (h[r := Some (ob, Suc n)]) (add_mset r ext)"
    by (rule counted_update[OF assms(1) c]) simp_all
  moreover have "obj_at (h[r := Some (ob, Suc n)]) = obj_at h"
    using obj_at_update[OF c] assms(2) by (simp add: fun_upd_idem)
  ultimately show ?thesis using c by (simp add: incref_def)
qed

lemma put_obj_counted:
  assumes "counted h ext" and "obj_at h r = Some ob" and "ext' + mset (dealloc ob') = ext + mset (dealloc ob)"
  shows "\<exists>h'. put_obj r ob' h = Some h' \<and> counted h' ext' \<and> obj_at h' = (obj_at h)(r \<mapsto> ob')"
proof -
  obtain n where c: "cell_of h r = Some (ob, n)" using assms(2) by (auto simp: obj_at_Some)
  have "counted (h[r := Some (ob', n)]) ext'"
    using assms(3) by (intro counted_update[OF assms(1) c counted_live[OF assms(1) c]]) simp
  then show ?thesis using c obj_at_update[OF c] by (simp add: put_obj_def)
qed

lemma release_objs: "release rs h = Some h' \<Longrightarrow> obj_at h' x = Some ob \<Longrightarrow> obj_at h x = Some ob"
proof (induction rs h rule: release.induct)
  case (2 r rs h)
  obtain o1 n where c: "cell_of h r = Some (o1, n)" using 2(3) by (auto split: option.splits)
  show ?case
  proof (cases "n = 1")
    case True
    have "obj_at (h[r := None]) x = Some ob" using 2(1)[OF c _ True] 2(3,4) c True by simp
    then show ?thesis by (auto simp: obj_at_Some cell_of_update split: if_splits)
  next
    case False
    have "obj_at (h[r := Some (o1, n - 1)]) x = Some ob" using 2(2)[OF c _ False] 2(3,4) c False by simp
    then show ?thesis using obj_at_update[OF c] c by (auto simp: obj_at_Some split: if_splits)
  qed
qed simp

text \<open>Giving up counted references: no undefined behaviour, the count stays right, and everything
  still referred to from outside is untouched.\<close>

lemma release_safe:
  assumes "counted h (mset rs + ext)"
  shows "\<exists>h'. release rs h = Some h' \<and> counted h' ext \<and> (\<forall>x \<in># ext. obj_at h' x = obj_at h x)"
proof -
  obtain h' where h': "release rs h = Some h'" "counted h' ext" using release_counted[OF assms] by blast
  have "obj_at h' x = obj_at h x" if "x \<in># ext" for x
    using counted_obj_at[OF h'(2) that] release_objs[OF h'(1)] by fastforce
  with h' show ?thesis by blast
qed

text \<open>What an object holds is alive; giving up another reference to it frees nothing.\<close>

lemma held_member: "obj_at h r = Some ob \<Longrightarrow> mset (dealloc ob) \<subseteq># held h"
proof -
  assume "obj_at h r = Some ob"
  then obtain n where "r < length h" "h ! r = Some (ob, n)" by (auto simp: obj_at_Some cell_of_Some)
  then have "held h = held (h[r := None]) + mset (dealloc ob)" using held_split[of r h None] by simp
  then show ?thesis by simp
qed

lemma counted_held_live:
  assumes "counted h ext" and "obj_at h r = Some ob" and "x \<in> set (dealloc ob)"
  shows "\<exists>ob'. obj_at h x = Some ob'"
proof -
  have "x \<in># held h" using held_member[OF assms(2)] assms(3) by (metis mset_subset_eqD set_mset_mset)
  then have "0 < refcnt h x" using assms(1) by (simp add: counted_def)
  then show ?thesis by (auto simp: refcnt_def obj_at_def split: option.splits)
qed

lemma decref_held:
  assumes "counted h (add_mset x ext)" and "obj_at h r = Some ob" and "x \<in> set (dealloc ob)"
  shows "\<exists>h'. decref x h = Some h' \<and> counted h' ext \<and> obj_at h' = obj_at h"
proof -
  have "x \<in># held h" using held_member[OF assms(2)] assms(3) by (metis mset_subset_eqD set_mset_mset)
  moreover have "refcnt h x = Suc (count ext x) + count (held h) x" using assms(1) by (simp add: counted_def)
  ultimately have ge: "1 < refcnt h x" by (simp add: Suc_lessI)
  obtain xo n where c: "cell_of h x = Some (xo, n)" using counted_ext_live[OF assms(1), of x] by auto
  with ge have n: "n \<noteq> 1" by (simp add: refcnt_def)
  have "obj_at (h[x := Some (xo, n - 1)]) = obj_at h"
    using obj_at_update[OF c] c by (simp add: fun_upd_idem obj_at_def)
  then show ?thesis using counted_decrement[OF assms(1) c n] c n by simp
qed

lemma list_append_counted:
  assumes "counted h ext" and "obj_at h l = Some (PyList xs)" and "obj_at h x = Some ob"
  shows "\<exists>h'. PyList_Append l x h = Some h' \<and> counted h' ext \<and> obj_at h' = (obj_at h)(l \<mapsto> PyList (xs @ [x]))"
proof -
  obtain h1 where h1: "incref x h = Some h1" "counted h1 (add_mset x ext)" "obj_at h1 = obj_at h"
    using incref_counted[OF assms(1,3)] by blast
  obtain h2 where "put_obj l (PyList (xs @ [x])) h1 = Some h2" "counted h2 ext" "obj_at h2 = (obj_at h1)(l \<mapsto> PyList (xs @ [x]))"
    using put_obj_counted[OF h1(2), of l "PyList xs" ext "PyList (xs @ [x])"] assms(2) h1(3) by auto
  then show ?thesis using assms(2) h1 by (simp add: PyList_Append_def)
qed

lemma dict_set_new_counted:
  assumes "counted h ext" and "obj_at h d = Some (PyDict kvs)" and "obj_at h k = Some (PyStr s)" and "obj_at h v = Some ob"
    and "\<not> has_key h kvs s"
  shows "\<exists>h'. PyDict_SetItem d k v h = Some h' \<and> counted h' ext \<and> obj_at h' = (obj_at h)(d \<mapsto> PyDict (kvs @ [(k, v)]))"
proof -
  obtain h1 where h1: "incref v h = Some h1" "counted h1 (add_mset v ext)" "obj_at h1 = obj_at h"
    using incref_counted[OF assms(1,4)] by blast
  have k1: "obj_at h1 k = Some (PyStr s)" using assms(3) h1(3) by simp
  obtain h2 where h2: "incref k h1 = Some h2" "counted h2 (add_mset k (add_mset v ext))" "obj_at h2 = obj_at h"
    using incref_counted[OF h1(2) k1] h1(3) by auto
  obtain h3 where h3: "put_obj d (PyDict (kvs @ [(k, v)])) h2 = Some h3" "counted h3 ext" "obj_at h3 = (obj_at h)(d \<mapsto> PyDict (kvs @ [(k, v)]))"
    using put_obj_counted[OF h2(2), of d "PyDict kvs" ext "PyDict (kvs @ [(k, v)])"] assms(2) h2(3) by auto
  have "\<not> has_key h1 kvs s" using assms(5) h1(3) by (simp add: has_key_def)
  then show ?thesis using assms(2,3) h1 h2 h3 by (simp add: PyDict_SetItem_def dict_items_def)
qed

declare release.simps(2) [simp del]

end
