(* ===== verification/PyObjects.thy ===== *)
theory PyObjects
  imports CpsLib PyHeap DataLogger
begin

text \<open>
  Nodes, components, system topologies and loggers of the Python module
  (\<open>Source/Python/Node.cpp\<close>, \<open>Component.cpp\<close>, \<open>SystemTopology.cpp\<close>, \<open>Logger.cpp\<close>, \<open>LoadCim.cpp\<close>,
  \<open>Utils.cpp\<close> and their headers).

  A function that Python calls acts on the heap of Python objects and on the world \<open>'w\<close> of C++
  objects of the component library, whose functions are the record \<open>cps_py\<close>. It returns a value,
  raises a Python exception, or lets a C++ exception out (\<open>Uncaught\<close>, which ends the process);
  \<open>None\<close> is undefined behaviour. The arguments are those after \<open>PyArg_ParseTuple\<close>; references passed
  as arguments are borrowed from the caller.
\<close>

section \<open>Results and the component library\<close>

datatype py_exc = PyTypeError | PyAttributeError | PyValueError | PyRuntimeError | PyNotImplementedError

datatype 'a py_ret = Ret 'a | Raise py_exc string | Uncaught exn

definition quoted :: "string \<Rightarrow> string" where
  "quoted s = CHR 0x27 # s @ [CHR 0x27]"

text \<open>What the library throws, as far as the callers distinguish it.\<close>

datatype cps_error = InvalidAttr | TypeException | AccessException | OtherCps string

datatype cps_obj = CompObj nat | NodeObj nat

record 'w cps_py =
  comp_name :: "nat \<Rightarrow> 'w \<Rightarrow> string"
  cps_node_name :: "nat \<Rightarrow> 'w \<Rightarrow> string"
  new_node :: "bool \<Rightarrow> string \<Rightarrow> real \<times> real \<Rightarrow> 'w \<Rightarrow> nat \<times> 'w"
  ground :: "bool \<Rightarrow> nat"
  new_comp :: "string \<Rightarrow> string \<Rightarrow> 'w \<Rightarrow> nat \<times> 'w"
  comp_is_emt :: "nat \<Rightarrow> 'w \<Rightarrow> bool"
  comp_is_dp :: "nat \<Rightarrow> 'w \<Rightarrow> bool"
  type_is_dp :: "string \<Rightarrow> bool"
  cps_connect :: "nat \<Rightarrow> nat option list \<Rightarrow> 'w \<Rightarrow> cps_error option \<times> 'w"
  cps_attribute :: "cps_obj \<Rightarrow> string \<Rightarrow> 'w \<Rightarrow> attr option"
  attr_names :: "nat \<Rightarrow> 'w \<Rightarrow> string list"
  attr_shape :: "attr \<Rightarrow> attribute"
  toPyObject :: "attr \<Rightarrow> 'w \<Rightarrow> cps_error + py_obj"
  fromPyObject :: "attr \<Rightarrow> py_obj \<Rightarrow> 'w \<Rightarrow> cps_error option \<times> 'w"
  new_topology :: "real \<Rightarrow> nat list \<Rightarrow> nat list \<Rightarrow> 'w \<Rightarrow> nat \<times> 'w"
  topo_addComponent :: "nat \<Rightarrow> nat \<Rightarrow> 'w \<Rightarrow> 'w"
  topo_addNode :: "nat \<Rightarrow> nat \<Rightarrow> 'w \<Rightarrow> 'w"
  topo_components :: "nat \<Rightarrow> 'w \<Rightarrow> nat list"
  topo_nodes :: "nat \<Rightarrow> 'w \<Rightarrow> nat list"
  node_cast :: "nat \<Rightarrow> 'w \<Rightarrow> bool option"
  loadCIM :: "string \<Rightarrow> int \<Rightarrow> real \<Rightarrow> string list \<Rightarrow> 'w \<Rightarrow> nat option \<times> 'w"

section \<open>Nodes\<close>

text \<open>Lists of nodes from Python. \<open>nodesFromPython\<close> accepts both kinds, \<open>fromPython\<close> one.
  \<open>Inl\<close> is the message of the thrown \<open>std::invalid_argument\<close>.\<close>

primrec nodes_of :: "(bool \<Rightarrow> bool) \<Rightarrow> py_heap \<Rightarrow> pyref list \<Rightarrow> (string + nat option list) option" where
  "nodes_of kind h [] = Some (Inr [])"
| "nodes_of kind h (r # rs) = do {
     ob \<leftarrow> obj_at h r;
     case ob of
       PyNode b n \<Rightarrow>
         if kind b then map_option (map_sum id (\<lambda>ns. n # ns)) (nodes_of kind h rs)
         else Some (Inl ''list element is not a dpsim.Node'')
     | _ \<Rightarrow> Some (Inl ''list element is not a dpsim.Node'') }"

definition nodesFromPython :: "py_heap \<Rightarrow> pyref \<Rightarrow> (string + nat option list) option" where
  "nodesFromPython h l = do {
     ob \<leftarrow> obj_at h l;
     case ob of PyList rs \<Rightarrow> nodes_of (\<lambda>b. True) h rs | _ \<Rightarrow> Some (Inl ''argument is not a list'') }"

definition fromPython :: "bool \<Rightarrow> py_heap \<Rightarrow> pyref \<Rightarrow> (string + nat option list) option" where
  "fromPython var_type h l = do {
     ob \<leftarrow> obj_at h l;
     case ob of PyList rs \<Rightarrow> nodes_of (\<lambda>b. b = var_type) h rs | _ \<Rightarrow> Some (Inl ''argument is not a list'') }"

definition Node_newfunc :: "bool \<Rightarrow> py_heap \<Rightarrow> pyref \<times> py_heap" where
  "Node_newfunc var_type h = py_alloc (PyNode var_type None) h"

text \<open>\<open>init\<close>: the initial voltage is zero if it is not given.\<close>

definition Node_init :: "'w cps_py \<Rightarrow> pyref \<Rightarrow> string \<Rightarrow> (real \<times> real) option \<Rightarrow> py_heap \<times> 'w \<Rightarrow> (py_heap \<times> 'w) option" where
  "Node_init cps self uid voltage hw = (case obj_at (fst hw) self of
      Some (PyNode b _) \<Rightarrow> do {
        let (n, w) = new_node cps b uid (case voltage of None \<Rightarrow> (0, 0) | Some v \<Rightarrow> v) (snd hw);
        h \<leftarrow> put_obj self (PyNode b (Some n)) (fst hw);
        Some (h, w) }
    | _ \<Rightarrow> None)"

text \<open>\<open>gnd\<close>: the static variable \<open>Py_GND\<close> keeps the reference of its creation.\<close>

definition Node_gnd :: "'w cps_py \<Rightarrow> bool \<Rightarrow> pyref option \<times> py_heap \<Rightarrow> (pyref \<times> pyref option \<times> py_heap) option" where
  "Node_gnd cps var_type gh = do {
     let (g, h) = (case fst gh of Some g \<Rightarrow> (g, snd gh) | None \<Rightarrow> py_alloc (PyNode var_type (Some (ground cps var_type))) (snd gh));
     h \<leftarrow> incref g h;
     Some (g, Some g, h) }"

section \<open>Components\<close>

definition Component_newfunc :: "py_heap \<Rightarrow> pyref \<times> py_heap" where
  "Component_newfunc h = py_alloc (PyComponent None []) h"

definition Component_str :: "'w cps_py \<Rightarrow> pyref \<Rightarrow> py_heap \<times> 'w \<Rightarrow> (pyref \<times> py_heap) option" where
  "Component_str cps self hw = (case obj_at (fst hw) self of
      Some (PyComponent None refs) \<Rightarrow> Some (py_alloc (PyStr ''<unitialized Component>'') (fst hw))
    | Some (PyComponent (Some c) refs) \<Rightarrow> Some (py_alloc (PyStr (comp_name cps c (snd hw))) (fst hw))
    | _ \<Rightarrow> None)"

text \<open>\<open>generic\<close> is the result of \<open>PyObject_GenericGetAttr\<close>, which finds the methods.\<close>

definition Component_getattro ::
    "'w cps_py \<Rightarrow> pyref py_ret \<Rightarrow> pyref \<Rightarrow> string \<Rightarrow> py_heap \<times> 'w \<Rightarrow> (pyref py_ret \<times> py_heap) option" where
  "Component_getattro cps generic self name hw = (let (h, w) = hw in
     case generic of
       Ret r \<Rightarrow> Some (Ret r, h)
     | Uncaught e \<Rightarrow> Some (Uncaught e, h)
     | Raise exc msg \<Rightarrow>
         if exc \<noteq> PyAttributeError then Some (Raise exc msg, h)
         else case obj_at h self of
           Some (PyComponent None refs) \<Rightarrow> Some (Raise PyValueError ''getattr on unitialized Component'', h)
         | Some (PyComponent (Some c) refs) \<Rightarrow>
             (case cps_attribute cps (CompObj c) name w of
                None \<Rightarrow> Some (Raise PyAttributeError (''Component has no attribute '' @ quoted name), h)
              | Some a \<Rightarrow>
                  (case toPyObject cps a w of
                     Inr ob \<Rightarrow> Some (let (r, h) = py_alloc ob h in (Ret r, h))
                   | Inl InvalidAttr \<Rightarrow> Some (Raise PyAttributeError (''Component has no attribute '' @ quoted name), h)
                   | Inl _ \<Rightarrow> Some (Raise PyRuntimeError ''Unkown Error Occured'', h)))
         | _ \<Rightarrow> None)"

fun setattr_error :: "string \<Rightarrow> cps_error \<Rightarrow> unit py_ret" where
  "setattr_error name InvalidAttr = Raise PyAttributeError (''Component has no attribute '' @ quoted name)"
| "setattr_error name TypeException = Raise PyTypeError (''Invalid type for attribute '' @ quoted name)"
| "setattr_error name AccessException = Raise PyAttributeError (''Attribute '' @ quoted name @ '' is not modifiable'')"
| "setattr_error name (OtherCps msg) = Raise PyRuntimeError ''Unkown Error Occured''"

text \<open>Looking an attribute up and writing it, as \<open>setattro\<close> and \<open>setAttributes\<close> do.\<close>

definition write_attr :: "'w cps_py \<Rightarrow> cps_obj \<Rightarrow> string \<Rightarrow> py_obj \<Rightarrow> 'w \<Rightarrow> cps_error option \<times> 'w" where
  "write_attr cps ob name v w = (case cps_attribute cps ob name w of
      None \<Rightarrow> (Some InvalidAttr, w)
    | Some a \<Rightarrow> fromPyObject cps a v w)"

definition Component_setattro ::
    "'w cps_py \<Rightarrow> pyref \<Rightarrow> string \<Rightarrow> pyref \<Rightarrow> py_heap \<times> 'w \<Rightarrow> (unit py_ret \<times> 'w) option" where
  "Component_setattro cps self name v hw = (let (h, w) = hw in
     case obj_at h self of
       Some (PyComponent None refs) \<Rightarrow> Some (Raise PyValueError ''setattr on unitialized Component'', w)
     | Some (PyComponent (Some c) refs) \<Rightarrow> do {
         val \<leftarrow> obj_at h v;
         case write_attr cps (CompObj c) name val w of
           (None, w) \<Rightarrow> Some (Ret (), w)
         | (Some e, w) \<Rightarrow> Some (setattr_error name e, w) }
     | _ \<Rightarrow> None)"

primrec comps_of :: "py_heap \<Rightarrow> pyref list \<Rightarrow> (string + nat option list) option" where
  "comps_of h [] = Some (Inr [])"
| "comps_of h (r # rs) = do {
     ob \<leftarrow> obj_at h r;
     case ob of
       PyComponent c refs \<Rightarrow> map_option (map_sum id (\<lambda>cs. c # cs)) (comps_of h rs)
     | _ \<Rightarrow> Some (Inl ''list element is not a dpsim.Component'') }"

definition compsFromPython :: "py_heap \<Rightarrow> pyref \<Rightarrow> (string + nat option list) option" where
  "compsFromPython h l = do {
     ob \<leftarrow> obj_at h l;
     case ob of PyList rs \<Rightarrow> comps_of h rs | _ \<Rightarrow> Some (Inl ''argument must be a list'') }"

text \<open>\<open>connect\<close> looks at the dynamic type of the component; a null pointer is of neither type. Every
  exception becomes the same error.\<close>

definition Component_connect :: "'w cps_py \<Rightarrow> pyref \<Rightarrow> pyref \<Rightarrow> py_heap \<times> 'w \<Rightarrow> (unit py_ret \<times> 'w) option" where
  "Component_connect cps self pyNodes hw = (let (h, w) = hw; fail = Raise PyTypeError ''Failed to connect nodes'' in
     case obj_at h self of
       Some (PyComponent None refs) \<Rightarrow> Some (fail, w)
     | Some (PyComponent (Some c) refs) \<Rightarrow>
         if \<not> comp_is_emt cps c w \<and> \<not> comp_is_dp cps c w then Some (fail, w)
         else do {
           nodes \<leftarrow> fromPython (\<not> comp_is_emt cps c w) h pyNodes;
           case nodes of
             Inl msg \<Rightarrow> Some (fail, w)
           | Inr ns \<Rightarrow> (case cps_connect cps c ns w of (None, w) \<Rightarrow> Some (Ret (), w) | (Some e, w) \<Rightarrow> Some (fail, w)) }
     | _ \<Rightarrow> None)"

text \<open>\<open>dir\<close>: \<open>PyList_Append\<close> takes a reference of its own; the one of \<open>PyUnicode_FromString\<close> is never
  given up.\<close>

primrec append_names :: "pyref \<Rightarrow> string list \<Rightarrow> py_heap \<Rightarrow> py_heap option" where
  "append_names l [] h = Some h"
| "append_names l (n # ns) h = do {
     let (r, h) = py_alloc (PyStr n) h;
     h \<leftarrow> PyList_Append l r h;
     append_names l ns h }"

definition Component_dir :: "'w cps_py \<Rightarrow> pyref \<Rightarrow> py_heap \<times> 'w \<Rightarrow> (pyref \<times> py_heap) option" where
  "Component_dir cps self hw = (let (h, w) = hw in
     case obj_at h self of
       Some (PyComponent (Some c) refs) \<Rightarrow> do {
         let (l, h) = py_alloc (PyList []) h;
         h \<leftarrow> append_names l (attr_names cps c w) h;
         Some (l, h) }
     | _ \<Rightarrow> None)"

text \<open>\<open>setAttributes\<close>: the keyword arguments in their order; the first failure ends the loop with
  the earlier attributes written.\<close>

primrec setAttributes :: "'w cps_py \<Rightarrow> nat \<Rightarrow> py_heap \<Rightarrow> (pyref \<times> pyref) list \<Rightarrow> 'w \<Rightarrow> (cps_error option \<times> 'w) option" where
  "setAttributes cps c h [] w = Some (None, w)"
| "setAttributes cps c h (kv # kvs) w = do {
     name \<leftarrow> str_of h (fst kv);
     val \<leftarrow> obj_at h (snd kv);
     case write_attr cps (CompObj c) name val w of
       (None, w) \<Rightarrow> setAttributes cps c h kvs w
     | (Some e, w) \<Rightarrow> Some (Some e, w) }"

fun create_error :: "cps_error \<Rightarrow> 'a py_ret" where
  "create_error AccessException = Raise PyValueError ''Attribute access is prohibited''"
| "create_error TypeException = Raise PyValueError ''Invalid attribute type''"
| "create_error InvalidAttr = Raise PyValueError ''Invalid attribute''"
| "create_error (OtherCps msg) = Raise PyValueError msg"

text \<open>\<open>createInstance<T>\<close>: the handlers are for the exceptions of the library; the
  \<open>std::invalid_argument\<close> of \<open>fromPython\<close> is none of them.\<close>

definition createInstance ::
    "'w cps_py \<Rightarrow> string \<Rightarrow> string \<Rightarrow> pyref option \<Rightarrow> pyref option \<Rightarrow> py_heap \<times> 'w \<Rightarrow> (pyref py_ret \<times> py_heap \<times> 'w) option" where
  "createInstance cps ty name pyNodes kwargs hw = do {
     let (r, h) = py_alloc (PyComponent None []) (fst hw);
     let (c, w) = new_comp cps ty name (snd hw);
     (err, w) \<leftarrow> (case kwargs of None \<Rightarrow> Some (None, w) | Some d \<Rightarrow> do { kvs \<leftarrow> dict_items h d; setAttributes cps c h kvs w });
     case err of
       Some e \<Rightarrow> Some (create_error e, h, w)
     | None \<Rightarrow>
         (case pyNodes of
            None \<Rightarrow> do { h \<leftarrow> put_obj r (PyComponent (Some c) []) h; Some (Ret r, h, w) }
          | Some l \<Rightarrow> do {
              nodes \<leftarrow> fromPython (type_is_dp cps ty) h l;
              case nodes of
                Inl msg \<Rightarrow> Some (Uncaught (InvalidArgument msg), h, w)
              | Inr ns \<Rightarrow>
                  (case cps_connect cps c ns w of
                     (Some e, w) \<Rightarrow> Some (create_error e, h, w)
                   | (None, w) \<Rightarrow> do { h \<leftarrow> put_obj r (PyComponent (Some c) []) h; Some (Ret r, h, w) }) }) }"

section \<open>System topologies\<close>

definition SystemTopology_newfunc :: "py_heap \<Rightarrow> pyref \<times> py_heap" where
  "SystemTopology_newfunc h =
     (let (cd, h) = py_alloc (PyDict []) h; (nd, h) = py_alloc (PyDict []) h
      in py_alloc (PySystemTopology None cd nd) h)"

text \<open>Both methods end with \<open>Py_DECREF(pyObj)\<close> on the borrowed argument; an object whose name is
  taken leaves with the reference to the new string.\<close>

definition add_named :: "string \<Rightarrow> string \<Rightarrow> pyref \<Rightarrow> pyref \<Rightarrow> ('w \<Rightarrow> 'w option) \<Rightarrow> py_heap \<times> 'w \<Rightarrow> (unit py_ret \<times> py_heap \<times> 'w) option" where
  "add_named taken name d pyObj add hw = do {
     let (pyName, h) = py_alloc (PyStr name) (fst hw);
     dup \<leftarrow> PyDict_Contains d pyName h;
     if dup then Some (Raise PyTypeError taken, h, snd hw)
     else do {
       w \<leftarrow> add (snd hw);
       h \<leftarrow> PyDict_SetItem d pyName pyObj h;
       h \<leftarrow> decref pyName h;
       h \<leftarrow> decref pyObj h;
       Some (Ret (), h, w) } }"

definition SystemTopology_addComponent :: "'w cps_py \<Rightarrow> pyref \<Rightarrow> pyref \<Rightarrow> py_heap \<times> 'w \<Rightarrow> (unit py_ret \<times> py_heap \<times> 'w) option" where
  "SystemTopology_addComponent cps self pyObj hw = do {
     ob \<leftarrow> obj_at (fst hw) pyObj;
     me \<leftarrow> obj_at (fst hw) self;
     case (ob, me) of
       (PyComponent (Some c) refs, PySystemTopology sys cd nd) \<Rightarrow>
         add_named ''SystemTopology already contains a component with this name'' (comp_name cps c (snd hw)) cd pyObj
           (\<lambda>w. map_option (\<lambda>sys. topo_addComponent cps sys c w) sys) hw
     | (PyComponent _ refs, _) \<Rightarrow> None
     | _ \<Rightarrow> Some (Raise PyTypeError ''Argument must be dpsim.Component'', hw) }"

definition SystemTopology_addNode :: "'w cps_py \<Rightarrow> pyref \<Rightarrow> pyref \<Rightarrow> py_heap \<times> 'w \<Rightarrow> (unit py_ret \<times> py_heap \<times> 'w) option" where
  "SystemTopology_addNode cps self pyObj hw = do {
     ob \<leftarrow> obj_at (fst hw) pyObj;
     me \<leftarrow> obj_at (fst hw) self;
     case (ob, me) of
       (PyNode b (Some n), PySystemTopology sys cd nd) \<Rightarrow>
         add_named ''SystemTopology already contains a node with this name'' (cps_node_name cps n (snd hw)) nd pyObj
           (\<lambda>w. map_option (\<lambda>sys. topo_addNode cps sys n w) sys) hw
     | (PyNode b _, _) \<Rightarrow> None
     | _ \<Rightarrow> Some (Raise PyTypeError ''Argument must be dpsim.Node'', hw) }"

text \<open>The loops of \<open>init\<close> that fill the dictionaries; \<open>name_of\<close> is the name of a list element
  (\<open>None\<close>: a null pointer, \<open>Some None\<close>: not of the type). The names keep the reference of their
  creation.\<close>

primrec fill_dict ::
    "(py_obj \<Rightarrow> string option option) \<Rightarrow> string \<Rightarrow> string \<Rightarrow> pyref \<Rightarrow> pyref list \<Rightarrow> py_heap \<Rightarrow> (unit py_ret \<times> py_heap) option" where
  "fill_dict name_of wrong taken d [] h = Some (Ret (), h)"
| "fill_dict name_of wrong taken d (r # rs) h = do {
     ob \<leftarrow> obj_at h r;
     nm \<leftarrow> name_of ob;
     case nm of
       None \<Rightarrow> Some (Raise PyAttributeError wrong, h)
     | Some name \<Rightarrow> do {
         let (pyName, h) = py_alloc (PyStr name) h;
         dup \<leftarrow> PyDict_Contains d pyName h;
         if dup then Some (Raise PyAttributeError taken, h)
         else do {
           h \<leftarrow> PyDict_SetItem d pyName r h;
           fill_dict name_of wrong taken d rs h } } }"

fun node_name_of :: "'w cps_py \<Rightarrow> 'w \<Rightarrow> py_obj \<Rightarrow> string option option" where
  "node_name_of cps w (PyNode b n) = map_option (\<lambda>n. Some (cps_node_name cps n w)) n"
| "node_name_of cps w _ = Some None"

fun comp_name_of :: "'w cps_py \<Rightarrow> 'w \<Rightarrow> py_obj \<Rightarrow> string option option" where
  "comp_name_of cps w (PyComponent c refs) = map_option (\<lambda>c. Some (comp_name cps c w)) c"
| "comp_name_of cps w _ = Some None"

definition list_items :: "py_heap \<Rightarrow> pyref \<Rightarrow> pyref list option" where
  "list_items h l = (case obj_at h l of Some (PyList rs) \<Rightarrow> Some rs | _ \<Rightarrow> None)"

text \<open>One of the two optional lists: read the C++ objects, then fill the dictionary.\<close>

definition init_list ::
    "(py_heap \<Rightarrow> pyref \<Rightarrow> (string + nat option list) option) \<Rightarrow> (py_obj \<Rightarrow> string option option) \<Rightarrow> string \<Rightarrow> string \<Rightarrow>
     pyref \<Rightarrow> pyref option \<Rightarrow> py_heap \<Rightarrow> (nat option list py_ret \<times> py_heap) option" where
  "init_list get name_of wrong taken d l h = (case l of
      None \<Rightarrow> Some (Ret [], h)
    | Some l \<Rightarrow> do {
        got \<leftarrow> get h l;
        case got of
          Inl msg \<Rightarrow> Some (Raise PyAttributeError wrong, h)
        | Inr cs \<Rightarrow> do {
            rs \<leftarrow> list_items h l;
            (res, h) \<leftarrow> fill_dict name_of wrong taken d rs h;
            Some (case res of Ret _ \<Rightarrow> Ret cs | Raise exc msg \<Rightarrow> Raise exc msg | Uncaught e \<Rightarrow> Uncaught e, h) } })"

definition SystemTopology_init ::
    "'w cps_py \<Rightarrow> pyref \<Rightarrow> real \<Rightarrow> pyref option \<Rightarrow> pyref option \<Rightarrow> py_heap \<times> 'w \<Rightarrow> (unit py_ret \<times> py_heap \<times> 'w) option" where
  "SystemTopology_init cps self frequency pyNodeList pyCompList hw = (let (h, w) = hw in
     case obj_at h self of
       Some (PySystemTopology sys cd nd) \<Rightarrow> do {
         (nodes, h) \<leftarrow> init_list nodesFromPython (node_name_of cps w) (''Parameter '' @ quoted ''nodes'' @ '' must be a list of dpsim.Node'')
            ''Duplicated Node name'' nd pyNodeList h;
         case nodes of
           Ret ns \<Rightarrow> do {
             (comps, h) \<leftarrow> init_list compsFromPython (comp_name_of cps w) (''Parameter '' @ quoted ''components'' @ '' must be a list of dpsim.Component'')
                ''Duplicated Component name'' cd pyCompList h;
             case comps of
               Ret cs \<Rightarrow> do {
                 let (sys, w) = new_topology cps frequency (map the ns) (map the cs) w;
                 h \<leftarrow> put_obj self (PySystemTopology (Some sys) cd nd) h;
                 Some (Ret (), h, w) }
             | Raise exc msg \<Rightarrow> Some (Raise exc msg, h, w)
             | Uncaught e \<Rightarrow> Some (Uncaught e, h, w) }
         | Raise exc msg \<Rightarrow> Some (Raise exc msg, h, w)
         | Uncaught e \<Rightarrow> Some (Uncaught e, h, w) }
     | _ \<Rightarrow> None)"

section \<open>Loading CIM files\<close>

text \<open>\<open>PyUnicode_FSConverter\<close> accepts text, which it converts into a new bytes object, and bytes, to
  which it takes another reference. In the loop over a list the result is given up at once.\<close>

fun fs_text :: "py_obj \<Rightarrow> string option" where
  "fs_text (PyStr s) = Some s"
| "fs_text (PyBytes s) = Some s"
| "fs_text _ = None"

primrec cim_files :: "py_heap \<Rightarrow> pyref list \<Rightarrow> string list option option" where
  "cim_files h [] = Some (Some [])"
| "cim_files h (r # rs) = do {
     ob \<leftarrow> obj_at h r;
     case fs_text ob of None \<Rightarrow> Some None | Some f \<Rightarrow> map_option (map_option (\<lambda>fs. f # fs)) (cim_files h rs) }"

text \<open>Wrapping the loaded objects. The name and the wrapper keep the references of their creation
  beside those of the dictionary.\<close>

primrec wrap_all :: "(nat \<Rightarrow> string) \<Rightarrow> (nat \<Rightarrow> py_obj option) \<Rightarrow> string \<Rightarrow> pyref \<Rightarrow> nat list \<Rightarrow> py_heap \<Rightarrow> (unit py_ret option \<times> py_heap) option" where
  "wrap_all name_of wrap taken d [] h = Some (Some (Ret ()), h)"
| "wrap_all name_of wrap taken d (c # cs) h = do {
     let (pyName, h) = py_alloc (PyStr (name_of c)) h;
     dup \<leftarrow> PyDict_Contains d pyName h;
     if dup then Some (Some (Raise PyAttributeError taken), h)
     else case wrap c of
       None \<Rightarrow> Some (None, h)
     | Some ob \<Rightarrow> do {
         let (r, h) = py_alloc ob h;
         h \<leftarrow> PyDict_SetItem d pyName r h;
         wrap_all name_of wrap taken d cs h } }"

text \<open>Reading the argument. A single name is accepted as a bytes object only.\<close>

definition cim_names :: "py_heap \<Rightarrow> pyref \<Rightarrow> string list option option" where
  "cim_names h filenames = do {
     ob \<leftarrow> obj_at h filenames;
     case ob of
       PyList rs \<Rightarrow> cim_files h rs
     | PyBytes f \<Rightarrow> Some (Some [f])
     | _ \<Rightarrow> Some None }"

text \<open>Filling the dictionaries of the new topology. A result \<open>Some None\<close> of \<open>wrap_all\<close> (a node of
  neither kind) is a return of a null pointer without an exception set, which the interpreter reports
  as \<open>SystemError\<close>.\<close>

definition cim_wrap :: "'w cps_py \<Rightarrow> 'w \<Rightarrow> nat \<Rightarrow> pyref \<Rightarrow> pyref \<Rightarrow> pyref \<Rightarrow> py_heap \<Rightarrow> (pyref py_ret option \<times> py_heap) option" where
  "cim_wrap cps w sys pySys cd nd h = do {
     (r1, h) \<leftarrow> wrap_all (\<lambda>c. comp_name cps c w) (\<lambda>c. Some (PyComponent (Some c) [])) ''Duplicated Component name'' cd (topo_components cps sys w) h;
     case r1 of
       Some (Ret _) \<Rightarrow> do {
         (r2, h) \<leftarrow> wrap_all (\<lambda>n. cps_node_name cps n w) (\<lambda>n. map_option (\<lambda>b. PyNode b (Some n)) (node_cast cps n w))
            ''Duplicated Node name'' nd (topo_nodes cps sys w) h;
         case r2 of
           Some (Ret _) \<Rightarrow> do { h \<leftarrow> incref pySys h; Some (Some (Ret pySys), h) }
         | Some (Raise exc msg) \<Rightarrow> Some (Some (Raise exc msg), h)
         | _ \<Rightarrow> Some (None, h) }
     | Some (Raise exc msg) \<Rightarrow> Some (Some (Raise exc msg), h)
     | _ \<Rightarrow> Some (None, h) }"

text \<open>After the files are read, the borrowed argument \<open>filenames\<close> is given up. The
  reference to the converted name of a single file, which is the argument itself, is kept.\<close>

definition LoadCim :: "'w cps_py \<Rightarrow> string \<Rightarrow> pyref \<Rightarrow> real \<Rightarrow> int \<Rightarrow> py_heap \<times> 'w \<Rightarrow> (pyref py_ret option \<times> py_heap \<times> 'w) option" where
  "LoadCim cps name filenames frequency logLevel hw = (let (h, w) = hw;
       bad = (\<lambda>h. Some (Some (Raise PyTypeError ''First argument must be filename or list of filenames''), h, w)) in do {
     names \<leftarrow> cim_names h filenames;
     case names of
       None \<Rightarrow> bad h
     | Some files \<Rightarrow> do {
         h \<leftarrow> (case obj_at h filenames of Some (PyBytes f) \<Rightarrow> incref filenames h | _ \<Rightarrow> Some h);
         h \<leftarrow> decref filenames h;
         if files = [] then bad h
         else do {
           let (cd, h) = py_alloc (PyDict []) h;
           let (nd, h) = py_alloc (PyDict []) h;
           let (pySys, h) = py_alloc (PySystemTopology None cd nd) h;
           case loadCIM cps name logLevel frequency files w of
             (None, w) \<Rightarrow> Some (Some (Raise PyTypeError ''The topology of the CIM model is invalid''), h, w)
           | (Some sys, w) \<Rightarrow> do {
               h \<leftarrow> put_obj pySys (PySystemTopology (Some sys) cd nd) h;
               (res, h) \<leftarrow> cim_wrap cps w sys pySys cd nd h;
               Some (res, h, w) } } } })"

section \<open>Loggers\<close>

definition Logger_newfunc :: "py_heap \<Rightarrow> pyref \<times> py_heap" where
  "Logger_newfunc h = py_alloc (PyLogger None [] []) h"

text \<open>The C++ loggers are kept beside the heap, by number.\<close>

definition Logger_init :: "pyref \<Rightarrow> string \<Rightarrow> bool \<Rightarrow> py_heap \<times> logger list \<Rightarrow> (py_heap \<times> logger list) option" where
  "Logger_init self file opened hl = (case obj_at (fst hl) self of
      Some (PyLogger l f refs) \<Rightarrow> do {
        h \<leftarrow> put_obj self (PyLogger (Some (length (snd hl))) file refs) (fst hl);
        Some (h, snd hl @ [DataLogger_new opened True]) }
    | _ \<Rightarrow> None)"

text \<open>The C++ object behind a component or node; \<open>Some None\<close> is any other Python object.\<close>

fun identified :: "py_obj \<Rightarrow> cps_obj option option" where
  "identified (PyComponent c refs) = map_option (Some \<circ> CompObj) c"
| "identified (PyNode b n) = map_option (Some \<circ> NodeObj) n"
| "identified _ = Some None"

fun obj_name :: "'w cps_py \<Rightarrow> cps_obj \<Rightarrow> 'w \<Rightarrow> string" where
  "obj_name cps (CompObj c) w = comp_name cps c w"
| "obj_name cps (NodeObj n) w = cps_node_name cps n w"

definition Logger_logAttribute ::
    "'w cps_py \<Rightarrow> 'w \<Rightarrow> pyref \<Rightarrow> pyref \<Rightarrow> string \<Rightarrow> py_heap \<times> logger list \<Rightarrow> (unit py_ret \<times> py_heap \<times> logger list) option" where
  "Logger_logAttribute cps w self pyObj attrName hl = (let (h, ls) = hl in do {
     ob \<leftarrow> obj_at h pyObj;
     target \<leftarrow> identified ob;
     case target of
       None \<Rightarrow> Some (Raise PyTypeError ''First argument must be a Component or a Node'', h, ls)
     | Some tgt \<Rightarrow>
         (case obj_at h self of
            Some (PyLogger (Some l) file refs) \<Rightarrow>
              let name = obj_name cps tgt w @ ''.'' @ attrName;
                  fail = Raise PyTypeError ''Second argument must be a readable attribute''
              in (case cps_attribute cps tgt attrName w of
                    None \<Rightarrow> Some (fail, h, ls)
                  | Some a \<Rightarrow>
                      (case addAttribute name (attr_shape cps a) (ls ! l) of
                         Throw e lg \<Rightarrow> Some (fail, h, ls[l := lg])
                       | Ok lg \<Rightarrow> do {
                           h \<leftarrow> put_obj self (PyLogger (Some l) file (refs @ [pyObj])) h;
                           h \<leftarrow> incref pyObj h;
                           Some (Ret (), h, ls[l := lg]) }))
          | _ \<Rightarrow> None) })"

section \<open>Names in the dictionaries\<close>

lemma has_key_mono:
  assumes "\<And>k v. (k, v) \<in> set kvs \<Longrightarrow> str_of h' k = str_of h k"
  shows "has_key h' kvs s = has_key h kvs s"
  unfolding has_key_def list_ex_iff using assms by (intro bex_cong) (auto simp del: str_of.simps)

lemma keys_live:
  assumes "counted h ext" and "obj_at h d = Some (PyDict kvs)" and "(k, v) \<in> set kvs"
  shows "\<exists>ob. obj_at h k = Some ob" and "\<exists>ob. obj_at h v = Some ob"
  using counted_held_live[OF assms(1,2)] assms(3) by force+

text \<open>A new string object: everything else is as before.\<close>

lemma alloc_str:
  assumes "counted h ext"
  obtains r h' where "py_alloc (PyStr s) h = (r, h')" and "counted h' (add_mset r ext)" and "obj_at h r = None"
    and "obj_at h' = (obj_at h)(r \<mapsto> PyStr s)"
  using that[of "fst (py_alloc (PyStr s) h)" "snd (py_alloc (PyStr s) h)"]
    counted_alloc[of h "PyStr s" ext] obj_at_alloc obj_at_fresh assms by simp

lemma has_key_alloc:
  assumes "counted h ext" and "obj_at h d = Some (PyDict kvs)" and "obj_at h r = None" and "obj_at h' = (obj_at h)(r \<mapsto> PyStr s)"
  shows "has_key h' kvs t = has_key h kvs t"
proof (rule has_key_mono)
  fix k v assume "(k, v) \<in> set kvs"
  then have "k \<noteq> r" using keys_live(1)[OF assms(1,2)] assms(3) by fastforce
  then show "str_of h' k = str_of h k" using assms(4) by simp
qed

lemma add_named_taken:
  assumes "counted h ext" and "obj_at h d = Some (PyDict kvs)" and "has_key h kvs name"
  shows "\<exists>h' r. add_named taken name d x add (h, w) = Some (Raise PyTypeError taken, h', w)
     \<and> obj_at h r = None \<and> counted h' (add_mset r ext) \<and> obj_at h' = (obj_at h)(r \<mapsto> PyStr name)"
proof -
  obtain r h1 where h1: "py_alloc (PyStr name) h = (r, h1)" "counted h1 (add_mset r ext)" "obj_at h r = None"
    "obj_at h1 = (obj_at h)(r \<mapsto> PyStr name)" using alloc_str[OF assms(1)] by blast
  have "d \<noteq> r" using assms(2) h1(3) by auto
  moreover have "has_key h1 kvs name" using has_key_alloc[OF assms(1,2) h1(3,4)] assms(3) by simp
  ultimately have "PyDict_Contains d r h1 = Some True" using assms(2) h1(4) by (simp add: PyDict_Contains_def dict_items_def)
  then show ?thesis using h1 by (auto simp: add_named_def)
qed

lemma add_named_new:
  assumes "counted h ext" and "obj_at h d = Some (PyDict kvs)" and "\<not> has_key h kvs name"
    and "x \<in># ext" and "add w = Some w'"
  shows "\<exists>h' r. add_named taken name d x add (h, w) = Some (Ret (), h', w') \<and> counted h' (ext - {#x#})
     \<and> obj_at h r = None \<and> obj_at h' = (obj_at h)(r \<mapsto> PyStr name, d \<mapsto> PyDict (kvs @ [(r, x)]))"
proof -
  obtain r h1 where h1: "py_alloc (PyStr name) h = (r, h1)" "counted h1 (add_mset r ext)" "obj_at h r = None"
    "obj_at h1 = (obj_at h)(r \<mapsto> PyStr name)" using alloc_str[OF assms(1)] by blast
  have d: "d \<noteq> r" using assms(2) h1(3) by auto
  obtain xo where xo: "obj_at h x = Some xo" using counted_obj_at[OF assms(1,4)] by blast
  then have x: "x \<noteq> r" using h1(3) by auto
  have nk: "\<not> has_key h1 kvs name" using has_key_alloc[OF assms(1,2) h1(3,4)] assms(3) by simp
  then have c: "PyDict_Contains d r h1 = Some False" using assms(2) h1(4) d by (simp add: PyDict_Contains_def dict_items_def)
  obtain h2 where h2: "PyDict_SetItem d r x h1 = Some h2" "counted h2 (add_mset r ext)" "obj_at h2 = (obj_at h1)(d \<mapsto> PyDict (kvs @ [(r, x)]))"
    using dict_set_new_counted[OF h1(2), of d kvs r name x xo] assms(2) h1(4) d x nk xo by auto
  have d2: "obj_at h2 d = Some (PyDict (kvs @ [(r, x)]))" using h2(3) by simp
  obtain h3 where h3: "decref r h2 = Some h3" "counted h3 ext" "obj_at h3 = obj_at h2"
    using decref_held[OF h2(2) d2] by auto
  have "counted h3 (add_mset x (ext - {#x#}))" using h3(2) assms(4) by simp
  then obtain h4 where h4: "decref x h3 = Some h4" "counted h4 (ext - {#x#})" "obj_at h4 = obj_at h3"
    using decref_held[of h3 x "ext - {#x#}" d "PyDict (kvs @ [(r, x)])"] d2 h3(3) by auto
  show ?thesis using h1 c h2 h3 h4 assms(5) by (auto simp: add_named_def)
qed

section \<open>Adding to a topology\<close>

text \<open>A small library for the examples: the names of components and nodes are strings of as many
  letters as their number; attribute 0 is called \<open>R\<close>; the world is the list of added components.\<close>

definition demo_py :: "nat list cps_py" where
  "demo_py = \<lparr>comp_name = (\<lambda>c w. replicate c CHR ''c''), cps_node_name = (\<lambda>n w. replicate n CHR ''n''),
     new_node = (\<lambda>b uid v w. (length uid, w)), ground = (\<lambda>b. 0), new_comp = (\<lambda>ty nm w. (length nm, w)),
     comp_is_emt = (\<lambda>c w. False), comp_is_dp = (\<lambda>c w. True), type_is_dp = (\<lambda>ty. True),
     cps_connect = (\<lambda>c ns w. (None, w)), cps_attribute = (\<lambda>ob nm w. if nm = ''R'' then Some 0 else None),
     attr_names = (\<lambda>c w. [''R'']), attr_shape = (\<lambda>a. RealAttr a), toPyObject = (\<lambda>a w. Inr (PyFloat 1)),
     fromPyObject = (\<lambda>a ob w. (None, w)), new_topology = (\<lambda>f ns cs w. (0, cs)),
     topo_addComponent = (\<lambda>sys c w. w @ [c]), topo_addNode = (\<lambda>sys n w. w), topo_components = (\<lambda>sys w. w),
     topo_nodes = (\<lambda>sys w. []), node_cast = (\<lambda>n w. Some True), loadCIM = (\<lambda>nm ll f fs w. (Some 0, w))\<rparr>"

text \<open>A topology (0, its dictionaries 1 and 2) and a component (3), each with one reference from
  outside.\<close>

definition demo_heap :: py_heap where
  "demo_heap = [Some (PySystemTopology (Some 0) 1 2, 1), Some (PyDict [], 1), Some (PyDict [], 1), Some (PyComponent (Some 7) [], 1)]"

lemma demo_heap_counted: "counted demo_heap {#0, 3#}"
  by (auto simp: counted_def demo_heap_def held_def refcnt_def cell_of_def less_Suc_eq nth_Cons split: nat.splits)

lemma demo_heap_objs: "obj_at demo_heap 0 = Some (PySystemTopology (Some 0) 1 2)" "obj_at demo_heap 1 = Some (PyDict [])"
    "obj_at demo_heap 3 = Some (PyComponent (Some 7) [])"
  by (simp_all add: demo_heap_def obj_at_def cell_of_def)

text \<open>C30: \<open>add_component\<close> takes away the caller's reference. For a component with a new name the call
  registers it under that name, in the C++ topology and in the dictionary; but where the counts were
  right for the references \<open>ext\<close> of the outside before, they are right afterwards for one reference to
  the component less. The caller still holds that reference, so the count is one too low.\<close>

theorem addComponent_steals_reference:
  assumes "counted h ext" and "obj_at h self = Some (PySystemTopology (Some sys) cd nd)" and "obj_at h cd = Some (PyDict kvs)"
    and "obj_at h x = Some (PyComponent (Some c) refs)" and "x \<in># ext" and "\<not> has_key h kvs (comp_name cps c w)"
  shows "\<exists>h' r. SystemTopology_addComponent cps self x (h, w) = Some (Ret (), h', topo_addComponent cps sys c w)
    \<and> obj_at h' = (obj_at h)(r \<mapsto> PyStr (comp_name cps c w), cd \<mapsto> PyDict (kvs @ [(r, x)])) \<and> obj_at h r = None
    \<and> counted h' (ext - {#x#}) \<and> \<not> counted h' ext"
proof -
  obtain h' r where h': "SystemTopology_addComponent cps self x (h, w) = Some (Ret (), h', topo_addComponent cps sys c w)"
    "counted h' (ext - {#x#})" "obj_at h r = None" "obj_at h' = (obj_at h)(r \<mapsto> PyStr (comp_name cps c w), cd \<mapsto> PyDict (kvs @ [(r, x)]))"
    using add_named_new[OF assms(1,3,6,5), of "\<lambda>w. map_option (\<lambda>sys. topo_addComponent cps sys c w) (Some sys)" w]
      assms(2,4) by (fastforce simp: SystemTopology_addComponent_def)
  have "\<not> counted h' ext" using counted_unique[OF h'(2)] assms(5) by (metis diff_single_eq_union multi_self_add_other_not_self)
  then show ?thesis using h' by blast
qed

text \<open>After the caller has given up its reference, as the interpreter does when the variable goes out
  of scope, the dictionary entry refers to a freed object.\<close>

theorem addComponent_steals_reference_witness:
  "\<exists>h' h2. SystemTopology_addComponent demo_py 0 3 (demo_heap, []) = Some (Ret (), h', [7]) \<and> counted h' {#0#}
     \<and> decref 3 h' = Some h2 \<and> obj_at h2 1 = Some (PyDict [(4, 3)]) \<and> obj_at h2 3 = None"
proof -
  let ?h = "[Some (PySystemTopology (Some 0) 1 2, 1), Some (PyDict [(4, 3)], 1), Some (PyDict [], 1),
     Some (PyComponent (Some 7) [], 1), Some (PyStr (comp_name demo_py 7 []), 1)] :: py_heap"
  have run: "SystemTopology_addComponent demo_py 0 3 (demo_heap, []) = Some (Ret (), ?h, [7])"
    by (simp add: SystemTopology_addComponent_def add_named_def demo_heap_def demo_py_def py_alloc_def PyDict_Contains_def
        PyDict_SetItem_def dict_items_def has_key_def incref_def put_obj_def release.simps obj_at_def cell_of_def)
  have "\<not> has_key demo_heap [] (comp_name demo_py 7 [])" by (simp add: has_key_def)
  from addComponent_steals_reference[OF demo_heap_counted demo_heap_objs _ this] run
  have "counted ?h {#0#}" by auto
  moreover have "\<exists>h2. decref 3 ?h = Some h2 \<and> obj_at h2 1 = Some (PyDict [(4, 3)]) \<and> obj_at h2 3 = None"
    by (simp add: release.simps obj_at_def cell_of_def)
  ultimately show ?thesis using run by blast
qed

text \<open>A name is registered once. \<open>add_component\<close> with a name that is in the dictionary raises
  \<open>TypeError\<close>, and neither the topology nor the dictionary changes; the string made for the test keeps
  its reference for ever.\<close>

lemma addComponent_rejects_taken_name:
  assumes "counted h ext" and "obj_at h self = Some (PySystemTopology sys cd nd)" and "obj_at h cd = Some (PyDict kvs)"
    and "obj_at h x = Some (PyComponent (Some c) refs)" and "has_key h kvs (comp_name cps c w)"
  shows "\<exists>h' r. SystemTopology_addComponent cps self x (h, w)
      = Some (Raise PyTypeError ''SystemTopology already contains a component with this name'', h', w)
    \<and> obj_at h r = None \<and> obj_at h' = (obj_at h)(r \<mapsto> PyStr (comp_name cps c w)) \<and> counted h' (add_mset r ext)"
proof -
  let ?msg = "''SystemTopology already contains a component with this name''"
  obtain h' r where "add_named ?msg (comp_name cps c w) cd x (\<lambda>w. map_option (\<lambda>sys. topo_addComponent cps sys c w) sys) (h, w)
      = Some (Raise PyTypeError ?msg, h', w)"
    and h': "obj_at h r = None" "counted h' (add_mset r ext)" "obj_at h' = (obj_at h)(r \<mapsto> PyStr (comp_name cps c w))"
    using add_named_taken[OF assms(1,3,5), of ?msg x "\<lambda>w. map_option (\<lambda>sys. topo_addComponent cps sys c w) sys" w] by blast
  then have "SystemTopology_addComponent cps self x (h, w) = Some (Raise PyTypeError ?msg, h', w)"
    using assms(2,4) by (simp only: SystemTopology_addComponent_def fst_conv snd_conv bind.bind_lunit py_obj.case prod.case option.case)
  with h' show ?thesis by blast
qed

section \<open>Filling a dictionary\<close>

text \<open>\<open>kept d h h'\<close>: apart from the dictionary \<open>d\<close>, the objects of \<open>h\<close> are unchanged in \<open>h'\<close>.\<close>

definition kept :: "pyref \<Rightarrow> py_heap \<Rightarrow> py_heap \<Rightarrow> bool" where
  "kept d h h' \<longleftrightarrow> (\<forall>x ob. obj_at h x = Some ob \<longrightarrow> x \<noteq> d \<longrightarrow> obj_at h' x = Some ob)"

lemma keptD: "kept d h h' \<Longrightarrow> obj_at h x = Some ob \<Longrightarrow> x \<noteq> d \<Longrightarrow> obj_at h' x = Some ob"
  by (simp add: kept_def)

lemma kept_trans: "kept d h1 h2 \<Longrightarrow> kept d h2 h3 \<Longrightarrow> kept d h1 h3"
  by (simp add: kept_def)

lemma kept_alloc: "obj_at h r = None \<Longrightarrow> obj_at h' = (obj_at h)(r \<mapsto> ob) \<Longrightarrow> kept d h h'"
  by (auto simp: kept_def)

text \<open>The entries a fill adds: one string per element, in order.\<close>

definition entries :: "py_heap \<Rightarrow> (pyref \<Rightarrow> string) \<Rightarrow> pyref list \<Rightarrow> pyref list \<Rightarrow> bool" where
  "entries h nm ks rs \<longleftrightarrow> list_all2 (\<lambda>k r. str_of h k = Some (nm r)) ks rs"

lemma str_of_kept:
  assumes "kept d h h'" and "obj_at h d = Some (PyDict kvs)" and "str_of h k = Some s"
  shows "str_of h' k = Some s"
proof -
  have "obj_at h k = Some (PyStr s)" using assms(3) by (auto split: option.splits py_obj.splits)
  moreover have "k \<noteq> d" using calculation assms(2) by auto
  ultimately show ?thesis using keptD[OF assms(1)] by simp
qed

text \<open>The step of the loop for an element with a new name.\<close>

lemma fill_dict_new:
  assumes "counted h ext" and "obj_at h d = Some (PyDict kvs)" and "obj_at h r = Some ob" and "name_of ob = Some (Some s)"
    and "\<not> has_key h kvs s"
  obtains k h' where "fill_dict name_of wrong taken d (r # rs) h = fill_dict name_of wrong taken d rs h'"
    and "counted h' (add_mset k ext)" and "obj_at h' d = Some (PyDict (kvs @ [(k, r)]))" and "str_of h' k = Some s"
    and "kept d h h'"
proof -
  obtain k h1 where h1: "py_alloc (PyStr s) h = (k, h1)" "counted h1 (add_mset k ext)" "obj_at h k = None"
    "obj_at h1 = (obj_at h)(k \<mapsto> PyStr s)" using alloc_str[OF assms(1)] by blast
  have ne: "d \<noteq> k" "r \<noteq> k" using assms(2,3) h1(3) by auto
  have nk: "\<not> has_key h1 kvs s" using has_key_alloc[OF assms(1,2) h1(3,4)] assms(5) by simp
  have c: "PyDict_Contains d k h1 = Some False" using assms(2) h1(4) ne nk by (simp add: PyDict_Contains_def dict_items_def)
  obtain h2 where h2: "PyDict_SetItem d k r h1 = Some h2" "counted h2 (add_mset k ext)" "obj_at h2 = (obj_at h1)(d \<mapsto> PyDict (kvs @ [(k, r)]))"
    using dict_set_new_counted[OF h1(2), of d kvs k s r ob] assms(2,3) h1(4) ne nk by auto
  show thesis
  proof (rule that)
    show "fill_dict name_of wrong taken d (r # rs) h = fill_dict name_of wrong taken d rs h2"
      using assms(3,4) h1(1) c h2(1) by simp
  qed (use h1 h2 ne in \<open>auto simp: kept_def\<close>)
qed

text \<open>The step for an element whose name is taken.\<close>

lemma fill_dict_taken:
  assumes "counted h ext" and "obj_at h d = Some (PyDict kvs)" and "obj_at h r = Some ob" and "name_of ob = Some (Some s)"
    and "has_key h kvs s"
  obtains k h' where "fill_dict name_of wrong taken d (r # rs) h = Some (Raise PyAttributeError taken, h')"
    and "counted h' (add_mset k ext)" and "obj_at h' d = Some (PyDict kvs)" and "kept d h h'"
proof -
  obtain k h1 where h1: "py_alloc (PyStr s) h = (k, h1)" "counted h1 (add_mset k ext)" "obj_at h k = None"
    "obj_at h1 = (obj_at h)(k \<mapsto> PyStr s)" using alloc_str[OF assms(1)] by blast
  have ne: "d \<noteq> k" using assms(2) h1(3) by auto
  have "has_key h1 kvs s" using has_key_alloc[OF assms(1,2) h1(3,4)] assms(5) by simp
  then have c: "PyDict_Contains d k h1 = Some True" using assms(2) h1(4) ne by (simp add: PyDict_Contains_def dict_items_def)
  show thesis
  proof (rule that)
    show "fill_dict name_of wrong taken d (r # rs) h = Some (Raise PyAttributeError taken, h1)"
      using assms(3,4) h1(1) c by simp
  qed (use assms(2) h1 ne in \<open>auto simp: kept_def\<close>)
qed

lemma has_key_added:
  assumes "counted h ext" and "obj_at h d = Some (PyDict kvs)" and "kept d h h'" and "str_of h' k = Some s"
    and k: "\<And>k v. (k, v) \<in> set kvs \<Longrightarrow> str_of h k \<noteq> None"
  shows "has_key h' (kvs @ [(k, r)]) t \<longleftrightarrow> has_key h kvs t \<or> t = s"
proof -
  have "has_key h' kvs t = has_key h kvs t"
  proof (rule has_key_mono)
    fix k v assume "(k, v) \<in> set kvs"
    then obtain s where "str_of h k = Some s" using k[of k v] by (auto simp del: str_of.simps)
    then show "str_of h' k = str_of h k" using str_of_kept[OF assms(3,2)] by (auto simp del: str_of.simps)
  qed
  moreover have "has_key h' (kvs @ [(k, r)]) t \<longleftrightarrow> has_key h' kvs t \<or> str_of h' k = Some t"
    unfolding has_key_def by simp
  ultimately show ?thesis using assms(4) by (auto simp del: str_of.simps)
qed

text \<open>A dictionary with string keys, and named objects to be entered into it.\<close>

definition fillable :: "(py_obj \<Rightarrow> string option option) \<Rightarrow> (pyref \<Rightarrow> string) \<Rightarrow> pyref \<Rightarrow> (pyref \<times> pyref) list \<Rightarrow> pyref list \<Rightarrow> py_heap \<Rightarrow> bool" where
  "fillable name_of nm d kvs rs h \<longleftrightarrow> obj_at h d = Some (PyDict kvs) \<and> d \<notin> set rs
     \<and> (\<forall>r \<in> set rs. \<exists>ob. obj_at h r = Some ob \<and> name_of ob = Some (Some (nm r)))
     \<and> (\<forall>(k, v) \<in> set kvs. str_of h k \<noteq> None)"

lemma fill_dict_step:
  assumes "counted h ext" and "fillable name_of nm d kvs (r # rs) h" and "\<not> has_key h kvs (nm r)"
  obtains k h1 where "fill_dict name_of wrong taken d (r # rs) h = fill_dict name_of wrong taken d rs h1"
    "counted h1 (add_mset k ext)" "fillable name_of nm d (kvs @ [(k, r)]) rs h1" "str_of h1 k = Some (nm r)" "kept d h h1"
    "\<And>t. has_key h1 (kvs @ [(k, r)]) t \<longleftrightarrow> has_key h kvs t \<or> t = nm r"
proof -
  have d: "obj_at h d = Some (PyDict kvs)" "d \<notin> set (r # rs)" and keys: "\<And>k v. (k, v) \<in> set kvs \<Longrightarrow> str_of h k \<noteq> None"
    and names: "\<And>r'. r' \<in> set (r # rs) \<Longrightarrow> \<exists>ob. obj_at h r' = Some ob \<and> name_of ob = Some (Some (nm r'))"
    using assms(2) by (auto simp: fillable_def)
  obtain ob where ob: "obj_at h r = Some ob" "name_of ob = Some (Some (nm r))" using names by force
  obtain k h1 where h1: "fill_dict name_of wrong taken d (r # rs) h = fill_dict name_of wrong taken d rs h1"
    "counted h1 (add_mset k ext)" "obj_at h1 d = Some (PyDict (kvs @ [(k, r)]))" "str_of h1 k = Some (nm r)" "kept d h h1"
    using fill_dict_new[where name_of = name_of, OF assms(1) d(1) ob assms(3)] by blast
  have hk: "has_key h1 (kvs @ [(k, r)]) t \<longleftrightarrow> has_key h kvs t \<or> t = nm r" for t
    using has_key_added[OF assms(1) d(1) h1(5,4)] keys by blast
  have "\<exists>ob. obj_at h1 r' = Some ob \<and> name_of ob = Some (Some (nm r'))" if "r' \<in> set rs" for r'
    using d(2) names that keptD[OF h1(5)] by (metis list.set_intros(2))
  moreover have "str_of h1 k' \<noteq> None" if "(k', v) \<in> set (kvs @ [(k, r)])" for k' v
    using that keys str_of_kept[OF h1(5) d(1)] h1(4) by (fastforce simp del: str_of.simps)
  ultimately have "fillable name_of nm d (kvs @ [(k, r)]) rs h1"
    using h1(3) d(2) unfolding fillable_def by (blast intro: list.set_intros)
  then show thesis by (rule that[OF h1(1,2) _ h1(4,5) hk])
qed

lemma fill_dict_ok:
  assumes "counted h ext" and "fillable name_of nm d kvs rs h"
    and "distinct (map nm rs)" and "\<And>r. r \<in> set rs \<Longrightarrow> \<not> has_key h kvs (nm r)"
  shows "\<exists>h' ks. fill_dict name_of wrong taken d rs h = Some (Ret (), h') \<and> counted h' (mset ks + ext)
      \<and> obj_at h' d = Some (PyDict (kvs @ zip ks rs)) \<and> entries h' nm ks rs \<and> kept d h h'"
  using assms
proof (induction rs arbitrary: h kvs ext)
  case Nil
  then show ?case by (auto simp: fillable_def entries_def kept_def intro!: exI[of _ h] exI[of _ "[]"])
next
  case (Cons r rs)
  have "\<not> has_key h kvs (nm r)" using Cons.prems(4) by simp
  then obtain k h1 where h1: "fill_dict name_of wrong taken d (r # rs) h = fill_dict name_of wrong taken d rs h1"
    "counted h1 (add_mset k ext)" "fillable name_of nm d (kvs @ [(k, r)]) rs h1" "str_of h1 k = Some (nm r)" "kept d h h1"
    and hk: "\<And>t. has_key h1 (kvs @ [(k, r)]) t \<longleftrightarrow> has_key h kvs t \<or> t = nm r"
    using fill_dict_step[OF Cons.prems(1,2)] by metis
  have "\<not> has_key h1 (kvs @ [(k, r)]) (nm r')" if "r' \<in> set rs" for r'
  proof -
    have "nm r' \<noteq> nm r" using Cons.prems(3) that by (metis distinct.simps(2) image_eqI list.set_map list.simps(9))
    then show ?thesis using Cons.prems(4)[of r'] that by (simp add: hk)
  qed
  from Cons.IH[OF h1(2,3) _ this] Cons.prems(3)
  obtain h' ks where h': "fill_dict name_of wrong taken d rs h1 = Some (Ret (), h')" "counted h' (mset ks + add_mset k ext)"
    "obj_at h' d = Some (PyDict ((kvs @ [(k, r)]) @ zip ks rs))" "entries h' nm ks rs" "kept d h1 h'" by auto
  have "str_of h' k = Some (nm r)" by (rule str_of_kept[OF h'(5) _ h1(4)]) (use h1(3) in \<open>simp add: fillable_def\<close>)
  then have "entries h' nm (k # ks) (r # rs)" using h'(4) by (simp add: entries_def del: str_of.simps)
  moreover have "kept d h h'" by (rule kept_trans[OF h1(5) h'(5)])
  ultimately show ?case using h' h1(1) by (intro exI[of _ h'] exI[of _ "k # ks"]) simp
qed

lemma fill_dict_duplicate:
  assumes "counted h ext" and "fillable name_of nm d kvs rs h"
    and "\<not> (distinct (map nm rs) \<and> (\<forall>r \<in> set rs. \<not> has_key h kvs (nm r)))"
  shows "\<exists>h' ks. fill_dict name_of wrong taken d rs h = Some (Raise PyAttributeError taken, h') \<and> counted h' (mset ks + ext)"
  using assms
proof (induction rs arbitrary: h kvs ext)
  case (Cons r rs)
  show ?case
  proof (cases "has_key h kvs (nm r)")
    case True
    obtain ob where ob: "obj_at h d = Some (PyDict kvs)" "obj_at h r = Some ob" "name_of ob = Some (Some (nm r))"
      using Cons.prems(2) by (auto simp: fillable_def)
    obtain k h' where "fill_dict name_of wrong taken d (r # rs) h = Some (Raise PyAttributeError taken, h')" "counted h' (add_mset k ext)"
      using fill_dict_taken[where name_of = name_of, OF Cons.prems(1) ob True] by blast
    then show ?thesis by (intro exI[of _ h'] exI[of _ "[k]"]) simp
  next
    case False
    then obtain k h1 where h1: "fill_dict name_of wrong taken d (r # rs) h = fill_dict name_of wrong taken d rs h1"
      "counted h1 (add_mset k ext)" "fillable name_of nm d (kvs @ [(k, r)]) rs h1"
      and hk: "\<And>t. has_key h1 (kvs @ [(k, r)]) t \<longleftrightarrow> has_key h kvs t \<or> t = nm r"
      using fill_dict_step[OF Cons.prems(1,2)] by metis
    have "\<not> (distinct (map nm rs) \<and> (\<forall>r' \<in> set rs. \<not> has_key h1 (kvs @ [(k, r)]) (nm r')))"
      unfolding hk using Cons.prems(3) False by (auto simp: image_iff eq_commute)
    from Cons.IH[OF h1(2,3) this] obtain h' ks where
      "fill_dict name_of wrong taken d rs h1 = Some (Raise PyAttributeError taken, h')" "counted h' (mset ks + add_mset k ext)" by blast
    then show ?thesis using h1(1) by (intro exI[of _ h'] exI[of _ "k # ks"]) simp
  qed
qed simp

section \<open>Constructing a topology\<close>

lemma nodes_of_list:
  "(\<And>r. r \<in> set rs \<Longrightarrow> \<exists>b. obj_at h r = Some (PyNode b (Some (nid r))) \<and> kind b) \<Longrightarrow>
   nodes_of kind h rs = Some (Inr (map (\<lambda>r. Some (nid r)) rs))"
  by (induction rs) fastforce+

lemma comps_of_list:
  "(\<And>r. r \<in> set rs \<Longrightarrow> \<exists>refs. obj_at h r = Some (PyComponent (Some (cid r)) refs)) \<Longrightarrow>
   comps_of h rs = Some (Inr (map (\<lambda>r. Some (cid r)) rs))"
  by (induction rs) fastforce+

lemma no_keys: "\<not> has_key h [] s"
  by (simp add: has_key_def)

lemma init_list_ok:
  assumes "counted h ext" and "obj_at h d = Some (PyDict [])" and "d \<notin> set rs" and "obj_at h l = Some (PyList rs)"
    and "get h l = Some (Inr cs)" and "\<And>r. r \<in> set rs \<Longrightarrow> \<exists>ob. obj_at h r = Some ob \<and> name_of ob = Some (Some (nm r))"
    and "distinct (map nm rs)"
  obtains h' ks where "init_list get name_of wrong taken d (Some l) h = Some (Ret cs, h')" and "counted h' (mset ks + ext)"
    and "obj_at h' d = Some (PyDict (zip ks rs))" and "entries h' nm ks rs" and "kept d h h'"
proof -
  obtain h' ks where "fill_dict name_of wrong taken d rs h = Some (Ret (), h')" "counted h' (mset ks + ext)"
    "obj_at h' d = Some (PyDict (zip ks rs))" "entries h' nm ks rs" "kept d h h'"
    using fill_dict_ok[of h ext name_of nm d "[]" rs wrong taken] assms no_keys by (auto simp: fillable_def)
  with that show thesis using assms(4,5) by (simp add: init_list_def list_items_def)
qed

lemma init_list_duplicate:
  assumes "counted h ext" and "obj_at h d = Some (PyDict [])" and "d \<notin> set rs" and "obj_at h l = Some (PyList rs)"
    and "get h l = Some (Inr cs)" and "\<And>r. r \<in> set rs \<Longrightarrow> \<exists>ob. obj_at h r = Some ob \<and> name_of ob = Some (Some (nm r))"
    and "\<not> distinct (map nm rs)"
  obtains h' ks where "init_list get name_of wrong taken d (Some l) h = Some (Raise PyAttributeError taken, h')" and "counted h' (mset ks + ext)"
proof -
  obtain h' ks where "fill_dict name_of wrong taken d rs h = Some (Raise PyAttributeError taken, h')" "counted h' (mset ks + ext)"
    using fill_dict_duplicate[of h ext name_of nm d "[]" rs wrong taken] assms no_keys by (auto simp: fillable_def)
  with that show thesis using assms(4,5) by (simp add: init_list_def list_items_def)
qed

text \<open>A freshly allocated topology and well-typed arguments.\<close>

definition init_ready :: "py_heap \<Rightarrow> pyref \<Rightarrow> pyref \<Rightarrow> pyref \<Rightarrow> (pyref \<Rightarrow> nat) \<Rightarrow> pyref \<Rightarrow> pyref list \<Rightarrow> (pyref \<Rightarrow> nat) \<Rightarrow> pyref \<Rightarrow> pyref list \<Rightarrow> bool" where
  "init_ready h self cd nd nid nl ns cid cl cs \<longleftrightarrow> cd \<noteq> nd
     \<and> obj_at h self = Some (PySystemTopology None cd nd) \<and> obj_at h cd = Some (PyDict []) \<and> obj_at h nd = Some (PyDict [])
     \<and> obj_at h nl = Some (PyList ns) \<and> obj_at h cl = Some (PyList cs)
     \<and> (\<forall>r \<in> set ns. \<exists>b. obj_at h r = Some (PyNode b (Some (nid r))))
     \<and> (\<forall>r \<in> set cs. \<exists>refs. obj_at h r = Some (PyComponent (Some (cid r)) refs))"

abbreviation wrong_nodes :: string where
  "wrong_nodes \<equiv> ''Parameter '' @ quoted ''nodes'' @ '' must be a list of dpsim.Node''"

abbreviation wrong_comps :: string where
  "wrong_comps \<equiv> ''Parameter '' @ quoted ''components'' @ '' must be a list of dpsim.Component''"

text \<open>How \<open>init\<close> puts the two lists together.\<close>

lemma init_fails_nodes:
  assumes "obj_at h self = Some (PySystemTopology sys cd nd)"
    and "init_list nodesFromPython (node_name_of cps w) wrong_nodes ''Duplicated Node name'' nd nl h = Some (Raise exc msg, h')"
  shows "SystemTopology_init cps self f nl cl (h, w) = Some (Raise exc msg, h', w)"
  unfolding SystemTopology_init_def Let_def prod.case assms option.case py_obj.case bind.bind_lunit by simp

lemma init_fails_comps:
  assumes "obj_at h self = Some (PySystemTopology sys cd nd)"
    and "init_list nodesFromPython (node_name_of cps w) wrong_nodes ''Duplicated Node name'' nd nl h = Some (Ret ns, h1)"
    and "init_list compsFromPython (comp_name_of cps w) wrong_comps ''Duplicated Component name'' cd cl h1 = Some (Raise exc msg, h')"
  shows "SystemTopology_init cps self f nl cl (h, w) = Some (Raise exc msg, h', w)"
  unfolding SystemTopology_init_def Let_def prod.case assms option.case py_obj.case bind.bind_lunit py_ret.case by simp

lemma init_runs:
  assumes "obj_at h self = Some (PySystemTopology sys cd nd)"
    and "init_list nodesFromPython (node_name_of cps w) wrong_nodes ''Duplicated Node name'' nd nl h = Some (Ret (map (\<lambda>r. Some (nid r)) ns), h1)"
    and "init_list compsFromPython (comp_name_of cps w) wrong_comps ''Duplicated Component name'' cd cl h1 = Some (Ret (map (\<lambda>r. Some (cid r)) cs), h2)"
    and "new_topology cps f (map nid ns) (map cid cs) w = (sys', w')"
    and "put_obj self (PySystemTopology (Some sys') cd nd) h2 = Some h3"
  shows "SystemTopology_init cps self f nl cl (h, w) = Some (Ret (), h3, w')"
  unfolding SystemTopology_init_def Let_def prod.case assms(1-3) option.case py_obj.case bind.bind_lunit py_ret.case
  by (simp add: assms(4,5) o_def)

lemma entries_kept:
  assumes "kept d h h'" and "obj_at h d = Some (PyDict kvs)" and "entries h nm ks rs"
  shows "entries h' nm ks rs"
  using assms(3) unfolding entries_def by (rule list_all2_mono) (rule str_of_kept[OF assms(1,2)])

lemma entries_put:
  assumes "obj_at h r = Some (PySystemTopology sys cd nd)" and "obj_at h' = (obj_at h)(r \<mapsto> ob)" and "entries h nm ks rs"
  shows "entries h' nm ks rs"
  using assms(3) unfolding entries_def
proof (rule list_all2_mono)
  fix k x assume "str_of h k = Some (nm x)"
  moreover have "k \<noteq> r" using calculation assms(1) by auto
  ultimately show "str_of h' k = Some (nm x)" using assms(2) by simp
qed

text \<open>What the two lists give, the nodes first; the dictionary of the nodes is the only object that
  changes in between.\<close>

lemma init_ready_nodes:
  assumes "init_ready h self cd nd nid nl ns cid cl cs"
  shows "nd \<notin> set ns" and "nodesFromPython h nl = Some (Inr (map (\<lambda>r. Some (nid r)) ns))"
    and "\<And>r. r \<in> set ns \<Longrightarrow> \<exists>ob. obj_at h r = Some ob \<and> node_name_of cps w ob = Some (Some (cps_node_name cps (nid r) w))"
    and "obj_at h nd = Some (PyDict [])" and "obj_at h nl = Some (PyList ns)"
proof -
  note r = assms[unfolded init_ready_def]
  show "nd \<notin> set ns" using r by force
  show "nodesFromPython h nl = Some (Inr (map (\<lambda>r. Some (nid r)) ns))"
    using nodes_of_list[of ns h nid "\<lambda>b. True"] r by (simp add: nodesFromPython_def)
  show "\<exists>ob. obj_at h r = Some ob \<and> node_name_of cps w ob = Some (Some (cps_node_name cps (nid r) w))" if "r \<in> set ns" for r
    using r that by fastforce
qed (use assms in \<open>simp_all add: init_ready_def\<close>)

lemma init_ready_comps:
  assumes "init_ready h self cd nd nid nl ns cid cl cs" and "kept nd h h1"
  shows "cd \<notin> set cs" and "compsFromPython h1 cl = Some (Inr (map (\<lambda>r. Some (cid r)) cs))"
    and "\<And>r. r \<in> set cs \<Longrightarrow> \<exists>ob. obj_at h1 r = Some ob \<and> comp_name_of cps w ob = Some (Some (comp_name cps (cid r) w))"
    and "obj_at h1 cd = Some (PyDict [])" and "obj_at h1 cl = Some (PyList cs)"
    and "obj_at h1 self = Some (PySystemTopology None cd nd)"
proof -
  note r = assms(1)[unfolded init_ready_def]
  have k: "obj_at h1 x = Some ob" if "obj_at h x = Some ob" "x \<noteq> nd" for x ob using keptD[OF assms(2) that] .
  show "cd \<notin> set cs" using r by force
  have comp: "\<exists>refs. obj_at h1 r = Some (PyComponent (Some (cid r)) refs)" if "r \<in> set cs" for r using r that k by fastforce
  then show "\<exists>ob. obj_at h1 r = Some ob \<and> comp_name_of cps w ob = Some (Some (comp_name cps (cid r) w))" if "r \<in> set cs" for r
    using that by fastforce
  show cl: "obj_at h1 cl = Some (PyList cs)" using r k by fastforce
  then show "compsFromPython h1 cl = Some (Inr (map (\<lambda>r. Some (cid r)) cs))"
    using comp comps_of_list[of cs h1 cid] by (simp add: compsFromPython_def)
  show "obj_at h1 cd = Some (PyDict [])" "obj_at h1 self = Some (PySystemTopology None cd nd)" using r k by fastforce+
qed

abbreviation node_names where
  "node_names cps nid w ns \<equiv> map (\<lambda>r. cps_node_name cps (nid r) w) ns"

abbreviation comp_names where
  "comp_names cps cid w cs \<equiv> map (\<lambda>r. comp_name cps (cid r) w) cs"

lemma init_nodes_ok:
  assumes "counted h ext" and "init_ready h self cd nd nid nl ns cid cl cs" and "distinct (node_names cps nid w ns)"
  obtains h1 ks where "init_list nodesFromPython (node_name_of cps w) wrong_nodes ''Duplicated Node name'' nd (Some nl) h
      = Some (Ret (map (\<lambda>r. Some (nid r)) ns), h1)" "counted h1 (mset ks + ext)" "obj_at h1 nd = Some (PyDict (zip ks ns))"
    "entries h1 (\<lambda>r. cps_node_name cps (nid r) w) ks ns" "kept nd h h1"
proof -
  note r = init_ready_nodes[OF assms(2)]
  show thesis
    by (rule init_list_ok[where get = nodesFromPython and name_of = "node_name_of cps w" and nm = "\<lambda>r. cps_node_name cps (nid r) w" and wrong = wrong_nodes
      and taken = "''Duplicated Node name''", OF assms(1) r(4,1,5,2) r(3) assms(3)])
       (assumption | rule that)+
qed

lemma init_fails_duplicate_node:
  assumes "counted h ext" and "init_ready h self cd nd nid nl ns cid cl cs" and "\<not> distinct (node_names cps nid w ns)"
  shows "\<exists>h' ks. SystemTopology_init cps self f (Some nl) (Some cl) (h, w) = Some (Raise PyAttributeError ''Duplicated Node name'', h', w)
     \<and> counted h' (mset ks + ext)"
proof -
  note r = init_ready_nodes[OF assms(2)]
  obtain h' ks where h': "init_list nodesFromPython (node_name_of cps w) wrong_nodes ''Duplicated Node name'' nd (Some nl) h
      = Some (Raise PyAttributeError ''Duplicated Node name'', h')" "counted h' (mset ks + ext)"
    by (rule init_list_duplicate[where get = nodesFromPython and name_of = "node_name_of cps w" and nm = "\<lambda>r. cps_node_name cps (nid r) w" and wrong = wrong_nodes
      and taken = "''Duplicated Node name''", OF assms(1) r(4,1,5,2) r(3) assms(3)])
  have "obj_at h self = Some (PySystemTopology None cd nd)" using assms(2) by (simp add: init_ready_def)
  then show ?thesis using init_fails_nodes[OF _ h'(1)] h'(2) by blast
qed

lemma init_fails_duplicate_comp:
  assumes "counted h ext" and "init_ready h self cd nd nid nl ns cid cl cs" and "distinct (node_names cps nid w ns)"
    and "\<not> distinct (comp_names cps cid w cs)"
  shows "\<exists>h' ks. SystemTopology_init cps self f (Some nl) (Some cl) (h, w) = Some (Raise PyAttributeError ''Duplicated Component name'', h', w)
     \<and> counted h' (mset ks + ext)"
proof -
  obtain h1 ks1 where h1: "init_list nodesFromPython (node_name_of cps w) wrong_nodes ''Duplicated Node name'' nd (Some nl) h
      = Some (Ret (map (\<lambda>r. Some (nid r)) ns), h1)" "counted h1 (mset ks1 + ext)" "obj_at h1 nd = Some (PyDict (zip ks1 ns))"
    "entries h1 (\<lambda>r. cps_node_name cps (nid r) w) ks1 ns" "kept nd h h1"
    by (rule init_nodes_ok[OF assms(1-3)])
  note r = init_ready_comps[OF assms(2) h1(5)]
  obtain h2 ks2 where h2: "init_list compsFromPython (comp_name_of cps w) wrong_comps ''Duplicated Component name'' cd (Some cl) h1
      = Some (Raise PyAttributeError ''Duplicated Component name'', h2)" "counted h2 (mset ks2 + (mset ks1 + ext))"
    by (rule init_list_duplicate[where get = compsFromPython and name_of = "comp_name_of cps w" and nm = "\<lambda>r. comp_name cps (cid r) w" and wrong = wrong_comps
      and taken = "''Duplicated Component name''", OF h1(2) r(4,1,5,2) r(3) assms(4)])
  have self: "obj_at h self = Some (PySystemTopology None cd nd)" using assms(2) by (simp add: init_ready_def)
  have "counted h2 (mset (ks2 @ ks1) + ext)" using h2(2) by (simp add: ac_simps)
  then show ?thesis using init_fails_comps[OF self h1(1) h2(1)] by blast
qed

lemma init_succeeds:
  assumes "counted h ext" and "init_ready h self cd nd nid nl ns cid cl cs" and "distinct (node_names cps nid w ns)"
    and "distinct (comp_names cps cid w cs)" and "new_topology cps f (map nid ns) (map cid cs) w = (sys, w')"
  shows "\<exists>h' ks1 ks2. SystemTopology_init cps self f (Some nl) (Some cl) (h, w) = Some (Ret (), h', w')
      \<and> obj_at h' self = Some (PySystemTopology (Some sys) cd nd)
      \<and> obj_at h' nd = Some (PyDict (zip ks1 ns)) \<and> entries h' (\<lambda>r. cps_node_name cps (nid r) w) ks1 ns
      \<and> obj_at h' cd = Some (PyDict (zip ks2 cs)) \<and> entries h' (\<lambda>r. comp_name cps (cid r) w) ks2 cs
      \<and> counted h' (mset ks1 + mset ks2 + ext)"
proof -
  obtain h1 ks1 where h1: "init_list nodesFromPython (node_name_of cps w) wrong_nodes ''Duplicated Node name'' nd (Some nl) h
      = Some (Ret (map (\<lambda>r. Some (nid r)) ns), h1)" "counted h1 (mset ks1 + ext)" "obj_at h1 nd = Some (PyDict (zip ks1 ns))"
    "entries h1 (\<lambda>r. cps_node_name cps (nid r) w) ks1 ns" "kept nd h h1"
    by (rule init_nodes_ok[OF assms(1-3)])
  note r = init_ready_comps[OF assms(2) h1(5)]
  obtain h2 ks2 where h2: "init_list compsFromPython (comp_name_of cps w) wrong_comps ''Duplicated Component name'' cd (Some cl) h1
      = Some (Ret (map (\<lambda>r. Some (cid r)) cs), h2)" "counted h2 (mset ks2 + (mset ks1 + ext))"
    "obj_at h2 cd = Some (PyDict (zip ks2 cs))" "entries h2 (\<lambda>r. comp_name cps (cid r) w) ks2 cs" "kept cd h1 h2"
    by (rule init_list_ok[where get = compsFromPython and name_of = "comp_name_of cps w" and nm = "\<lambda>r. comp_name cps (cid r) w" and wrong = wrong_comps
      and taken = "''Duplicated Component name''", OF h1(2) r(4,1,5,2) r(3) assms(4)])
  have ne: "cd \<noteq> nd" "self \<noteq> nd" "self \<noteq> cd" and self: "obj_at h self = Some (PySystemTopology None cd nd)"
    using assms(2) by (auto simp: init_ready_def)
  have old: "obj_at h2 self = Some (PySystemTopology None cd nd)" "obj_at h2 nd = Some (PyDict (zip ks1 ns))"
    using keptD[OF h2(5) r(6)] keptD[OF h2(5) h1(3)] ne by auto
  obtain h3 where h3: "put_obj self (PySystemTopology (Some sys) cd nd) h2 = Some h3" "counted h3 (mset ks2 + (mset ks1 + ext))"
    "obj_at h3 = (obj_at h2)(self \<mapsto> PySystemTopology (Some sys) cd nd)"
    using put_obj_counted[OF h2(2) old(1), of "mset ks2 + (mset ks1 + ext)" "PySystemTopology (Some sys) cd nd"] by auto
  have "entries h2 (\<lambda>r. cps_node_name cps (nid r) w) ks1 ns" by (rule entries_kept[OF h2(5) r(4) h1(4)])
  then have e: "entries h3 (\<lambda>r. cps_node_name cps (nid r) w) ks1 ns" "entries h3 (\<lambda>r. comp_name cps (cid r) w) ks2 cs"
    using entries_put[OF old(1) h3(3)] h2(4) by blast+
  have "counted h3 (mset ks1 + mset ks2 + ext)" using h3(2) by (simp add: ac_simps)
  with e show ?thesis
    using init_runs[OF self h1(1) h2(1) assms(5) h3(1)] h3(3) h2(3) old(2) ne
    by (intro exI[of _ h3] exI[of _ ks1] exI[of _ ks2]) simp
qed

text \<open>C24: constructing a topology from a list of nodes and a list of components. If the names are
  distinct, the C++ topology is made from exactly these nodes and components, in their order, and the
  two dictionaries map exactly their names to them. If two nodes or two components share a name, the
  call raises \<open>AttributeError\<close> and no topology is made. In both cases the only references that are not
  accounted for are those to the new name strings.\<close>

theorem topology_init:
  assumes "counted h ext" and "init_ready h self cd nd nid nl ns cid cl cs"
  shows "if distinct (map (\<lambda>r. cps_node_name cps (nid r) w) ns) \<and> distinct (map (\<lambda>r. comp_name cps (cid r) w) cs)
    then \<exists>h' sys w' ks1 ks2. SystemTopology_init cps self f (Some nl) (Some cl) (h, w) = Some (Ret (), h', w')
      \<and> (sys, w') = new_topology cps f (map nid ns) (map cid cs) w
      \<and> obj_at h' self = Some (PySystemTopology (Some sys) cd nd)
      \<and> obj_at h' nd = Some (PyDict (zip ks1 ns)) \<and> entries h' (\<lambda>r. cps_node_name cps (nid r) w) ks1 ns
      \<and> obj_at h' cd = Some (PyDict (zip ks2 cs)) \<and> entries h' (\<lambda>r. comp_name cps (cid r) w) ks2 cs
      \<and> counted h' (mset ks1 + mset ks2 + ext)
    else \<exists>h' msg ks. SystemTopology_init cps self f (Some nl) (Some cl) (h, w) = Some (Raise PyAttributeError msg, h', w)
      \<and> counted h' (mset ks + ext)"
proof (cases "distinct (node_names cps nid w ns) \<and> distinct (comp_names cps cid w cs)")
  case True
  obtain sys w' where sys: "new_topology cps f (map nid ns) (map cid cs) w = (sys, w')" by (meson surj_pair)
  from init_succeeds[OF assms True[THEN conjunct1] True[THEN conjunct2] sys] show ?thesis
    unfolding if_P[OF True] using sys by metis
next
  case False
  have "\<exists>h' msg ks. SystemTopology_init cps self f (Some nl) (Some cl) (h, w) = Some (Raise PyAttributeError msg, h', w)
      \<and> counted h' (mset ks + ext)"
  proof (cases "distinct (node_names cps nid w ns)")
    case True
    then show ?thesis using init_fails_duplicate_comp[OF assms True] False by blast
  next
    case no: False
    show ?thesis using init_fails_duplicate_node[OF assms no] by blast
  qed
  then show ?thesis unfolding if_not_P[OF False] .
qed

definition demo_init_heap :: py_heap where
  "demo_init_heap = [Some (PySystemTopology None 1 2, 1), Some (PyDict [], 1), Some (PyDict [], 1), Some (PyComponent (Some 7) [], 1),
     Some (PyList [], 1), Some (PyList [3], 1)]"

theorem topology_init_witness:
  "\<exists>h' k. SystemTopology_init demo_py 0 50 (Some 4) (Some 5) (demo_init_heap, []) = Some (Ret (), h', [7])
     \<and> obj_at h' 0 = Some (PySystemTopology (Some 0) 1 2) \<and> obj_at h' 1 = Some (PyDict [(k, 3)]) \<and> str_of h' k = Some ''ccccccc''"
proof -
  have c: "counted demo_init_heap {#0, 4, 5#}"
    by (auto simp: counted_def demo_init_heap_def held_def refcnt_def cell_of_def less_Suc_eq nth_Cons split: nat.splits)
  have r: "init_ready demo_init_heap 0 1 2 (\<lambda>r. 0) 4 [] (\<lambda>r. 7) 5 [3]"
    by (simp add: init_ready_def demo_init_heap_def obj_at_def cell_of_def)
  have "\<exists>h' sys w' ks1 ks2. SystemTopology_init demo_py 0 50 (Some 4) (Some 5) (demo_init_heap, []) = Some (Ret (), h', w')
      \<and> (sys, w') = new_topology demo_py 50 [] [7] []
      \<and> obj_at h' 0 = Some (PySystemTopology (Some sys) 1 2)
      \<and> obj_at h' 1 = Some (PyDict (zip ks2 [3])) \<and> entries h' (\<lambda>r. comp_name demo_py 7 []) ks2 [3]"
    using topology_init[OF c r, of demo_py "[]" 50] by (auto simp del: str_of.simps)
  then show ?thesis by (auto simp: entries_def list_all2_Cons2 demo_py_def numeral_eq_Suc simp del: str_of.simps)
qed

section \<open>Logging an attribute\<close>

text \<open>\<open>log_attribute\<close> keeps the reference counts right on every path. The call never touches a freed
  object; if it raises, no Python object has changed; if it returns, the logger has taken its own
  reference to the component or node it reads from, and its columns are those of \<open>addAttribute\<close>.\<close>

theorem logAttribute_keeps_counts:
  assumes "counted h ext" and "x \<in># ext" and "obj_at h self = Some (PyLogger (Some l) file refs)"
    and "obj_at h x = Some ob" and "identified ob = Some tgt" and "l < length ls"
  shows "\<exists>res h' ls'. Logger_logAttribute cps w self x name (h, ls) = Some (res, h', ls') \<and> counted h' ext
     \<and> (if res = Ret ()
        then obj_at h' = (obj_at h)(self \<mapsto> PyLogger (Some l) file (refs @ [x]))
          \<and> (\<exists>t a. tgt = Some t \<and> cps_attribute cps t name w = Some a
               \<and> addAttribute (obj_name cps t w @ ''.'' @ name) (attr_shape cps a) (ls ! l) = Ok (ls' ! l))
        else h' = h)"
proof (cases tgt)
  case None
  then show ?thesis using assms by (simp add: Logger_logAttribute_def)
next
  case (Some t)
  show ?thesis
  proof (cases "cps_attribute cps t name w")
    case None
    then show ?thesis using assms Some by (simp add: Logger_logAttribute_def)
  next
    case a: (Some a)
    show ?thesis
    proof (cases "addAttribute (obj_name cps t w @ ''.'' @ name) (attr_shape cps a) (ls ! l)")
      case (Throw e lg)
      then show ?thesis using assms Some a by (simp add: Logger_logAttribute_def)
    next
      case (Ok lg)
      obtain h1 where h1: "put_obj self (PyLogger (Some l) file (refs @ [x])) h = Some h1" "counted h1 (ext - {#x#})"
          "obj_at h1 = (obj_at h)(self \<mapsto> PyLogger (Some l) file (refs @ [x]))"
        using put_obj_counted[OF assms(1,3), of "ext - {#x#}" "PyLogger (Some l) file (refs @ [x])"] assms(2) by auto
      have "\<exists>ob. obj_at h1 x = Some ob" using h1(3) assms(4) by simp
      then obtain h2 where h2: "incref x h1 = Some h2" "counted h2 ext" "obj_at h2 = obj_at h1"
        using incref_counted[OF h1(2)] assms(2) by fastforce
      then show ?thesis using assms Some a Ok h1 by (auto simp: Logger_logAttribute_def)
    qed
  qed
qed

definition demo_log_heap :: py_heap where
  "demo_log_heap = [Some (PyLogger (Some 0) ''out.csv'' [], 1), Some (PyComponent (Some 2) [], 1)]"

theorem logAttribute_keeps_counts_witness:
  "\<exists>h' ls'. Logger_logAttribute demo_py [] 0 1 ''R'' (demo_log_heap, [DataLogger_new True True]) = Some (Ret (), h', ls')
     \<and> counted h' {#0, 1#} \<and> obj_at h' 0 = Some (PyLogger (Some 0) ''out.csv'' [1])"
proof -
  have c: "counted demo_log_heap {#0, 1#}"
    by (auto simp: counted_def demo_log_heap_def held_def refcnt_def cell_of_def less_Suc_eq nth_Cons split: nat.splits)
  have o: "obj_at demo_log_heap 0 = Some (PyLogger (Some 0) ''out.csv'' [])" "obj_at demo_log_heap 1 = Some (PyComponent (Some 2) [])"
    by (simp_all add: demo_log_heap_def obj_at_def cell_of_def)
  have "\<exists>h' ls'. Logger_logAttribute demo_py [] 0 1 ''R'' (demo_log_heap, [DataLogger_new True True]) = Some (Ret (), h', ls')"
    by (simp add: Logger_logAttribute_def demo_log_heap_def obj_at_def cell_of_def demo_py_def put_obj_def incref_def)
  moreover have "\<exists>res h' ls'. Logger_logAttribute demo_py [] 0 1 ''R'' (demo_log_heap, [DataLogger_new True True]) = Some (res, h', ls')
      \<and> counted h' {#0, 1#} \<and> (res = Ret () \<longrightarrow> obj_at h' = (obj_at demo_log_heap)(0 \<mapsto> PyLogger (Some 0) ''out.csv'' ([] @ [1])))"
    using logAttribute_keeps_counts[OF c _ o, of "Some (CompObj 2)" "[DataLogger_new True True]" demo_py "[]" "''R''"] by fastforce
  ultimately obtain h' ls' where "Logger_logAttribute demo_py [] 0 1 ''R'' (demo_log_heap, [DataLogger_new True True]) = Some (Ret (), h', ls')"
    "counted h' {#0, 1#}" and eq: "obj_at h' = (obj_at demo_log_heap)(0 \<mapsto> PyLogger (Some 0) ''out.csv'' [1])" by auto
  moreover have "obj_at h' 0 = Some (PyLogger (Some 0) ''out.csv'' [1])" by (subst eq) simp
  ultimately show ?thesis by blast
qed

section \<open>Constructors of components\<close>

lemma nodes_of_mono:
  "(\<And>x ob. obj_at h x = Some ob \<Longrightarrow> obj_at h' x = Some ob) \<Longrightarrow> nodes_of kind h rs = Some r \<Longrightarrow> nodes_of kind h' rs = Some r"
proof (induction rs arbitrary: r)
  case (Cons x xs)
  obtain ob where ob: "obj_at h x = Some ob" using Cons.prems(2) by (cases "obj_at h x") auto
  then have "obj_at h' x = Some ob" using Cons.prems(1) by blast
  then show ?case using Cons ob by (auto split: py_obj.splits if_splits)
qed simp

lemma fromPython_mono:
  assumes "\<And>x ob. obj_at h x = Some ob \<Longrightarrow> obj_at h' x = Some ob" and "fromPython b h l = Some r"
  shows "fromPython b h' l = Some r"
proof -
  obtain ob where ob: "obj_at h l = Some ob" using assms(2) by (cases "obj_at h l") (auto simp: fromPython_def)
  then have "obj_at h' l = Some ob" using assms(1) by blast
  then show ?thesis using assms(2) ob nodes_of_mono[OF assms(1)] by (auto simp: fromPython_def split: py_obj.splits)
qed

text \<open>a constructor called with nodes that are not a list of nodes of the right kind does not raise
  a Python exception: the \<open>std::invalid_argument\<close> of \<open>fromPython\<close> leaves \<open>createInstance\<close>, which has
  handlers for the exceptions of the component library only. (\<open>connect\<close> turns the same exception into
  \<open>TypeError\<close>.)\<close>

theorem createInstance_lets_exception_out:
  assumes "fromPython (type_is_dp cps ty) h l = Some (Inl msg)"
  shows "\<exists>h' w'. createInstance cps ty name (Some l) None (h, w) = Some (Uncaught (InvalidArgument msg), h', w')"
proof -
  have "fromPython (type_is_dp cps ty) (snd (py_alloc (PyComponent None []) h)) l = Some (Inl msg)"
    using fromPython_mono[OF _ assms] obj_at_alloc obj_at_fresh by (metis fun_upd_other option.distinct(1))
  then show ?thesis by (cases "py_alloc (PyComponent None []) h"; cases "new_comp cps ty name w") (simp add: createInstance_def)
qed

theorem createInstance_lets_exception_out_witness:
  "\<exists>h' w'. createInstance demo_py ''Resistor'' ''r1'' (Some 1) None (demo_log_heap, []) = Some (Uncaught (InvalidArgument ''argument is not a list''), h', w')"
proof -
  have "fromPython (type_is_dp demo_py ''Resistor'') demo_log_heap 1 = Some (Inl ''argument is not a list'')"
    by (simp add: fromPython_def demo_log_heap_def obj_at_def cell_of_def)
  then show ?thesis by (rule createInstance_lets_exception_out)
qed

section \<open>Loading\<close>

lemma wrap_all_counted:
  assumes "counted h ext" and "obj_at h d = Some (PyDict kvs)" and "\<And>c ob. wrap c = Some ob \<Longrightarrow> dealloc ob = []"
  shows "\<exists>res h' M kvs'. wrap_all name_of wrap taken d cs h = Some (res, h') \<and> counted h' (M + ext) \<and> obj_at h' d = Some (PyDict kvs') \<and> kept d h h'"
  using assms(1,2)
proof (induction cs arbitrary: h ext kvs)
  case Nil
  then show ?case by (auto simp: kept_def intro: exI[of _ "{#}"])
next
  case (Cons c cs)
  obtain k h1 where h1: "py_alloc (PyStr (name_of c)) h = (k, h1)" "counted h1 (add_mset k ext)" "obj_at h k = None"
    "obj_at h1 = (obj_at h)(k \<mapsto> PyStr (name_of c))" using alloc_str[OF Cons.prems(1)] by blast
  have d1: "obj_at h1 d = Some (PyDict kvs)" "kept d h h1" using Cons.prems(2) h1(3,4) by (auto simp: kept_def)
  have cont: "PyDict_Contains d k h1 = Some (has_key h1 kvs (name_of c))" using d1 h1(4) by (simp add: PyDict_Contains_def dict_items_def)
  show ?case
  proof (cases "has_key h1 kvs (name_of c) \<or> wrap c = None")
    case True
    then have "\<exists>res. wrap_all name_of wrap taken d (c # cs) h = Some (res, h1)" using h1(1) cont by auto
    then show ?thesis using h1(2) d1 by (metis add_mset_add_single union_commute)
  next
    case False
    then obtain ob where ob: "wrap c = Some ob" "\<not> has_key h1 kvs (name_of c)" by auto
    define r h2 where "r = fst (py_alloc ob h1)" and "h2 = snd (py_alloc ob h1)"
    then have h2: "py_alloc ob h1 = (r, h2)" "counted h2 (add_mset r (add_mset k ext))" "obj_at h1 r = None" "obj_at h2 = (obj_at h1)(r \<mapsto> ob)"
      using counted_alloc[of h1 ob "add_mset k ext"] obj_at_alloc[of ob h1] obj_at_fresh[of h1 ob] assms(3)[OF ob(1)] h1(2) by simp_all
    have ne: "d \<noteq> r" "k \<noteq> r" using h2(3) d1 h1(4) by auto
    have "has_key h2 kvs (name_of c) = has_key h1 kvs (name_of c)"
    proof (rule has_key_mono)
      fix x v assume "(x, v) \<in> set kvs"
      then have "x \<noteq> r" using keys_live(1)[OF h1(2) d1(1)] h2(3) by fastforce
      then show "str_of h2 x = str_of h1 x" using h2(4) by simp
    qed
    then obtain h3 where h3: "PyDict_SetItem d k r h2 = Some h3" "counted h3 (add_mset r (add_mset k ext))"
        "obj_at h3 = (obj_at h2)(d \<mapsto> PyDict (kvs @ [(k, r)]))"
      using dict_set_new_counted[OF h2(2), of d kvs k "name_of c" r ob] ob(2) h2(4) d1(1) h1(4) ne by auto
    have k3: "kept d h h3" using h1(3,4) h2(3,4) h3(3) by (auto simp: kept_def)
    obtain res h' M kvs' where h': "wrap_all name_of wrap taken d cs h3 = Some (res, h')" "counted h' (M + add_mset r (add_mset k ext))"
        "obj_at h' d = Some (PyDict kvs')" "kept d h3 h'"
      using Cons.IH[OF h3(2), of "kvs @ [(k, r)]"] h3(3) by auto
    have "wrap_all name_of wrap taken d (c # cs) h = Some (res, h')" using h1(1) cont ob h2(1) h3(1) h'(1) by simp
    moreover have "counted h' ((M + {#r, k#}) + ext)" using h'(2) by (simp add: ac_simps)
    ultimately show ?thesis using h'(3) kept_trans[OF k3 h'(4)] by blast
  qed
qed

text \<open>The part of \<open>load_cim\<close> after the file names are read, on fresh objects.\<close>

lemma alloc_any:
  assumes "counted h (mset (dealloc ob) + ext)"
  shows "\<exists>r h'. py_alloc ob h = (r, h') \<and> counted h' (add_mset r ext) \<and> obj_at h r = None \<and> obj_at h' = (obj_at h)(r \<mapsto> ob)"
  using counted_alloc[OF assms] obj_at_alloc obj_at_fresh by (metis prod.collapse)

lemma cim_wrap_counted:
  assumes "counted h ext" and "obj_at h cd = Some (PyDict [])" and "obj_at h nd = Some (PyDict [])" and "cd \<noteq> nd"
    and "obj_at h sy = Some ob" and "sy \<noteq> cd" and "sy \<noteq> nd"
  shows "\<exists>res h' M. cim_wrap cps w sys sy cd nd h = Some (res, h') \<and> counted h' (M + ext) \<and> (\<forall>s. res = Some (Ret s) \<longrightarrow> s = sy \<and> sy \<in># M)"
proof -
  obtain r1 h1 M1 kvs1 where h1: "wrap_all (\<lambda>c. comp_name cps c w) (\<lambda>c. Some (PyComponent (Some c) [])) ''Duplicated Component name'' cd (topo_components cps sys w) h
      = Some (r1, h1)" "counted h1 (M1 + ext)" "kept cd h h1"
    using wrap_all_counted[OF assms(1,2), of "\<lambda>c. Some (PyComponent (Some c) [])"] by fastforce
  show ?thesis
  proof (cases "r1 = Some (Ret ())")
    case False
    then have "\<exists>res. cim_wrap cps w sys sy cd nd h = Some (res, h1) \<and> (\<forall>s. res \<noteq> Some (Ret s))"
      using h1(1) by (auto simp: cim_wrap_def split: option.splits py_ret.splits)
    then show ?thesis using h1(2) by blast
  next
    case True
    have nd1: "obj_at h1 nd = Some (PyDict [])" "obj_at h1 sy = Some ob" using keptD[OF h1(3)] assms by auto
    obtain r2 h2 M2 kvs2 where h2: "wrap_all (\<lambda>n. cps_node_name cps n w) (\<lambda>n. map_option (\<lambda>b. PyNode b (Some n)) (node_cast cps n w))
            ''Duplicated Node name'' nd (topo_nodes cps sys w) h1 = Some (r2, h2)" "counted h2 (M2 + (M1 + ext))" "kept nd h1 h2"
      using wrap_all_counted[OF h1(2) nd1(1), of "\<lambda>n. map_option (\<lambda>b. PyNode b (Some n)) (node_cast cps n w)"] by fastforce
    show ?thesis
    proof (cases "r2 = Some (Ret ())")
      case False
      then have "\<exists>res. cim_wrap cps w sys sy cd nd h = Some (res, h2) \<and> (\<forall>s. res \<noteq> Some (Ret s))"
        using h1(1) True h2(1) by (auto simp: cim_wrap_def split: option.splits py_ret.splits)
      then show ?thesis using h2(2) by (metis union_assoc)
    next
      case r2: True
      have "obj_at h2 sy = Some ob" using keptD[OF h2(3) nd1(2)] assms(7) by blast
      then obtain h3 where h3: "incref sy h2 = Some h3" "counted h3 (add_mset sy (M2 + (M1 + ext)))" using incref_counted[OF h2(2)] by blast
      have "cim_wrap cps w sys sy cd nd h = Some (Some (Ret sy), h3)" using h1(1) True h2(1) r2 h3(1) by (simp add: cim_wrap_def)
      moreover have "counted h3 (add_mset sy (M2 + M1) + ext)" using h3(2) by (simp add: ac_simps)
      ultimately show ?thesis by (intro exI[of _ "Some (Ret sy)"] exI[of _ h3] exI[of _ "add_mset sy (M2 + M1)"]) simp
    qed
  qed
qed

text \<open>The new Python topology with its two empty dictionaries.\<close>

lemma new_topology_object:
  assumes "counted h e"
  obtains cd nd sy h2 h3 h4 where "py_alloc (PyDict []) h = (cd, h2)" "py_alloc (PyDict []) h2 = (nd, h3)"
    "py_alloc (PySystemTopology None cd nd) h3 = (sy, h4)" "counted h4 (add_mset sy e)"
    "obj_at h4 cd = Some (PyDict [])" "obj_at h4 nd = Some (PyDict [])" "obj_at h4 sy = Some (PySystemTopology None cd nd)"
    "cd \<noteq> nd" "sy \<noteq> cd" "sy \<noteq> nd"
proof -
  obtain cd h2 where h2: "py_alloc (PyDict []) h = (cd, h2)" "counted h2 (add_mset cd e)" "obj_at h2 = (obj_at h)(cd \<mapsto> PyDict [])"
    using alloc_any[of h "PyDict []" e] assms by fastforce
  obtain nd h3 where h3: "py_alloc (PyDict []) h2 = (nd, h3)" "counted h3 (add_mset nd (add_mset cd e))" "obj_at h2 nd = None"
      "obj_at h3 = (obj_at h2)(nd \<mapsto> PyDict [])"
    using alloc_any[of h2 "PyDict []" "add_mset cd e"] h2(2) by fastforce
  obtain sy h4 where h4: "py_alloc (PySystemTopology None cd nd) h3 = (sy, h4)" "counted h4 (add_mset sy e)" "obj_at h3 sy = None"
      "obj_at h4 = (obj_at h3)(sy \<mapsto> PySystemTopology None cd nd)"
    using alloc_any[of h3 "PySystemTopology None cd nd" e] h3(2) by (fastforce simp: add_mset_commute)
  have "cd \<noteq> nd" "sy \<noteq> cd" "sy \<noteq> nd" using h2(3) h3(3,4) h4(3) by (auto split: if_splits)
  then show thesis using that[OF h2(1) h3(1) h4(1,2)] h2(3) h3(4) h4(4) by auto
qed

text \<open>\<open>load_cim\<close> after a topology has been read: it is wrapped, with one reference too many.\<close>

lemma LoadCim_wraps:
  assumes "counted h (add_mset sy e)" and "obj_at h cd = Some (PyDict [])" and "obj_at h nd = Some (PyDict [])"
    and "obj_at h sy = Some (PySystemTopology None cd nd)" and "cd \<noteq> nd" and "sy \<noteq> cd" and "sy \<noteq> nd"
  shows "\<exists>res h' M. do {
           h \<leftarrow> put_obj sy (PySystemTopology (Some sid) cd nd) h;
           (res, h) \<leftarrow> cim_wrap cps w sid sy cd nd h;
           Some (res, h, w) } = Some (res, h', w)
     \<and> counted h' (M + e) \<and> (\<forall>s. res = Some (Ret s) \<longrightarrow> 2 \<le> count M s)"
proof -
  obtain h5 where h5: "put_obj sy (PySystemTopology (Some sid) cd nd) h = Some h5" "counted h5 (add_mset sy e)"
      "obj_at h5 = (obj_at h)(sy \<mapsto> PySystemTopology (Some sid) cd nd)"
    using put_obj_counted[OF assms(1), of sy "PySystemTopology None cd nd" "add_mset sy e" "PySystemTopology (Some sid) cd nd"] assms(4) by auto
  have o5: "obj_at h5 cd = Some (PyDict [])" "obj_at h5 nd = Some (PyDict [])" "obj_at h5 sy = Some (PySystemTopology (Some sid) cd nd)"
    using h5(3) assms by auto
  obtain res h6 M where h6: "cim_wrap cps w sid sy cd nd h5 = Some (res, h6)" "counted h6 (M + add_mset sy e)"
      "\<forall>s. res = Some (Ret s) \<longrightarrow> s = sy \<and> sy \<in># M"
    using cim_wrap_counted[OF h5(2) o5(1,2) assms(5) o5(3) assms(6,7), of cps w sid] by (elim exE conjE) (rule that)
  have "\<forall>s. res = Some (Ret s) \<longrightarrow> 2 \<le> count (add_mset sy M) s"
  proof (intro allI impI)
    fix s assume "res = Some (Ret s)"
    then have "s = sy \<and> sy \<in># M" by (rule h6(3)[rule_format])
    then have "s = sy" "1 \<le> count M sy" by (simp_all add: count_greater_eq_one_iff)
    then show "2 \<le> count (add_mset sy M) s" by simp
  qed
  moreover have "counted h6 (add_mset sy M + e)" using h6(2) by (simp add: ac_simps)
  ultimately show ?thesis using h5(1) h6(1) by (intro exI[of _ res] exI[of _ h6] exI[of _ "add_mset sy M"]) simp
qed

text \<open>\<open>load_cim\<close> with a list of file names takes away the caller's reference to the list, on every
  path, errors included; and what it returns has a reference too many. If the counts are right for the
  references \<open>ext\<close> before the call, they are right afterwards for \<open>ext\<close> without the list and with the
  references \<open>M\<close> that were created; a returned topology is in \<open>M\<close> twice although the caller receives one
  reference.\<close>

theorem LoadCim_counts:
  assumes "counted h ext" and "l \<in># ext" and "obj_at h l = Some (PyList rs)" and "cim_files h rs = Some (Some files)"
  shows "\<exists>res h' w' M. LoadCim cps name l f ll (h, w) = Some (res, h', w') \<and> counted h' (M + (ext - {#l#}))
     \<and> (\<forall>s. res = Some (Ret s) \<longrightarrow> 2 \<le> count M s)"
proof -
  let ?e = "ext - {#l#}"
  have "counted h (mset [l] + ?e)" using assms(1,2) by simp
  then obtain h1 where h1: "decref l h = Some h1" "counted h1 ?e" using release_counted by blast
  show ?thesis
  proof (cases "files = []")
    case True
    have "LoadCim cps name l f ll (h, w) = Some (Some (Raise PyTypeError ''First argument must be filename or list of filenames''), h1, w)"
      unfolding LoadCim_def cim_names_def using assms(3,4) h1(1) True by simp
    then show ?thesis using h1(2) by (intro exI[of _ "{#}"] exI conjI) (assumption, simp_all)
  next
    case False
    obtain cd nd sy h2 h3 h4 where new: "py_alloc (PyDict []) h1 = (cd, h2)" "py_alloc (PyDict []) h2 = (nd, h3)"
      "py_alloc (PySystemTopology None cd nd) h3 = (sy, h4)" and h4: "counted h4 (add_mset sy ?e)"
      "obj_at h4 cd = Some (PyDict [])" "obj_at h4 nd = Some (PyDict [])" "obj_at h4 sy = Some (PySystemTopology None cd nd)"
      "cd \<noteq> nd" "sy \<noteq> cd" "sy \<noteq> nd"
      by (rule new_topology_object[OF h1(2)])
    have start: "LoadCim cps name l f ll (h, w) = (case loadCIM cps name ll f files w of
         (None, w) \<Rightarrow> Some (Some (Raise PyTypeError ''The topology of the CIM model is invalid''), h4, w)
       | (Some sys, w) \<Rightarrow> do {
           h \<leftarrow> put_obj sy (PySystemTopology (Some sys) cd nd) h4;
           (res, h) \<leftarrow> cim_wrap cps w sys sy cd nd h;
           Some (res, h, w) })"
      unfolding LoadCim_def cim_names_def using assms(3,4) h1(1) False new by simp
    obtain sys w' where ld: "loadCIM cps name ll f files w = (sys, w')" by fastforce
    show ?thesis
    proof (cases sys)
      case None
      then have "LoadCim cps name l f ll (h, w) = Some (Some (Raise PyTypeError ''The topology of the CIM model is invalid''), h4, w')"
        using start ld by simp
      then show ?thesis using h4(1) by (intro exI[of _ "{#sy#}"] exI conjI) (assumption, simp_all)
    next
      case (Some sid)
      show ?thesis
        unfolding start ld Some prod.case option.case using LoadCim_wraps[OF h4, of sid cps w'] by blast
    qed
  qed
qed

definition demo_cim_heap :: py_heap where
  "demo_cim_heap = [Some (PyList [1], 1), Some (PyStr ''grid.xml'', 1)]"

theorem LoadCim_counts_witness:
  "\<exists>res h' w' M. LoadCim demo_py ''sim'' 0 50 1 (demo_cim_heap, [2, 5]) = Some (res, h', w') \<and> counted h' M
     \<and> (\<forall>s. res = Some (Ret s) \<longrightarrow> 2 \<le> count M s)"
proof -
  have "counted demo_cim_heap {#0#}"
    by (auto simp: counted_def demo_cim_heap_def held_def refcnt_def cell_of_def less_Suc_eq nth_Cons split: nat.splits)
  moreover have "obj_at demo_cim_heap 0 = Some (PyList [1])" "cim_files demo_cim_heap [1] = Some (Some [''grid.xml''])"
    by (simp_all add: demo_cim_heap_def obj_at_def cell_of_def)
  ultimately show ?thesis using LoadCim_counts[of demo_cim_heap "{#0#}" 0 "[1]" "[''grid.xml'']" demo_py "''sim''" 50 1 "[2, 5]"] by auto
qed

end
