(* ===== verification/PySimulation.thy ===== *)
theory PySimulation
  imports Simulation
begin

text \<open>
  The simulation object of the Python module (\<open>Source/Python/Simulation.cpp\<close>,
  \<open>Include/dpsim/Python/Simulation.h\<close>) and its event channel (\<open>Source/Python/EventChannel.cpp\<close>).

  The object is controlled by two kinds of threads. The Python thread calls \<open>start\<close>, \<open>step\<close>,
  \<open>pause\<close> and \<open>stop\<close>; it holds the interpreter lock while it waits, so one call is active at a time.
  The simulation threads run \<open>threadFunction\<close>. Everything written to the state is written under the
  mutex, so a critical section is one action of the model; the two unlocked reads of the simulation
  thread are actions of their own. A thread that waits for the condition variable can go on only when
  its condition holds; the model does not need to know who is notified. How often the loop of the
  simulation thread runs is given by \<open>goes_on\<close>: whether the time after \<open>n\<close> steps is below the
  final time; whether a sleep overruns is chosen by the environment.
\<close>

section \<open>The event channel\<close>

record channel =
  mFds :: "int list"

definition addFd :: "int \<Rightarrow> channel \<Rightarrow> channel" where
  "addFd fd c = c\<lparr>mFds := mFds c @ [fd]\<rparr>"

definition removeFd :: "int \<Rightarrow> channel \<Rightarrow> channel" where
  "removeFd fd c = c\<lparr>mFds := filter (\<lambda>x. x \<noteq> fd) (mFds c)\<rparr>"

text \<open>\<open>send\<close> is the system call on an environment \<open>'n\<close>; the loop stops at the first error.\<close>

primrec send_all :: "(int \<Rightarrow> 32 word \<Rightarrow> 'n \<Rightarrow> int \<times> 'n) \<Rightarrow> 32 word \<Rightarrow> int list \<Rightarrow> 'n \<Rightarrow> 'n outcome" where
  "send_all snd_fn evt [] n = Ok n"
| "send_all snd_fn evt (fd # fds) n =
     (let (ret, n) = snd_fn fd evt n
      in if ret < 0 then Throw (SystemError ''Failed notify'') n else send_all snd_fn evt fds n)"

definition sendEvent :: "(int \<Rightarrow> 32 word \<Rightarrow> 'n \<Rightarrow> int \<times> 'n) \<Rightarrow> 32 word \<Rightarrow> channel \<Rightarrow> 'n \<Rightarrow> 'n outcome" where
  "sendEvent snd_fn evt c n = send_all snd_fn evt (mFds c) n"

section \<open>State\<close>

datatype py_state = Stopped | Starting | Running | Pausing | Paused | Resuming | Stopping | Failed | Overrun | Done

text \<open>The number sent for a state.\<close>

fun state_code :: "py_state \<Rightarrow> nat" where
  "state_code Stopped = 0"
| "state_code Starting = 1"
| "state_code Running = 2"
| "state_code Pausing = 3"
| "state_code Paused = 4"
| "state_code Resuming = 5"
| "state_code Stopping = 6"
| "state_code Failed = 7"
| "state_code Overrun = 8"
| "state_code Done = 9"

text \<open>Where a simulation thread is: before the loop; at its condition; after \<open>step\<close>, before the
  overrun is handled; before the test for the first step; before the unlocked read for pausing;
  before taking the lock to pause; waiting while paused; before the unlocked read for stopping;
  before taking the lock to stop; after the loop; before the interfaces are closed.\<close>

datatype wpc = WFresh | WLoop | WSlept | WFirst | WCheck | WPauseLock | WPaused | WStopCheck | WStopLock | WFinish | WClose

text \<open>What a simulation thread does to the simulation it drives.\<close>

datatype wact = OpenInterfaces | Sync | StartTimer | DoStep | Sleep | CloseInterfaces | FlushLoggers

text \<open>What the Python thread is waiting for.\<close>

datatype cpc = CIdle | CStart | CPause | CStop

text \<open>\<open>ps_count\<close> is the step count of the simulation. \<open>done_acts\<close> are the calls the simulation
  threads made; \<open>sent\<close> collects the states announced on the channel; \<open>threads\<close> are the live simulation
  threads and \<open>doubled\<close> records whether one was ever created beside a live one.\<close>

record py_sim =
  ps_state :: py_state
  ps_single :: bool
  ps_startSync :: bool
  ps_realTime :: bool
  ps_failOnOverrun :: bool
  ps_count :: nat
  ps_caller :: cpc
  threads :: "wpc list"
  doubled :: bool
  sent :: "nat list"
  done_acts :: "wact list"

definition newState :: "py_state \<Rightarrow> py_sim \<Rightarrow> py_sim" where
  "newState st s = s\<lparr>sent := sent s @ [state_code st], ps_state := st\<rparr>"

section \<open>Construction\<close>

text \<open>The arguments of \<open>__init__\<close> that decide about the control of the simulation, by keyword.\<close>

record init_args =
  kw_start_time :: "64 word"
  kw_start_time_us :: "64 word"
  kw_sim_type :: int
  kw_solver_type :: int
  kw_single_stepping :: bool
  kw_rt :: bool
  kw_start_sync :: bool
  kw_fail_on_overrun :: bool

definition init_defaults :: init_args where
  "init_defaults = \<lparr>kw_start_time = -1, kw_start_time_us = 0, kw_sim_type = 0, kw_solver_type = 0,
     kw_single_stepping = False, kw_rt = False, kw_start_sync = False, kw_fail_on_overrun = False\<rparr>"

text \<open>\<open>init\<close>: the variable \<open>ss\<close> receives \<open>single_stepping\<close> and \<open>st\<close> receives \<open>start_sync\<close>;
  then \<open>startSync = ss\<close> and \<open>singleStepping = st\<close>. The result is the error message, or the object
  with its domain, solver type and start time in microseconds (\<open>now\<close> is the clock).\<close>

definition py_init :: "bool \<Rightarrow> int \<Rightarrow> init_args \<Rightarrow> string + (py_sim \<times> domain \<times> solver_type \<times> int)" where
  "py_init is_system now a =
     (let ss = kw_single_stepping a; st = kw_start_sync a;
          s = \<lparr>ps_state = Stopped, ps_single = st, ps_startSync = ss, ps_realTime = kw_rt a,
               ps_failOnOverrun = kw_fail_on_overrun a, ps_count = 0, ps_caller = CIdle, threads = [],
               doubled = False, sent = [], done_acts = []\<rparr>;
          start = (if kw_start_time a > 0 then sint (kw_start_time a) * 1000000 + uint (kw_start_time_us a) else now)
      in if kw_sim_type a \<noteq> 0 \<and> kw_sim_type a \<noteq> 1 then Inl ''Invalid sim_type argument (must be 0 or 1)''
         else if kw_solver_type a \<noteq> 0 \<and> kw_solver_type a \<noteq> 1 then Inl ''Invalid solver_type argument (must be 0 or 1)''
         else if \<not> is_system then Inl ''Argument system must be dpsim.SystemTopology''
         else Inr (s, if kw_sim_type a = 0 then DP else EMT, if kw_solver_type a = 0 then MNA else DAE, start))"

section \<open>The calls of the Python thread\<close>

text \<open>A call raises, returns, or (its critical section over) waits.\<close>

datatype call_result = Returned | Raised string | Waits

definition new_thread :: "py_sim \<Rightarrow> py_sim" where
  "new_thread s = s\<lparr>threads := threads s @ [WFresh], doubled := doubled s \<or> threads s \<noteq> []\<rparr>"

definition py_pause :: "py_sim \<Rightarrow> call_result \<times> py_sim" where
  "py_pause s =
     (if ps_state s \<noteq> Running then (Raised ''Simulation not currently running'', s)
      else (Waits, (newState Pausing s)\<lparr>ps_caller := CPause\<rparr>))"

definition py_start :: "py_sim \<Rightarrow> call_result \<times> py_sim" where
  "py_start s =
     (let s = s\<lparr>ps_single := False\<rparr>
      in if ps_state s = Running then (Raised ''Simulation already started'', s)
         else if ps_state s = Done then (Raised ''Simulation already finished'', s)
         else if ps_state s = Paused then (Waits, (newState Resuming s)\<lparr>ps_caller := CStart\<rparr>)
         else (Waits, (new_thread (newState Starting s))\<lparr>ps_caller := CStart\<rparr>))"

text \<open>\<open>step\<close> waits \<open>while (state == running)\<close>, which its own critical section makes false.\<close>

definition py_step :: "py_sim \<Rightarrow> call_result \<times> py_sim" where
  "py_step s =
     (let s = s\<lparr>ps_single := True\<rparr>
      in if ps_state s = Stopped then (Returned, new_thread (newState Starting s))
         else if ps_state s = Paused then (Returned, newState Resuming s)
         else if ps_state s = Done then (Raised ''Simulation already finished'', s)
         else (Raised ''Simulation currently running'', s))"

definition py_stop :: "py_sim \<Rightarrow> call_result \<times> py_sim" where
  "py_stop s =
     (if ps_state s \<noteq> Running \<and> ps_state s \<noteq> Paused then (Raised ''Simulation currently not running'', s)
      else (Waits, (newState Stopping s)\<lparr>ps_caller := CStop\<rparr>))"

text \<open>The condition a waiting call waits for.\<close>

fun call_done :: "cpc \<Rightarrow> py_state \<Rightarrow> bool" where
  "call_done CIdle st = False"
| "call_done CStart st = (st = Running)"
| "call_done CPause st = (st = Paused)"
| "call_done CStop st = (st = Stopped)"

section \<open>The simulation thread\<close>

text \<open>One action of a simulation thread: its new place (\<open>None\<close>: it has ended) and the object, or
  \<open>None\<close> if it has to wait.\<close>

definition act :: "wact list \<Rightarrow> py_sim \<Rightarrow> py_sim" where
  "act as s = s\<lparr>done_acts := done_acts s @ as\<rparr>"

text \<open>The condition of the loop and, if it holds, the call of \<open>step\<close> and (in real time) of \<open>sleep\<close>.
  The first test of a thread compares the time 0, whatever the time of the simulation is.\<close>

definition thread_loop :: "bool \<Rightarrow> py_sim \<Rightarrow> wpc option \<times> py_sim" where
  "thread_loop go_on s =
     (if go_on then (Some WSlept, act (DoStep # (if ps_realTime s then [Sleep] else [])) (s\<lparr>ps_count := Suc (ps_count s)\<rparr>))
      else (Some WFinish, s))"

definition thread_prepare :: "py_sim \<Rightarrow> py_sim" where
  "thread_prepare s =
     act (OpenInterfaces # (if ps_startSync s then [Sync] else []) @ (if ps_realTime s then [StartTimer] else [])) s"

definition thread_step :: "(nat \<Rightarrow> bool) \<Rightarrow> bool \<Rightarrow> wpc \<Rightarrow> py_sim \<Rightarrow> (wpc option \<times> py_sim) option" where
  "thread_step goes_on overrun w s =
     (case w of
        WFresh \<Rightarrow> Some (thread_loop (goes_on 0) (thread_prepare s))
      | WLoop \<Rightarrow> Some (thread_loop (goes_on (ps_count s)) s)
      | WSlept \<Rightarrow> Some (Some WFirst, if ps_realTime s \<and> overrun \<and> ps_failOnOverrun s then newState Overrun s else s)
      | WFirst \<Rightarrow> Some (Some WCheck, if ps_count s = 1 then newState Running s else s)
      | WCheck \<Rightarrow> Some (Some (if ps_state s = Pausing \<or> ps_single s then WPauseLock else WStopCheck), s)
      | WPauseLock \<Rightarrow> Some (Some WPaused, newState Paused s)
      | WPaused \<Rightarrow> (if ps_state s = Paused then None
                    else Some (Some WStopCheck, if ps_state s = Resuming then newState Running s else s))
      | WStopCheck \<Rightarrow> Some (Some (if ps_state s = Stopping then WStopLock else WLoop), s)
      | WStopLock \<Rightarrow> Some (None, newState Stopped s)
      | WFinish \<Rightarrow> Some (Some WClose, newState Done s)
      | WClose \<Rightarrow> Some (None, act [CloseInterfaces, FlushLoggers] s))"

definition put_thread :: "nat \<Rightarrow> wpc option \<Rightarrow> py_sim \<Rightarrow> py_sim" where
  "put_thread i w s = (case w of
      None \<Rightarrow> s\<lparr>threads := take i (threads s) @ drop (Suc i) (threads s)\<rparr>
    | Some w \<Rightarrow> s\<lparr>threads := (threads s)[i := w]\<rparr>)"

text \<open>All interleavings.\<close>

inductive py_trans :: "(nat \<Rightarrow> bool) \<Rightarrow> py_sim \<Rightarrow> py_sim \<Rightarrow> bool" for goes_on where
  call_pause: "ps_caller s = CIdle \<Longrightarrow> py_trans goes_on s (snd (py_pause s))"
| call_start: "ps_caller s = CIdle \<Longrightarrow> py_trans goes_on s (snd (py_start s))"
| call_step: "ps_caller s = CIdle \<Longrightarrow> py_trans goes_on s (snd (py_step s))"
| call_stop: "ps_caller s = CIdle \<Longrightarrow> py_trans goes_on s (snd (py_stop s))"
| call_return: "call_done (ps_caller s) (ps_state s) \<Longrightarrow> py_trans goes_on s (s\<lparr>ps_caller := CIdle\<rparr>)"
| thread: "i < length (threads s) \<Longrightarrow> thread_step goes_on ov (threads s ! i) s = Some (w, s') \<Longrightarrow>
     py_trans goes_on s (put_thread i w s')"

inductive_cases py_transE: "py_trans goes_on s t"

abbreviation py_reach :: "(nat \<Rightarrow> bool) \<Rightarrow> py_sim \<Rightarrow> py_sim \<Rightarrow> bool" where
  "py_reach goes_on \<equiv> (py_trans goes_on)\<^sup>*\<^sup>*"

text \<open>A freshly created object.\<close>

definition py_fresh :: "py_sim \<Rightarrow> bool" where
  "py_fresh s \<longleftrightarrow> ps_state s = Stopped \<and> ps_caller s = CIdle \<and> threads s = [] \<and> \<not> doubled s \<and> ps_count s = 0"

section \<open>Executable schedules\<close>

datatype py_act = APause | AStart | AStep | AStop | AReturn | AThread nat bool

fun py_exec :: "(nat \<Rightarrow> bool) \<Rightarrow> py_act \<Rightarrow> py_sim \<Rightarrow> py_sim option" where
  "py_exec g APause s = (if ps_caller s = CIdle then Some (snd (py_pause s)) else None)"
| "py_exec g AStart s = (if ps_caller s = CIdle then Some (snd (py_start s)) else None)"
| "py_exec g AStep s = (if ps_caller s = CIdle then Some (snd (py_step s)) else None)"
| "py_exec g AStop s = (if ps_caller s = CIdle then Some (snd (py_stop s)) else None)"
| "py_exec g AReturn s = (if call_done (ps_caller s) (ps_state s) then Some (s\<lparr>ps_caller := CIdle\<rparr>) else None)"
| "py_exec g (AThread i ov) s =
     (if i < length (threads s) then map_option (\<lambda>(w, s'). put_thread i w s') (thread_step g ov (threads s ! i) s) else None)"

primrec py_execs :: "(nat \<Rightarrow> bool) \<Rightarrow> py_act list \<Rightarrow> py_sim \<Rightarrow> py_sim option" where
  "py_execs g [] s = Some s"
| "py_execs g (a # as) s = (case py_exec g a s of None \<Rightarrow> None | Some t \<Rightarrow> py_execs g as t)"

lemma py_exec_trans: "py_exec g a s = Some t \<Longrightarrow> py_trans g s t"
  by (cases a) (auto split: if_splits intro: py_trans.intros)

lemma py_execs_reach: "py_execs g as s = Some t \<Longrightarrow> py_reach g s t"
  by (induction as arbitrary: s)
     (auto split: option.splits dest!: py_exec_trans intro: converse_rtranclp_into_rtranclp)

text \<open>A state that nothing can leave.\<close>

lemma deadlockI:
  assumes "ps_caller s \<noteq> CIdle" and "\<not> call_done (ps_caller s) (ps_state s)"
    and "\<forall>w \<in> set (threads s). \<forall>ov. thread_step g ov w s = None"
  shows "\<nexists>t. py_trans g s t"
proof
  assume "\<exists>t. py_trans g s t"
  then obtain t where "py_trans g s t" ..
  then show False using assms by cases auto
qed

definition py_start_state :: py_sim where
  "py_start_state = \<lparr>ps_state = Stopped, ps_single = False, ps_startSync = False, ps_realTime = False,
     ps_failOnOverrun = False, ps_count = 0, ps_caller = CIdle, threads = [], doubled = False, sent = [], done_acts = []\<rparr>"

lemmas py_run_simps = py_start_state_def py_pause_def py_start_def py_step_def py_stop_def newState_def
  new_thread_def thread_step_def thread_loop_def thread_prepare_def act_def put_thread_def

section \<open>Calls that never return\<close>

text \<open>C37: \<open>pause\<close>, \<open>stop\<close> and \<open>start\<close> can wait forever. (a) \<open>pause\<close> called while the last step is
  being made: the thread ends the simulation without looking at the state again. (b) \<open>start\<close> for a
  simulation that ends before the call sees \<open>running\<close>. (c) \<open>stop\<close> in single step mode: the thread
  has decided to pause before it takes the lock and overwrites \<open>stopping\<close> with \<open>paused\<close>. In each
  case a state is reachable in which the call waits and no thread can do anything.\<close>

theorem calls_can_deadlock:
  "(\<exists>s. py_reach (\<lambda>n. n < 1) py_start_state s \<and> ps_caller s = CPause \<and> (\<nexists>t. py_trans (\<lambda>n. n < 1) s t))
   \<and> (\<exists>s. py_reach (\<lambda>n. n < 1) py_start_state s \<and> ps_caller s = CStart \<and> (\<nexists>t. py_trans (\<lambda>n. n < 1) s t))
   \<and> (\<exists>s. py_reach (\<lambda>n. True) py_start_state s \<and> ps_caller s = CStop \<and> (\<nexists>t. py_trans (\<lambda>n. True) s t))"
proof -
  let ?t = "AThread 0 False"
  have 1: "\<exists>s. py_execs (\<lambda>n. n < 1) [AStart, ?t, ?t, ?t, AReturn, ?t, APause, ?t, ?t, ?t, ?t] py_start_state = Some s
      \<and> ps_caller s = CPause \<and> threads s = [] \<and> ps_state s = Done"
    by (simp add: py_run_simps)
  have 2: "\<exists>s. py_execs (\<lambda>n. n < 1) [AStart, ?t, ?t, ?t, ?t, ?t, ?t, ?t, ?t] py_start_state = Some s
      \<and> ps_caller s = CStart \<and> threads s = [] \<and> ps_state s = Done"
    by (simp add: py_run_simps)
  have 3: "\<exists>s. py_execs (\<lambda>n. True) [AStep, ?t, ?t, ?t, ?t, AStop, ?t] py_start_state = Some s
      \<and> ps_caller s = CStop \<and> threads s = [WPaused] \<and> ps_state s = Paused"
    by (simp add: py_run_simps)
  have "\<nexists>t. py_trans g s t" if "ps_caller s = CPause \<or> ps_caller s = CStart" "threads s = []" "ps_state s = Done" for g s
    using that by (intro deadlockI) auto
  moreover have "\<nexists>t. py_trans g s t" if "ps_caller s = CStop" "threads s = [WPaused]" "ps_state s = Paused" for g s
    using that by (intro deadlockI) (auto simp: thread_step_def)
  ultimately show ?thesis using 1 2 3 py_execs_reach by meson
qed

text \<open>two simulation threads can run at once. \<open>step\<close> returns without waiting, so a following
  \<open>start\<close> finds the state \<open>starting\<close>, for which it creates another thread on the same simulation
  and forgets the first one.\<close>

theorem two_threads_reachable:
  "\<exists>s. py_reach g py_start_state s \<and> threads s = [WFresh, WFresh] \<and> ps_caller s = CStart"
proof -
  have "\<exists>s. py_execs g [AStep, AStart] py_start_state = Some s \<and> threads s = [WFresh, WFresh] \<and> ps_caller s = CStart"
    by (simp add: py_run_simps)
  then show ?thesis using py_execs_reach by meson
qed

section \<open>The handshake of one simulation thread\<close>

text \<open>The relation between the state and the place of the thread, for as long as no second thread
  was created.\<close>

fun place_ok :: "py_state \<Rightarrow> wpc list \<Rightarrow> bool" where
  "place_ok st [] \<longleftrightarrow> st \<in> {Stopped, Done}"
| "place_ok st [WPaused] \<longleftrightarrow> st \<in> {Paused, Resuming, Stopping}"
| "place_ok st [WClose] \<longleftrightarrow> st = Done"
| "place_ok st [w] \<longleftrightarrow> st \<notin> {Paused, Stopped, Done}"
| "place_ok st _ \<longleftrightarrow> False"

definition py_inv :: "py_sim \<Rightarrow> bool" where
  "py_inv s \<longleftrightarrow> place_ok (ps_state s) (threads s)"

text \<open>Where the thread is when the state does not tell.\<close>

lemma place_ok_single: "place_ok st ts \<longleftrightarrow>
    ts = [] \<and> st \<in> {Stopped, Done}
  \<or> (\<exists>w. ts = [w] \<and> (if w = WPaused then st \<in> {Paused, Resuming, Stopping} else if w = WClose then st = Done
        else st \<notin> {Paused, Stopped, Done}))"
  by (cases "(st, ts)" rule: place_ok.cases) auto

lemma newState_simps [simp]:
  "ps_state (newState st s) = st" "threads (newState st s) = threads s" "doubled (newState st s) = doubled s"
  "ps_count (newState st s) = ps_count s" "ps_single (newState st s) = ps_single s"
  "ps_caller (newState st s) = ps_caller s" "done_acts (newState st s) = done_acts s"
  "ps_realTime (newState st s) = ps_realTime s"
  by (simp_all add: newState_def)

lemma act_simps [simp]:
  "ps_state (act as s) = ps_state s" "threads (act as s) = threads s" "doubled (act as s) = doubled s"
  "ps_count (act as s) = ps_count s" "ps_single (act as s) = ps_single s" "ps_caller (act as s) = ps_caller s"
  "ps_realTime (act as s) = ps_realTime s"
  by (simp_all add: act_def)

lemmas py_call_defs = py_pause_def py_start_def py_step_def py_stop_def new_thread_def Let_def

text \<open>What the calls do to the state and the threads.\<close>

lemma py_pause_effect:
  "ps_state (snd (py_pause s)) = (if ps_state s = Running then Pausing else ps_state s)"
  "threads (snd (py_pause s)) = threads s"
  by (simp_all add: py_pause_def)

lemma py_stop_effect:
  "ps_state (snd (py_stop s)) = (if ps_state s = Running \<or> ps_state s = Paused then Stopping else ps_state s)"
  "threads (snd (py_stop s)) = threads s"
  by (simp_all add: py_stop_def)

lemma py_step_effect:
  "ps_state (snd (py_step s)) = (if ps_state s = Stopped then Starting else if ps_state s = Paused then Resuming else ps_state s)"
  "threads (snd (py_step s)) = (if ps_state s = Stopped then threads s @ [WFresh] else threads s)"
  by (simp_all add: py_step_def new_thread_def Let_def)

lemma py_start_effect:
  "ps_state (snd (py_start s)) = (if ps_state s \<in> {Running, Done} then ps_state s
     else if ps_state s = Paused then Resuming else Starting)"
  "threads (snd (py_start s)) = (if ps_state s \<in> {Running, Done, Paused} then threads s else threads s @ [WFresh])"
  "doubled (snd (py_start s)) = (doubled s \<or> ps_state s \<notin> {Running, Done, Paused} \<and> threads s \<noteq> [])"
  by (simp_all add: py_start_def new_thread_def Let_def)

lemma py_inv_pause: "py_inv s \<Longrightarrow> py_inv (snd (py_pause s))"
  unfolding py_inv_def py_pause_effect
  by (cases "(ps_state s, threads s)" rule: place_ok.cases) auto

lemma py_inv_stop: "py_inv s \<Longrightarrow> py_inv (snd (py_stop s))"
  unfolding py_inv_def py_stop_effect
  by (cases "(ps_state s, threads s)" rule: place_ok.cases) auto

lemma py_inv_step: "py_inv s \<Longrightarrow> py_inv (snd (py_step s))"
  unfolding py_inv_def py_step_effect
  by (cases "(ps_state s, threads s)" rule: place_ok.cases) auto

lemma py_inv_start: "py_inv s \<Longrightarrow> \<not> doubled (snd (py_start s)) \<Longrightarrow> py_inv (snd (py_start s))"
  unfolding py_inv_def py_start_effect
  by (cases "(ps_state s, threads s)" rule: place_ok.cases) auto

lemma calls_keep_doubled:
  "doubled s \<Longrightarrow> doubled (snd (py_pause s))" "doubled s \<Longrightarrow> doubled (snd (py_start s))"
  "doubled s \<Longrightarrow> doubled (snd (py_step s))" "doubled s \<Longrightarrow> doubled (snd (py_stop s))"
  by (simp_all add: py_call_defs)

lemma thread_step_keeps: "thread_step g ov w s = Some (w', s') \<Longrightarrow> threads s' = threads s \<and> doubled s' = doubled s"
  by (cases w) (auto simp: thread_step_def thread_loop_def thread_prepare_def split: if_splits)

lemma thread_step_place:
  assumes "thread_step g ov w s = Some (w', s')" and "place_ok (ps_state s) [w]"
  shows "place_ok (ps_state s') (case w' of None \<Rightarrow> [] | Some v \<Rightarrow> [v])"
  using assms by (cases w) (auto simp: thread_step_def thread_loop_def thread_prepare_def split: if_splits)

lemma py_inv_thread:
  assumes "py_inv s" and "i < length (threads s)" and "thread_step g ov (threads s ! i) s = Some (w, s')"
  shows "py_inv (put_thread i w s')"
proof -
  from assms(1,2) obtain v where v: "threads s = [v]" "i = 0" by (auto simp: py_inv_def place_ok_single)
  have "threads s' = [v]" using thread_step_keeps[OF assms(3)] v by simp
  moreover have "place_ok (ps_state s') (case w of None \<Rightarrow> [] | Some u \<Rightarrow> [u])"
    using thread_step_place[of g ov v s w s'] assms(1,3) v by (simp add: py_inv_def)
  ultimately show ?thesis using v(2) by (simp add: py_inv_def put_thread_def split: option.splits)
qed

lemma py_inv_trans:
  assumes "py_trans g s t" and "\<not> doubled s \<longrightarrow> py_inv s" and "\<not> doubled t"
  shows "py_inv t"
  using assms(1)
proof cases
  case (thread i ov w s')
  have "doubled s = doubled t" using thread_step_keeps[OF thread(3)] thread(1) by (auto simp: put_thread_def split: option.splits)
  with thread assms show ?thesis using py_inv_thread by blast
next
  case call_return
  with assms show ?thesis by (simp add: py_inv_def)
next
  case call_start
  with assms show ?thesis using calls_keep_doubled(2) py_inv_start by blast
qed (use assms calls_keep_doubled py_inv_pause py_inv_stop py_inv_step in blast)+

lemma py_inv_reach:
  assumes "py_reach g s0 s" and "py_fresh s0" and "\<not> doubled s"
  shows "py_inv s"
proof -
  have "\<not> doubled s \<longrightarrow> py_inv s" using assms(1)
  proof (induction rule: rtranclp_induct)
    case base then show ?case using assms(2) by (simp add: py_fresh_def py_inv_def)
  next
    case (step t u) then show ?case using py_inv_trans by blast
  qed
  with assms(3) show ?thesis by simp
qed


definition paused_example :: py_sim where
  "paused_example = the (py_execs (\<lambda>n. True) [AStart, AThread 0 False, AThread 0 False, AThread 0 False, AReturn,
     APause, AThread 0 False, AThread 0 False, AReturn] py_start_state)"


text \<open>\<open>step\<close> on a paused simulation makes exactly one step. After the call the thread runs, if left
  alone, through one iteration: it makes one step (and one sleep in real time), announces \<open>running\<close>
  and \<open>paused\<close>, and waits again. The call itself returns at once, before any of this.\<close>

theorem step_makes_one_step:
  assumes "ps_state s = Paused" and "threads s = [WPaused]" and "ps_caller s = CIdle"
    and "0 < ps_count s" and "g (ps_count s)"
  shows "fst (py_step s) = Returned
    \<and> (\<exists>t. py_execs g (AStep # replicate 7 (AThread 0 False)) s = Some t \<and> ps_state t = Paused \<and> threads t = [WPaused]
      \<and> ps_count t = Suc (ps_count s) \<and> ps_caller t = CIdle \<and> sent t = sent s @ map state_code [Resuming, Running, Paused]
      \<and> done_acts t = done_acts s @ DoStep # (if ps_realTime s then [Sleep] else []))"
proof
  show "fst (py_step s) = Returned" using assms(1) by (simp add: py_step_def)
  show "\<exists>t. py_execs g (AStep # replicate 7 (AThread 0 False)) s = Some t \<and> ps_state t = Paused \<and> threads t = [WPaused]
      \<and> ps_count t = Suc (ps_count s) \<and> ps_caller t = CIdle \<and> sent t = sent s @ map state_code [Resuming, Running, Paused]
      \<and> done_acts t = done_acts s @ DoStep # (if ps_realTime s then [Sleep] else [])"
    using assms by (simp add: py_run_simps numeral_eq_Suc)
qed

theorem step_makes_one_step_witness:
  "\<exists>t. py_execs (\<lambda>n. True) (AStep # replicate 7 (AThread 0 False)) paused_example = Some t \<and> ps_state t = Paused
     \<and> ps_count paused_example = 1 \<and> ps_count t = 2 \<and> done_acts t = done_acts paused_example @ [DoStep]"
proof -
  have "ps_state paused_example = Paused" "threads paused_example = [WPaused]" "ps_caller paused_example = CIdle"
    "ps_count paused_example = 1" "\<not> ps_realTime paused_example"
    by (simp_all add: paused_example_def py_run_simps)
  then show ?thesis using step_makes_one_step[of paused_example "\<lambda>n. True"] by auto
qed

section \<open>The end of a simulation\<close>

text \<open>Interfaces are closed and loggers flushed at the end of the loop only.\<close>

definition not_cleaned :: "py_sim \<Rightarrow> bool" where
  "not_cleaned s \<longleftrightarrow> ps_state s \<noteq> Done \<longrightarrow> CloseInterfaces \<notin> set (done_acts s) \<and> FlushLoggers \<notin> set (done_acts s)"

lemma call_acts:
  "done_acts (snd (py_pause s)) = done_acts s" "done_acts (snd (py_start s)) = done_acts s"
  "done_acts (snd (py_step s)) = done_acts s" "done_acts (snd (py_stop s)) = done_acts s"
  by (simp_all add: py_call_defs)

lemma call_keeps_Done:
  "ps_state s = Done \<Longrightarrow> ps_state (snd (py_pause s)) = Done" "ps_state s = Done \<Longrightarrow> ps_state (snd (py_start s)) = Done"
  "ps_state s = Done \<Longrightarrow> ps_state (snd (py_step s)) = Done" "ps_state s = Done \<Longrightarrow> ps_state (snd (py_stop s)) = Done"
  by (simp_all add: py_pause_effect py_start_effect py_step_effect py_stop_effect)

lemma not_cleaned_thread_step:
  assumes "thread_step g ov w s = Some (w', s')" and "place_ok (ps_state s) [w]" and "not_cleaned s"
  shows "not_cleaned s'"
  using assms by (cases w) (auto simp: not_cleaned_def thread_step_def thread_loop_def thread_prepare_def act_def split: if_splits)

lemma put_thread_keeps [simp]: "ps_state (put_thread i w s) = ps_state s" "done_acts (put_thread i w s) = done_acts s"
  "doubled (put_thread i w s) = doubled s"
  by (auto simp: put_thread_def split: option.splits)

lemma not_cleaned_trans:
  assumes "py_trans g s t" and "py_inv s" and "not_cleaned s"
  shows "not_cleaned t"
  using assms(1)
proof cases
  case (thread i ov w s')
  obtain v where "threads s = [v]" "i = 0" using assms(2) thread(2) by (auto simp: py_inv_def place_ok_single)
  then have "not_cleaned s'" using not_cleaned_thread_step[of g ov v s w s'] thread(3) assms(2,3) by (simp add: py_inv_def)
  then show ?thesis using thread(1) by (simp add: not_cleaned_def)
qed (use assms(3) call_acts call_keeps_Done in \<open>auto simp: not_cleaned_def\<close>)

lemma trans_keeps_doubled: "py_trans g s t \<Longrightarrow> doubled s \<Longrightarrow> doubled t"
  by (cases rule: py_trans.cases) (auto dest: thread_step_keeps calls_keep_doubled)

text \<open>a simulation that is stopped never closes its interfaces and never flushes its loggers. Along
  every interleaving without a second thread, closing and flushing happen only when the state is
  \<open>done\<close>; a thread that sees \<open>stopping\<close> returns before them, although it had opened the interfaces.\<close>

theorem stop_leaves_interfaces_open:
  assumes "py_fresh s0" and "done_acts s0 = []" and "py_reach g s0 s" and "\<not> doubled s" and "ps_state s \<noteq> Done"
  shows "CloseInterfaces \<notin> set (done_acts s) \<and> FlushLoggers \<notin> set (done_acts s)"
proof -
  have "\<not> doubled s \<longrightarrow> not_cleaned s" using assms(3)
  proof (induction rule: rtranclp_induct)
    case base then show ?case using assms(2) by (simp add: not_cleaned_def)
  next
    case (step t u)
    show ?case
    proof
      assume "\<not> doubled u"
      then have "\<not> doubled t" using trans_keeps_doubled step.hyps(2) by blast
      then show "not_cleaned u"
        using not_cleaned_trans[OF step.hyps(2) py_inv_reach[OF step.hyps(1) assms(1)]] step.IH by blast
    qed
  qed
  with assms(4,5) show ?thesis by (simp add: not_cleaned_def)
qed

definition stopped_example :: py_sim where
  "stopped_example = the (py_execs (\<lambda>n. True) [AStart, AThread 0 False, AThread 0 False, AThread 0 False, AReturn,
     AStop, AThread 0 False, AThread 0 False, AThread 0 False, AReturn] py_start_state)"

theorem stop_leaves_interfaces_open_witness:
  "py_reach (\<lambda>n. True) py_start_state stopped_example \<and> ps_state stopped_example = Stopped
   \<and> OpenInterfaces \<in> set (done_acts stopped_example) \<and> CloseInterfaces \<notin> set (done_acts stopped_example)"
proof -
  have ex: "py_execs (\<lambda>n. True) [AStart, AThread 0 False, AThread 0 False, AThread 0 False, AReturn,
     AStop, AThread 0 False, AThread 0 False, AThread 0 False, AReturn] py_start_state = Some stopped_example"
    by (simp add: stopped_example_def py_run_simps)
  have r: "py_reach (\<lambda>n. True) py_start_state stopped_example" by (rule py_execs_reach[OF ex])
  have s: "ps_state stopped_example = Stopped" "\<not> doubled stopped_example" "OpenInterfaces \<in> set (done_acts stopped_example)"
    by (simp_all add: stopped_example_def py_run_simps)
  have f: "py_fresh py_start_state" "done_acts py_start_state = []" by (simp_all add: py_fresh_def py_start_state_def)
  from stop_leaves_interfaces_open[OF f r s(2)] s r show ?thesis by simp
qed

section \<open>Construction and the first call\<close>

text \<open>the keyword \<open>start_sync\<close> has no effect and \<open>single_stepping\<close> takes its place. Two objects
  constructed with arguments that differ in \<open>start_sync\<close> only behave alike from the first call on;
  the thread synchronises its start exactly if \<open>single_stepping\<close> was given.\<close>

theorem start_sync_has_no_effect:
  assumes "py_init True now a = Inr (s, d, ty, st)" and "py_init True now (a\<lparr>kw_start_sync := b\<rparr>) = Inr (s', d', ty', st')"
  shows "(d', ty', st') = (d, ty, st) \<and> py_start s' = py_start s \<and> py_step s' = py_step s
    \<and> fst (py_pause s') = fst (py_pause s) \<and> fst (py_stop s') = fst (py_stop s)
    \<and> (Sync \<in> set (done_acts (thread_prepare (snd (py_start s)))) \<longleftrightarrow> kw_single_stepping a)"
  using assms
  by (auto simp: py_init_def py_start_def py_step_def py_pause_def py_stop_def newState_def new_thread_def Let_def
      thread_prepare_def act_def split: if_splits)

theorem start_sync_has_no_effect_witness:
  "\<exists>s s' d ty st. py_init True 0 (init_defaults\<lparr>kw_start_sync := True\<rparr>) = Inr (s, d, ty, st)
     \<and> py_init True 0 init_defaults = Inr (s', d, ty, st) \<and> py_start s' = py_start s
     \<and> Sync \<notin> set (done_acts (thread_prepare (snd (py_start s))))"
proof -
  obtain s d ty st where 1: "py_init True 0 (init_defaults\<lparr>kw_start_sync := True\<rparr>) = Inr (s, d, ty, st)"
    by (simp add: py_init_def init_defaults_def Let_def)
  obtain s' d' ty' st' where 2: "py_init True 0 (init_defaults\<lparr>kw_start_sync := True\<rparr>\<lparr>kw_start_sync := False\<rparr>) = Inr (s', d', ty', st')"
    by (simp add: py_init_def init_defaults_def Let_def)
  have "py_init True 0 init_defaults = Inr (s', d', ty', st')" using 2 by (simp add: init_defaults_def)
  then show ?thesis using start_sync_has_no_effect[OF 1 2] 1 by (auto simp: init_defaults_def)
qed

section \<open>The contract of the control interface\<close>

text \<open>What the documentation of \<open>start\<close>, \<open>step\<close>, \<open>pause\<close> and \<open>stop\<close> promises: a simulation is idle,
  running, halted or finished, and makes steps only while it is running.\<close>

datatype ctl_mode = Idle | Active | Halted | Finished

inductive ctl_step :: "ctl_mode \<times> nat \<Rightarrow> ctl_mode \<times> nat \<Rightarrow> bool" where
  ctl_start: "ctl_step (Idle, n) (Active, n)"
| ctl_tick: "ctl_step (Active, n) (Active, Suc n)"
| ctl_pause: "ctl_step (Active, n) (Halted, n)"
| ctl_resume: "ctl_step (Halted, n) (Active, n)"
| ctl_stop: "ctl_step (Active, n) (Idle, n)"
| ctl_finish: "ctl_step (Active, n) (Finished, n)"

inductive_simps ctl_step_simps: "ctl_step (m, n) (m', n')"

fun ctl_abs :: "py_state \<Rightarrow> ctl_mode" where
  "ctl_abs Stopped = Idle"
| "ctl_abs Paused = Halted"
| "ctl_abs Done = Finished"
| "ctl_abs _ = Active"

definition ctl_of :: "py_sim \<Rightarrow> ctl_mode \<times> nat" where
  "ctl_of s = (ctl_abs (ps_state s), ps_count s)"

lemma call_counts:
  "ps_count (snd (py_pause s)) = ps_count s" "ps_count (snd (py_start s)) = ps_count s"
  "ps_count (snd (py_step s)) = ps_count s" "ps_count (snd (py_stop s)) = ps_count s"
  by (simp_all add: py_call_defs)

text \<open>A call changes the mode at most the way the contract says.\<close>

lemma ctl_pause_call: "ctl_of (snd (py_pause s)) = ctl_of s"
  by (simp add: ctl_of_def call_counts py_pause_effect)

lemma ctl_stop_call: "ctl_of (snd (py_stop s)) = ctl_of s \<or> ctl_step (ctl_of s) (ctl_of (snd (py_stop s)))"
  by (auto simp: ctl_of_def call_counts py_stop_effect ctl_step_simps)

lemma ctl_step_call: "ctl_of (snd (py_step s)) = ctl_of s \<or> ctl_step (ctl_of s) (ctl_of (snd (py_step s)))"
  by (auto simp: ctl_of_def call_counts py_step_effect ctl_step_simps)

lemma ctl_start_call: "ctl_of (snd (py_start s)) = ctl_of s \<or> ctl_step (ctl_of s) (ctl_of (snd (py_start s)))"
  by (cases "ps_state s") (auto simp: ctl_of_def call_counts py_start_effect ctl_step_simps)

lemma ctl_abs_Active: "ctl_abs st = Active \<longleftrightarrow> st \<notin> {Paused, Stopped, Done}"
  by (cases st) simp_all

text \<open>What an action of the thread does to state and count.\<close>

lemma thread_step_effect:
  assumes "thread_step g ov w s = Some (w', s')"
  shows "(ps_state s' = ps_state s \<or> w = WSlept \<and> ps_state s' = Overrun \<or> w = WFirst \<and> ps_state s' = Running
      \<or> w = WPauseLock \<and> ps_state s' = Paused \<or> w = WPaused \<and> ps_state s = Resuming \<and> ps_state s' = Running
      \<or> w = WStopLock \<and> ps_state s' = Stopped \<or> w = WFinish \<and> ps_state s' = Done) \<and> ps_count s' = ps_count s
    \<or> (w = WFresh \<or> w = WLoop) \<and> ps_state s' = ps_state s \<and> ps_count s' = Suc (ps_count s)"
  using assms by (cases w) (auto simp: thread_step_def thread_loop_def thread_prepare_def split: if_splits)

lemma ctl_thread:
  assumes "thread_step g ov w s = Some (w', s')" and "place_ok (ps_state s) [w]"
  shows "ctl_of s' = ctl_of s \<or> ctl_step (ctl_of s) (ctl_of s')"
proof -
  have act: "ctl_abs (ps_state s) = Active" if "w \<noteq> WPaused" "w \<noteq> WClose"
    using assms(2) that by (auto simp: ctl_abs_Active place_ok_single)
  from thread_step_effect[OF assms(1)] show ?thesis unfolding ctl_of_def ctl_step_simps
    by (elim disjE conjE) (use act in simp_all)
qed

lemma ctl_put_thread [simp]: "ctl_of (put_thread i w s) = ctl_of s"
  by (auto simp: ctl_of_def put_thread_def split: option.splits)

lemma ctl_trans:
  assumes "py_trans g s t" and "py_inv s"
  shows "ctl_of t = ctl_of s \<or> ctl_step (ctl_of s) (ctl_of t)"
  using assms(1)
proof cases
  case call_pause then show ?thesis by (simp add: ctl_pause_call)
next
  case call_start then show ?thesis using ctl_start_call by simp
next
  case call_step then show ?thesis using ctl_step_call by simp
next
  case call_stop then show ?thesis using ctl_stop_call by simp
next
  case call_return then show ?thesis by (simp add: ctl_of_def)
next
  case (thread i ov w s')
  obtain v where "threads s = [v]" "i = 0" using assms(2) thread(2) by (auto simp: py_inv_def place_ok_single)
  then have "ctl_of s' = ctl_of s \<or> ctl_step (ctl_of s) (ctl_of s')"
    using ctl_thread[of g ov v s w s'] thread(3) assms(2) by (simp add: py_inv_def)
  then show ?thesis using thread(1) by simp
qed



end
