(* ===== verification/PyInterface.thy ===== *)
theory PyInterface
  imports PyObjects PySimulation
begin

text \<open>
  The interface object of the Python module (\<open>Source/Python/Interface.cpp\<close>) and the methods of the
  simulation object that register events, interfaces and loggers (\<open>Source/Python/Simulation.cpp\<close>).

  The library of the attributes is the record \<open>cps_typed\<close>: \<open>attribute<T>\<close> finds the attribute of a
  name (\<open>None\<close>: it throws \<open>InvalidAttributeException\<close>) and casts it (\<open>Some None\<close>: a null pointer, the
  attribute has another type); \<open>attributeComplex\<close> gives an attribute whose parts are attributes; the
  coefficients of a matrix are attributes. A null pointer can be registered as an import or export;
  using it is undefined behaviour.
\<close>

section \<open>Typed attributes\<close>

datatype attr_type = TInt | TUInt | TReal | TBool | TComplex

record complex_parts =
  cz_attr :: attr
  cz_mag :: attr
  cz_phase :: attr
  cz_real :: attr
  cz_imag :: attr

record 'w cps_typed =
  typed_attribute :: "attr_type \<Rightarrow> cps_obj \<Rightarrow> string \<Rightarrow> 'w \<Rightarrow> attr option option"
  attributeComplex :: "cps_obj \<Rightarrow> string \<Rightarrow> 'w \<Rightarrow> complex_parts option"
  matrix_real :: "cps_obj \<Rightarrow> string \<Rightarrow> int \<Rightarrow> int \<Rightarrow> 'w \<Rightarrow> attr option"
  matrix_complex :: "cps_obj \<Rightarrow> string \<Rightarrow> int \<Rightarrow> int \<Rightarrow> 'w \<Rightarrow> complex_parts option"

section \<open>The description of the exports\<close>

text \<open>An entry of \<open>pyExports\<close>: a dictionary with a name and a type, or an empty one.\<close>

datatype export_desc = EmptyDesc | Desc (desc_name: string) (desc_type: string)

text \<open>The list is filled with empty dictionaries up to the index; a negative index leaves it as it is
  (\<open>PyList_SetItem\<close> fails).\<close>

definition pad_exports :: "int \<Rightarrow> export_desc list \<Rightarrow> export_desc list" where
  "pad_exports idx ds = ds @ replicate (nat (idx + 1 - int (length ds))) EmptyDesc"

definition addExportDesc :: "int \<Rightarrow> string \<Rightarrow> string \<Rightarrow> string \<Rightarrow> export_desc list \<Rightarrow> export_desc list" where
  "addExportDesc idx ty name suffix ds =
     (let ds = pad_exports idx ds
      in if idx < 0 then ds else ds[nat idx := Desc (name @ suffix) ty])"

section \<open>The interface object\<close>

record ('d, 'w) py_interface =
  py_conf :: shmem_conf
  py_intf :: "('d, 'w) interface"
  py_wname :: string
  py_rname :: string
  pyExports :: "export_desc list"

text \<open>\<open>newfunc\<close> makes the object with its list of exports; \<open>init\<close> the C++ interface.\<close>

definition PyInterface_newfunc :: "py_heap \<Rightarrow> pyref \<times> py_heap" where
  "PyInterface_newfunc h = (let (l, h) = py_alloc (PyList []) h in py_alloc (PyInterface None l) h)"

definition PyInterface_init ::
    "('d, 'e) villas \<Rightarrow> string \<Rightarrow> string \<Rightarrow> int option \<Rightarrow> int option \<Rightarrow> int option \<Rightarrow> ('d, 'w) py_interface" where
  "PyInterface_init vil wname rname queuelen_arg samplelen_arg polling_arg =
     (let conf = \<lparr>queuelen = case_option 512 id queuelen_arg, samplelen = case_option 64 id samplelen_arg,
                  polling = case_option 0 id polling_arg\<rparr>
      in \<lparr>py_conf = conf, py_intf = Interface_new_conf vil wname rname conf, py_wname = wname, py_rname = rname,
          pyExports = []\<rparr>)"

definition on_intf :: "(('d, 'w) interface \<Rightarrow> ('d, 'w) interface) \<Rightarrow> ('d, 'w) py_interface \<Rightarrow> ('d, 'w) py_interface" where
  "on_intf f p = p\<lparr>py_intf := f (py_intf p)\<rparr>"

definition describe :: "int \<Rightarrow> string \<Rightarrow> string \<Rightarrow> string \<Rightarrow> ('d, 'w) py_interface \<Rightarrow> ('d, 'w) py_interface" where
  "describe idx ty name suffix p = p\<lparr>pyExports := addExportDesc idx ty name suffix (pyExports p)\<rparr>"

text \<open>Registering an attribute pointer, which may be null.\<close>

definition import_real :: "'w cps_attrs \<Rightarrow> 'd slot_ops \<Rightarrow> attr option \<Rightarrow> int \<Rightarrow> ('d, 'w) py_interface \<Rightarrow> ('d, 'w) py_interface" where
  "import_real cps so a idx = on_intf (case a of
      Some a \<Rightarrow> addImport_Real cps so a idx
    | None \<Rightarrow> addImport (import_at (\<lambda>d w. Throw (UndefinedBehaviour ''null attribute'') w) idx))"

definition export_real :: "'w cps_attrs \<Rightarrow> 'd slot_ops \<Rightarrow> attr option \<Rightarrow> int \<Rightarrow> ('d, 'w) py_interface \<Rightarrow> ('d, 'w) py_interface" where
  "export_real cps so a idx = on_intf (case a of
      Some a \<Rightarrow> addExport_Real cps so a idx
    | None \<Rightarrow> addExport (\<lambda>w smp. if idx \<ge> capacity smp then Throw OutOfRange smp else Throw (UndefinedBehaviour ''null attribute'') smp))"

definition export_complex :: "'w cps_attrs \<Rightarrow> 'd slot_ops \<Rightarrow> attr option \<Rightarrow> int \<Rightarrow> ('d, 'w) py_interface \<Rightarrow> ('d, 'w) py_interface" where
  "export_complex cps so a idx = on_intf (case a of
      Some a \<Rightarrow> addExport_Complex cps so a idx
    | None \<Rightarrow> addExport (\<lambda>w smp. if idx \<ge> capacity smp then Throw OutOfRange smp else Throw (UndefinedBehaviour ''null attribute'') smp))"

text \<open>\<open>import_attribute\<close>. The format string \<open>Osi|ds\<close> reads the fourth argument as the gain and writes
  the fifth, a pointer to a string, into the \<open>int\<close> variable \<open>mode\<close>, which is never initialised: the
  mode is whatever was in memory (\<open>garbage\<close>), and with a fifth argument memory is overwritten.\<close>

definition py_addImport ::
    "'w cps_attrs \<Rightarrow> 'w cps_typed \<Rightarrow> 'd slot_ops \<Rightarrow> int \<Rightarrow> 'w \<Rightarrow> py_obj \<Rightarrow> string \<Rightarrow> int \<Rightarrow> real option \<Rightarrow> string option \<Rightarrow>
     ('d, 'w) py_interface \<Rightarrow> (unit py_ret \<times> ('d, 'w) py_interface) option" where
  "py_addImport cps typed so garbage w ob attrName idx gain fifth p = do {
     mode \<leftarrow> (case fifth of None \<Rightarrow> Some garbage | Some s \<Rightarrow> None);
     target \<leftarrow> identified ob;
     case target of
       None \<Rightarrow> Some (Raise PyTypeError ''First argument must be a Component or a Node'', p)
     | Some tgt \<Rightarrow>
         let fail = Some (Raise PyTypeError ''First argument must be a writable attribute'', p);
             part = (\<lambda>f. case attributeComplex typed tgt attrName w of None \<Rightarrow> fail | Some z \<Rightarrow> Some (Ret (), f z p))
         in if mode = 0 then (case typed_attribute typed TReal tgt attrName w of None \<Rightarrow> fail | Some a \<Rightarrow> Some (Ret (), import_real cps so a idx p))
            else if mode = 2 then part (\<lambda>z p. import_real cps so (Some (cz_phase z)) (idx + 1) (import_real cps so (Some (cz_mag z)) idx p))
            else if mode = 3 then part (\<lambda>z. import_real cps so (Some (cz_real z)) idx)
            else if mode = 4 then part (\<lambda>z. import_real cps so (Some (cz_imag z)) idx)
            else if mode = 5 then part (\<lambda>z. import_real cps so (Some (cz_phase z)) idx)
            else if mode = 6 then part (\<lambda>z. import_real cps so (Some (cz_mag z)) idx)
            else Some (Raise PyTypeError ''Invalid mode'', p) }"

text \<open>\<open>export_attribute\<close>. \<open>show_int\<close> is \<open>std::to_string\<close>.\<close>

definition show_int :: "int \<Rightarrow> string" where
  "show_int i = (if i < 0 then CHR ''-'' # show_nat (nat (- i)) else show_nat (nat i))"

definition coeff_suffix :: "int \<Rightarrow> int \<Rightarrow> string" where
  "coeff_suffix row col = ''('' @ show_int row @ '','' @ show_int col @ '')''"

definition with_readable :: "'a option \<Rightarrow> ('a \<Rightarrow> 'p \<Rightarrow> 'p) \<Rightarrow> 'p \<Rightarrow> (unit py_ret \<times> 'p) option" where
  "with_readable x f p = (case x of
      None \<Rightarrow> Some (Raise PyTypeError ''First argument must be a readable attribute'', p)
    | Some a \<Rightarrow> Some (Ret (), f a p))"

definition export_both :: "'w cps_attrs \<Rightarrow> 'd slot_ops \<Rightarrow> string \<Rightarrow> int \<Rightarrow> complex_parts \<Rightarrow> ('d, 'w) py_interface \<Rightarrow> ('d, 'w) py_interface" where
  "export_both cps so name idx z p =
     describe (idx + 1) ''float'' (name @ ''.phase'') [] (describe idx ''float'' (name @ ''.mag'') []
       (export_real cps so (Some (cz_phase z)) (idx + 1) (export_real cps so (Some (cz_mag z)) idx p)))"

text \<open>The switch over the mode, for an attribute of the object \<open>tgt\<close>.\<close>

definition export_mode ::
    "'w cps_attrs \<Rightarrow> 'w cps_typed \<Rightarrow> 'd slot_ops \<Rightarrow> 'w \<Rightarrow> cps_obj \<Rightarrow> string \<Rightarrow> string \<Rightarrow> int \<Rightarrow> int \<Rightarrow> int \<Rightarrow> int \<Rightarrow>
     ('d, 'w) py_interface \<Rightarrow> (unit py_ret \<times> ('d, 'w) py_interface) option" where
  "export_mode cps typed so w tgt name attrName idx mode row col p =
     (let part = attributeComplex typed tgt attrName w;
          cz = matrix_complex typed tgt attrName row col w;
          pos = coeff_suffix row col
      in if mode = 0 then with_readable (typed_attribute typed TReal tgt attrName w) (\<lambda>a p. describe idx ''float'' name [] (export_real cps so a idx p)) p
         else if mode = 1 then with_readable (typed_attribute typed TComplex tgt attrName w) (\<lambda>a p. describe idx ''complex'' name [] (export_complex cps so a idx p)) p
         else if mode = 2 then with_readable part (\<lambda>z. export_both cps so name idx z) p
         else if mode = 3 then with_readable part (\<lambda>z p. describe idx ''float'' name ''.real'' (export_real cps so (Some (cz_real z)) idx p)) p
         else if mode = 4 then with_readable part (\<lambda>z p. describe idx ''float'' (name @ ''.imag'') [] (export_real cps so (Some (cz_imag z)) idx p)) p
         else if mode = 5 then with_readable part (\<lambda>z p. describe idx ''float'' (name @ ''.phase'') [] (export_real cps so (Some (cz_phase z)) idx p)) p
         else if mode = 6 then with_readable part (\<lambda>z p. describe idx ''float'' (name @ ''.mag'') [] (export_real cps so (Some (cz_mag z)) idx p)) p
         else if mode = 7 then with_readable (matrix_real typed tgt attrName row col w)
                (\<lambda>a p. describe idx ''float'' (name @ pos) [] (export_real cps so (Some a) idx p)) p
         else if mode = 8 then with_readable cz (\<lambda>z p. describe idx ''complex'' (name @ pos) [] (export_complex cps so (Some (cz_attr z)) idx p)) p
         else if mode = 9 then with_readable cz (\<lambda>z. export_both cps so (name @ pos) idx z) p
         else Some (Raise PyTypeError ''Invalid mode'', p))"

definition py_addExport ::
    "'w cps_py \<Rightarrow> 'w cps_attrs \<Rightarrow> 'w cps_typed \<Rightarrow> 'd slot_ops \<Rightarrow> 'w \<Rightarrow> py_obj \<Rightarrow> string \<Rightarrow> int \<Rightarrow> int \<Rightarrow> int \<Rightarrow> int \<Rightarrow>
     ('d, 'w) py_interface \<Rightarrow> (unit py_ret \<times> ('d, 'w) py_interface) option" where
  "py_addExport py cps typed so w ob attrName idx mode row col p = do {
     target \<leftarrow> identified ob;
     case target of
       None \<Rightarrow> Some (Raise PyTypeError ''First argument must be a Component or a Node'', p)
     | Some tgt \<Rightarrow> export_mode cps typed so w tgt (obj_name py tgt w @ ''.'' @ attrName) attrName idx mode row col p }"

section \<open>Registering with the simulation\<close>

text \<open>\<open>add_event\<close>: the type of the Python value decides the type of the attribute. \<open>PyLong_AsLong\<close>
  gives -1 beyond 64 bit (and sets an exception that nobody looks at); the value is then narrowed to
  an \<open>int\<close>. A value of another type is accepted and ignored.\<close>

definition as_int :: "int \<Rightarrow> int" where
  "as_int i = (let l = (if - (2 ^ 63) \<le> i \<and> i < 2 ^ 63 then i else -1) in sint (word_of_int l :: 32 word))"

definition py_addEvent ::
    "'w cps_py \<Rightarrow> 'w cps_typed \<Rightarrow> 'w \<Rightarrow> real \<Rightarrow> py_obj \<Rightarrow> string \<Rightarrow> py_obj \<Rightarrow> ('s, 'd, 'w, 'e) sim \<Rightarrow>
     (unit py_ret \<times> ('s, 'd, 'w, 'e) sim) option" where
  "py_addEvent py typed w eventTime ob name pyVal s = (case ob of
      PyComponent None refs \<Rightarrow> None
    | PyComponent (Some c) refs \<Rightarrow>
        if cps_attribute py (CompObj c) name w = None then Some (Raise PyTypeError ''Invalid attribute'', s)
        else
          let attr_of = (\<lambda>ty. case typed_attribute typed ty (CompObj c) name w of None \<Rightarrow> None | Some a \<Rightarrow> a);
              fail = Some (Raise PyTypeError ''Invalid attribute or type'', s);
              one = (\<lambda>ty v. case attr_of ty of None \<Rightarrow> fail | Some a \<Rightarrow> Some (Ret (), sim_addEvent (AttributeEvent eventTime a v) s))
          in (case pyVal of
                PyBool b \<Rightarrow> one TBool (BoolV b)
              | PyLong i \<Rightarrow>
                  (case (attr_of TInt, attr_of TUInt) of
                     (None, None) \<Rightarrow> fail
                   | (ia, ua) \<Rightarrow>
                       let s = (case ia of None \<Rightarrow> s | Some a \<Rightarrow> sim_addEvent (AttributeEvent eventTime a (IntV (as_int i))) s);
                           s = (case ua of None \<Rightarrow> s | Some a \<Rightarrow> sim_addEvent (AttributeEvent eventTime a (UIntV (as_int i mod 2 ^ 32))) s)
                       in Some (Ret (), s))
              | PyFloat x \<Rightarrow> one TReal (RealV x)
              | PyComplex x y \<Rightarrow> one TComplex (ComplexV x y)
              | _ \<Rightarrow> Some (Ret (), s))
    | _ \<Rightarrow> Some (Raise PyTypeError ''First argument must be of type dpsim.Component'', s))"

text \<open>\<open>add_interface\<close>: \<open>sync_start\<close> defaults to \<open>sync\<close>, \<open>sync\<close> to true; the object keeps a reference
  to the interface. \<open>add_logger\<close> shares the C++ logger instead.\<close>

definition py_addInterface ::
    "pyref \<Rightarrow> bool option \<Rightarrow> bool option \<Rightarrow> pyref list \<times> py_heap \<times> ('s, 'd, 'w, 'e) sim \<Rightarrow>
     (unit py_ret \<times> pyref list \<times> py_heap \<times> ('s, 'd, 'w, 'e) sim) option" where
  "py_addInterface pyObj sync_arg start_arg st = (let (refs, h, s) = st;
       sync = case_option True id sync_arg; start_sync = case_option sync id start_arg in do {
     ob \<leftarrow> obj_at h pyObj;
     case ob of
       PyInterface (Some i) exports \<Rightarrow> do {
         h \<leftarrow> incref pyObj h;
         Some (Ret (), refs @ [pyObj], h, addInterface i sync start_sync 1 s) }
     | PyInterface None exports \<Rightarrow> None
     | _ \<Rightarrow> Some (Raise PyTypeError ''Argument must be dpsim.Interface'', st) })"

definition py_addLogger ::
    "pyref \<Rightarrow> 32 word option \<Rightarrow> py_heap \<times> ('s, 'd, 'w, 'e) sim \<Rightarrow> (unit py_ret \<times> ('s, 'd, 'w, 'e) sim) option" where
  "py_addLogger pyObj downsampling hs = (let (h, s) = hs in do {
     ob \<leftarrow> obj_at h pyObj;
     case ob of
       PyLogger (Some l) file refs \<Rightarrow> Some (Ret (), addLogger l (case_option 1 id downsampling) s)
     | PyLogger None file refs \<Rightarrow> None
     | _ \<Rightarrow> Some (Raise PyTypeError ''First argument must be a of type dpsim.Logger'', s) })"

text \<open>\<open>add_eventfd\<close> and \<open>remove_eventfd\<close>: the optional arguments are read and ignored.\<close>

definition py_addEventFD :: "int \<Rightarrow> channel \<Rightarrow> channel" where
  "py_addEventFD fd c = addFd fd c"

definition py_removeEventFD :: "int \<Rightarrow> channel \<Rightarrow> channel" where
  "py_removeEventFD fd c = removeFd fd c"

text \<open>The getters.\<close>

definition py_getState :: "py_sim \<Rightarrow> nat" where
  "py_getState s = state_code (ps_state s)"

definition py_name :: "('s, 'd, 'w, 'e) sim \<Rightarrow> string" where
  "py_name s = mName s"

definition py_steps :: "('s, 'd, 'w, 'e) sim \<Rightarrow> int" where
  "py_steps s = mTimeStepCount s"

definition py_time :: "('s, 'd, 'w, 'e) sim \<Rightarrow> real" where
  "py_time s = sim_mTime s"

definition py_finalTime :: "('s, 'd, 'w, 'e) sim \<Rightarrow> real" where
  "py_finalTime s = mFinalTime s"

text \<open>\<open>dealloc\<close> of a simulation: with a thread it calls \<open>stop\<close> and joins; then the references to the
  interfaces and to the topology are given up. \<open>stop\<close> that raises (the simulation is over) is
  ignored. The result is that of the critical section of \<open>stop\<close>; waiting for the thread to end is a
  matter of the step relation.\<close>

definition py_sim_dealloc :: "bool \<Rightarrow> pyref list \<Rightarrow> pyref option \<Rightarrow> py_sim \<Rightarrow> py_heap \<Rightarrow> (call_result option \<times> py_sim \<times> py_heap) option" where
  "py_sim_dealloc has_thread refs pySys s h = do {
     let (r, s) = (if has_thread then map_prod Some id (py_stop s) else (None, s));
     h \<leftarrow> release (refs @ case_option [] (\<lambda>p. [p]) pySys) h;
     Some (r, s, h) }"

section \<open>Exports and their description\<close>

lemma addExportDesc_length: "0 \<le> idx \<Longrightarrow> length (addExportDesc idx ty nm sf ds) = max (length ds) (Suc (nat idx))"
  by (auto simp: addExportDesc_def pad_exports_def Let_def)

lemma addExportDesc_nth:
  "0 \<le> idx \<Longrightarrow> j < length (addExportDesc idx ty nm sf ds) \<Longrightarrow>
   addExportDesc idx ty nm sf ds ! j = (if j = nat idx then Desc (nm @ sf) ty else if j < length ds then ds ! j else EmptyDesc)"
  by (auto simp: addExportDesc_def pad_exports_def Let_def nth_append nth_list_update)

text \<open>\<open>exported base n idx p p'\<close>: between \<open>p\<close> and \<open>p'\<close>, \<open>n\<close> exports were registered and the entries of
  the \<open>n\<close> slots from \<open>idx\<close> on were described by names that begin with \<open>base\<close>; all other entries are
  unchanged.\<close>

definition exported :: "string \<Rightarrow> nat \<Rightarrow> nat \<Rightarrow> ('d, 'w) py_interface \<Rightarrow> ('d, 'w) py_interface \<Rightarrow> bool" where
  "exported base n idx p p' \<longleftrightarrow>
     length (mExports (py_intf p')) = length (mExports (py_intf p)) + n
     \<and> take (length (mExports (py_intf p))) (mExports (py_intf p')) = mExports (py_intf p)
     \<and> length (pyExports p') = max (length (pyExports p)) (idx + n)
     \<and> (\<forall>j < length (pyExports p').
          if idx \<le> j \<and> j < idx + n then \<exists>sf ty. pyExports p' ! j = Desc (base @ sf) ty
          else pyExports p' ! j = (if j < length (pyExports p) then pyExports p ! j else EmptyDesc))"

lemma exported_weaken: "exported (base @ sf) n idx p p' \<Longrightarrow> exported base n idx p p'"
  by (fastforce simp: exported_def split: if_splits)

lemma exported_one:
  assumes "0 \<le> idx" and "mExports (py_intf p1) = mExports (py_intf p) @ [f]" and "pyExports p1 = pyExports p"
  shows "exported base 1 (nat idx) p (describe idx ty base sf p1)"
  using assms by (auto simp: exported_def describe_def addExportDesc_length addExportDesc_nth)

lemma exported_two:
  assumes "0 \<le> idx" and "mExports (py_intf p1) = mExports (py_intf p) @ [f, g]" and "pyExports p1 = pyExports p"
  shows "exported base 2 (nat idx) p (describe (idx + 1) ty (base @ sf) [] (describe idx ty' (base @ sf') [] p1))"
proof -
  have "nat (idx + 1) = Suc (nat idx)" using assms(1) by simp
  then show ?thesis using assms
    by (auto simp: exported_def describe_def addExportDesc_length addExportDesc_nth)
qed

lemma export_real_adds:
  "\<exists>f. mExports (py_intf (export_real cps so a idx p)) = mExports (py_intf p) @ [f]" "pyExports (export_real cps so a idx p) = pyExports p"
  by (auto simp: export_real_def on_intf_def addExport_Real_def addExport_def split: option.splits)

lemma export_complex_adds:
  "\<exists>f. mExports (py_intf (export_complex cps so a idx p)) = mExports (py_intf p) @ [f]" "pyExports (export_complex cps so a idx p) = pyExports p"
  by (auto simp: export_complex_def on_intf_def addExport_Complex_def addExport_def split: option.splits)

lemma export_real_exported: "0 \<le> idx \<Longrightarrow> exported base 1 (nat idx) p (describe idx ty base sf (export_real cps so a idx p))"
  using export_real_adds[of cps so a idx p] exported_one by fastforce

lemma export_complex_exported: "0 \<le> idx \<Longrightarrow> exported base 1 (nat idx) p (describe idx ty base sf (export_complex cps so a idx p))"
  using export_complex_adds[of cps so a idx p] exported_one by fastforce

lemma export_both_exported:
  assumes "0 \<le> idx"
  shows "exported base 2 (nat idx) p (export_both cps so base idx z p)"
proof -
  let ?q = "export_real cps so (Some (cz_mag z)) idx p"
  obtain f g where "mExports (py_intf (export_real cps so (Some (cz_phase z)) (idx + 1) ?q)) = mExports (py_intf p) @ [f, g]"
    using export_real_adds(1)[of cps so "Some (cz_mag z)" idx p] export_real_adds(1)[of cps so "Some (cz_phase z)" "idx + 1" ?q] by auto
  then show ?thesis unfolding export_both_def
    by (rule exported_two[OF assms]) (simp add: export_real_adds(2))
qed

lemmas exported_intros = export_real_exported export_complex_exported export_both_exported
  exported_weaken[OF export_real_exported] exported_weaken[OF export_complex_exported] exported_weaken[OF export_both_exported]

lemma with_readable_Ret: "with_readable x f p = Some (Ret (), p') \<Longrightarrow> \<exists>a. x = Some a \<and> p' = f a p"
  by (auto simp: with_readable_def split: option.splits)

lemma export_mode_exported:
  assumes "export_mode cps typed so w tgt name attrName idx mode row col p = Some (Ret (), p')" and "0 \<le> idx"
  shows "exported name (if mode = 2 \<or> mode = 9 then 2 else 1) (nat idx) p p'"
  using assms unfolding export_mode_def Let_def
  by (auto split: if_split_asm dest!: with_readable_Ret intro: exported_intros simp del: append_assoc One_nat_def)


definition demo_typed :: "nat list cps_typed" where
  "demo_typed = \<lparr>typed_attribute = (\<lambda>ty ob nm w. if nm = ''R'' then Some (if ty = TReal then Some 0 else None) else None),
     attributeComplex = (\<lambda>ob nm w. Some \<lparr>cz_attr = 0, cz_mag = 1, cz_phase = 2, cz_real = 3, cz_imag = 4\<rparr>),
     matrix_real = (\<lambda>ob nm r c w. Some 5), matrix_complex = (\<lambda>ob nm r c w. None)\<rparr>"

definition demo_attrs_list :: "nat list cps_attrs" where
  "demo_attrs_list = \<lparr>attr_set = (\<lambda>a v w. Ok w), attr_get = (\<lambda>a w. RealV 0), sw_open = (\<lambda>c w. w), sw_close = (\<lambda>c w. w), cps_exn_std = True\<rparr>"

definition demo_py_interface :: "(val, nat list) py_interface" where
  "demo_py_interface = PyInterface_init demo_villas ''/w'' ''/r'' None None None"


section \<open>Events from Python\<close>

text \<open>The value an attribute of a type is to get, if the type of the Python value fits.\<close>

fun event_value :: "attr_type \<Rightarrow> py_obj \<Rightarrow> val option" where
  "event_value TBool (PyBool b) = Some (BoolV b)"
| "event_value TInt (PyLong i) = Some (IntV (as_int i))"
| "event_value TUInt (PyLong i) = Some (UIntV (as_int i mod 2 ^ 32))"
| "event_value TReal (PyFloat x) = Some (RealV x)"
| "event_value TComplex (PyComplex x y) = Some (ComplexV x y)"
| "event_value _ _ = None"

definition is_number :: "py_obj \<Rightarrow> bool" where
  "is_number v \<longleftrightarrow> (case v of PyBool _ \<Rightarrow> True | PyLong _ \<Rightarrow> True | PyFloat _ \<Rightarrow> True | PyComplex _ _ \<Rightarrow> True | _ \<Rightarrow> False)"

text \<open>\<open>add_event\<close> queues the assignment that the value asks for. Let the attribute \<open>a\<close> of the component
  have the type \<open>ty\<close>. A Python value of the matching type adds exactly one event, with the given time
  and the converted value, to the events that were queued before. A number of another type (an int for
  a real attribute, for instance) raises \<open>TypeError\<close> and the queue is unchanged. A value that is no
  number is accepted although nothing is queued.\<close>

theorem add_event_queues:
  assumes "cps_attribute py (CompObj c) name w = Some a"
    and "\<forall>ty'. typed_attribute typed ty' (CompObj c) name w = Some (if ty' = ty then Some a else None)"
  shows "\<exists>res s'. py_addEvent py typed w t (PyComponent (Some c) refs) name v s = Some (res, s')
    \<and> (case event_value ty v of
         Some x \<Rightarrow> res = Ret () \<and> s' = s\<lparr>mEvents := mEvents s'\<rparr> \<and> mset (mEvents s') = add_mset (AttributeEvent t a x) (mset (mEvents s))
       | None \<Rightarrow> s' = s \<and> res = (if is_number v then Raise PyTypeError ''Invalid attribute or type'' else Ret ()))"
proof -
  have ev: "mEvents (sim_addEvent e s) = addEvent e (mEvents s)" "mset (addEvent e q) = add_mset e (mset q)" for e q
    by (simp_all add: sim_addEvent_def addEvent_def mset_heap_push)
  have s: "sim_addEvent e s = s\<lparr>mEvents := mEvents (sim_addEvent e s)\<rparr>" for e by (simp add: sim_addEvent_def)
  show ?thesis
    using assms by (cases v; cases ty) (simp_all add: py_addEvent_def is_number_def ev sim_addEvent_def)
qed

definition demo_list_sim :: "(unit, val, nat list, nat) sim" where
  "demo_list_sim = Simulation_new ''demo'' 1 3 () (\<lambda>_. py_intf demo_py_interface) (\<lambda>_. DataLogger_new True True) [] 0"

theorem add_event_queues_witness:
  "\<exists>s'. py_addEvent demo_py demo_typed [] 2 (PyComponent (Some 3) []) ''R'' (PyFloat 5) demo_list_sim = Some (Ret (), s')
     \<and> mset (mEvents s') = {#AttributeEvent 2 0 (RealV 5)#}"
proof -
  have "cps_attribute demo_py (CompObj 3) ''R'' [] = Some 0"
    and "\<forall>ty'. typed_attribute demo_typed ty' (CompObj 3) ''R'' [] = Some (if ty' = TReal then Some 0 else None)"
    by (simp_all add: demo_py_def demo_typed_def)
  from add_event_queues[OF this, of 2 "[]" "PyFloat 5" demo_list_sim] show ?thesis
    by (auto simp: demo_list_sim_def Simulation_new_def)
qed

section \<open>Imports from Python\<close>

text \<open>What \<open>import_attribute\<close> does is not determined by its arguments: the mode is an uninitialised
  variable. With the same arguments the call may register the magnitude, or raise \<open>TypeError\<close>.\<close>

lemma import_mode_is_garbage:
  assumes "identified ob = Some (Some tgt)" and "attributeComplex typed tgt attrName w = Some z"
  shows "py_addImport cps typed so 6 w ob attrName idx gain None p = Some (Ret (), import_real cps so (Some (cz_mag z)) idx p)"
    and "py_addImport cps typed so 7 w ob attrName idx gain None p = Some (Raise PyTypeError ''Invalid mode'', p)"
  using assms by (simp_all add: py_addImport_def)

end
