(* ===== verification/PySimObject.thy ===== *)
theory PySimObject
  imports PyInterface
begin

text \<open>
  The life of a simulation object of the Python module (\<open>newfunc\<close>, \<open>init\<close> and \<open>dealloc\<close> of
  \<open>Source/Python/Simulation.cpp\<close>) with the references it holds, and the drawing of a system topology
  (\<open>reprSVG\<close> of \<open>SystemTopology.cpp\<close>).
\<close>

section \<open>Operations\<close>

text \<open>The members that hold references, and whether there is a thread. \<open>tp_alloc\<close> fills the memory with
  zeros.\<close>

record sim_members =
  sm_refs :: "pyref list"
  sm_pySys :: "pyref option"
  sm_thread :: bool

definition Simulation_newfunc :: sim_members where
  "Simulation_newfunc = \<lparr>sm_refs = [], sm_pySys = None, sm_thread = False\<rparr>"

fun is_topology :: "py_obj \<Rightarrow> bool" where
  "is_topology (PySystemTopology sys cd nd) = True"
| "is_topology _ = False"

text \<open>\<open>PyArg_ParseTupleAndKeywords\<close> stores the borrowed reference to the argument in \<open>self->pySys\<close>; the
  reference is counted only after the arguments have been accepted. Then the topology is copied.\<close>

definition Simulation_init ::
    "int \<Rightarrow> init_args \<Rightarrow> pyref \<Rightarrow> sim_members \<Rightarrow> py_heap \<Rightarrow>
     ((string + py_sim \<times> domain \<times> solver_type \<times> int) \<times> sim_members \<times> py_heap) option" where
  "Simulation_init now a system m h = do {
     ob \<leftarrow> obj_at h system;
     let m = m\<lparr>sm_pySys := Some system\<rparr>;
     case py_init (is_topology ob) now a of
       Inl msg \<Rightarrow> Some (Inl msg, m, h)
     | Inr r \<Rightarrow> do {
         h \<leftarrow> incref system h;
         case ob of PySystemTopology (Some sys) cd nd \<Rightarrow> Some (Inr r, m, h) | _ \<Rightarrow> None } }"

definition Simulation_delete :: "sim_members \<Rightarrow> py_sim \<Rightarrow> py_heap \<Rightarrow> (call_result option \<times> py_sim \<times> py_heap) option" where
  "Simulation_delete m s h = py_sim_dealloc (sm_thread m) (sm_refs m) (sm_pySys m) s h"

text \<open>\<open>svg\<close> is what the graph of a topology is rendered to.\<close>

definition SystemTopology_reprSVG :: "(nat \<Rightarrow> 'w \<Rightarrow> string) \<Rightarrow> pyref \<Rightarrow> py_heap \<times> 'w \<Rightarrow> (pyref \<times> py_heap) option" where
  "SystemTopology_reprSVG svg self hw = (case obj_at (fst hw) self of
      Some (PySystemTopology (Some sys) cd nd) \<Rightarrow> Some (py_alloc (PyStr (svg sys (snd hw))) (fst hw))
    | _ \<Rightarrow> None)"

section \<open>Properties\<close>

lemma reprSVG_counted:
  assumes "counted h ext" and "obj_at h self = Some (PySystemTopology (Some sys) cd nd)"
  shows "\<exists>h' r. SystemTopology_reprSVG svg self (h, w) = Some (r, h') \<and> counted h' (add_mset r ext)"
  using assms counted_alloc[of h "PyStr (svg sys w)" ext] by (auto simp: SystemTopology_reprSVG_def py_alloc_def)

lemma counted_incref:
  assumes "counted h ext" and "r \<in># ext"
  shows "\<exists>h'. incref r h = Some h' \<and> counted h' (add_mset r ext)"
proof -
  obtain ob n where c: "cell_of h r = Some (ob, n)" using counted_ext_live[OF assms] by blast
  have "counted (h[r := Some (ob, Suc n)]) (add_mset r ext)" by (rule counted_update[OF assms(1) c]) simp_all
  then show ?thesis by (simp add: incref_def c)
qed

text \<open>C31: constructing a simulation and deleting it again. If the arguments are accepted, the reference counts
  are as before. If \<open>__init__\<close> raises, the destructor gives up a reference to the \<open>system\<close> argument that
  was never taken: the caller's own reference is used up, and the topology is freed while it is in use.\<close>

theorem failed_init_steals_reference:
  assumes "counted h ext" and "system \<in># ext" and "\<not> (\<exists>cd nd. obj_at h system = Some (PySystemTopology None cd nd))"
  shows "\<exists>r m h1 d s' h2. Simulation_init now a system Simulation_newfunc h = Some (r, m, h1)
     \<and> Simulation_delete m s h1 = Some (d, s', h2) \<and> counted h2 (if isl r then ext - {#system#} else ext)"
proof -
  obtain ob where ob: "obj_at h system = Some ob" using counted_obj_at[OF assms(1,2)] by blast
  have delete: "\<exists>d s' h2. Simulation_delete (Simulation_newfunc\<lparr>sm_pySys := Some system\<rparr>) s g = Some (d, s', h2) \<and> counted h2 x"
    if g: "counted g (add_mset system x)" for g x
  proof -
    obtain h2 where "decref system g = Some h2" "counted h2 x" using release_counted[of g "[system]" x] g by auto
    then show ?thesis by (simp add: Simulation_delete_def py_sim_dealloc_def Simulation_newfunc_def)
  qed
  show ?thesis
  proof (cases "py_init (is_topology ob) now a")
    case (Inl msg)
    have "counted h (add_mset system (ext - {#system#}))" using assms(1,2) by simp
    from delete[OF this] show ?thesis using Inl by (auto simp: Simulation_init_def ob)
  next
    case (Inr r)
    then have "is_topology ob" by (auto simp: py_init_def Let_def split: if_splits)
    then obtain sys cd nd where "ob = PySystemTopology (Some sys) cd nd" using assms(3) ob by (cases ob rule: is_topology.cases) auto
    moreover obtain h1 where "incref system h = Some h1" "counted h1 (add_mset system ext)" using counted_incref[OF assms(1,2)] by blast
    ultimately show ?thesis using delete[of h1 ext] Inr by (auto simp: Simulation_init_def ob)
  qed
qed

text \<open>The example: the caller has the topology 0 and passes a simulation type that does not exist. After the
  object is deleted, the topology is gone.\<close>

theorem failed_init_steals_reference_witness:
  "\<forall>s. \<exists>msg m h1 d s' h2. Simulation_init 0 (init_defaults\<lparr>kw_sim_type := 7\<rparr>) 0 Simulation_newfunc demo_heap = Some (Inl msg, m, h1)
     \<and> Simulation_delete m s h1 = Some (d, s', h2) \<and> counted h2 {#3#} \<and> obj_at h2 0 = None"
proof
  fix s
  have ret: "\<exists>r m h1 d s' h2. Simulation_init 0 (init_defaults\<lparr>kw_sim_type := 7\<rparr>) 0 Simulation_newfunc demo_heap = Some (r, m, h1)
     \<and> Simulation_delete m s h1 = Some (d, s', h2) \<and> counted h2 (if isl r then {#0, 3#} - {#0#} else {#0, 3#})"
    by (rule failed_init_steals_reference[OF demo_heap_counted]) (simp_all add: demo_heap_objs)
  obtain r m h1 d s' h2 where h2: "Simulation_init 0 (init_defaults\<lparr>kw_sim_type := 7\<rparr>) 0 Simulation_newfunc demo_heap = Some (r, m, h1)"
      "Simulation_delete m s h1 = Some (d, s', h2)" "counted h2 (if isl r then {#0, 3#} - {#0#} else {#0, 3#})"
    using ret by blast
  have r: "\<exists>msg. r = Inl msg" and m: "m = Simulation_newfunc\<lparr>sm_pySys := Some 0\<rparr>" and h1: "h1 = demo_heap"
    using h2(1) by (auto simp: Simulation_init_def demo_heap_objs py_init_def init_defaults_def Let_def)
  moreover have "obj_at h2 0 = None"
    using h2(2) by (simp add: m h1 Simulation_delete_def py_sim_dealloc_def Simulation_newfunc_def demo_heap_def release.simps
        obj_at_def cell_of_def)
       (auto simp: nth_Cons split: nat.splits if_splits)
  ultimately show "\<exists>msg m h1 d s' h2. Simulation_init 0 (init_defaults\<lparr>kw_sim_type := 7\<rparr>) 0 Simulation_newfunc demo_heap = Some (Inl msg, m, h1)
     \<and> Simulation_delete m s h1 = Some (d, s', h2) \<and> counted h2 {#3#} \<and> obj_at h2 0 = None" using h2 by auto
qed

end
