(* ===== verification/PyModule.thy ===== *)
theory PyModule
  imports PyObjects "HOL-Library.AList"
begin

text \<open>
  The extension module \<open>_dpsim\<close> (\<open>Source/Python/Module.cpp\<close>, and \<open>documentation\<close> and \<open>constructorDef\<close> of
  \<open>Include/dpsim/Python/Component.h\<close>) and the package \<open>dpsim\<close> that is imported by users
  (\<open>Source/Python/dpsim/__init__.py\<close>). The module has a table of functions, among them one constructor
  per class of components, and its types. The package gives the constructors their public names: a
  constructor \<open>_dp_ph1_Resistor\<close> becomes \<open>dpsim.dp.ph1.Resistor\<close>.
\<close>

section \<open>The extension module\<close>

text \<open>A C++ class is its path below the namespace \<open>CPS\<close>. A constructor is the instance of \<open>createInstance\<close>
  for a class.\<close>

type_synonym cpp_class = "string list"

datatype py_func = LoadCim_function | createInstance_of cpp_class

datatype py_type = Component_type | Node_type bool | Simulation_type | SystemTopology_type | Logger_type | Interface_type

datatype module_item = FunctionItem py_func string | TypeItem py_type

text \<open>The dictionary of the module, in the order of insertion.\<close>

type_synonym module_dict = "(string \<times> module_item) list"

definition DocLoadCim :: string where
  "DocLoadCim =
     ''load_cim(name, filenames, frequency=50.0, log_level=0)\<newline>'' @
     ''Load a network from CIM file(s).\<newline>'' @
     ''\<newline>'' @
     '':param filenames: Either a filename or a list of filenames of CIM files to be loaded.\<newline>'' @
     '':param frequency: Nominal system frequency in Hz.\<newline>'' @
     '':returns: A list of `dpsim.Component`.\<newline>'' @
     ''\<newline>'' @
     ''Note that in order for the CIM parser to function properly, the CSV '' @
     ''files containing the alias configuration have to be in the working directory '' @
     ''of the program.\<newline>''"

text \<open>\<open>type_of\<close> is the result of \<open>type()\<close> of an object of the class.\<close>

definition documentation :: "(cpp_class \<Rightarrow> string) \<Rightarrow> cpp_class \<Rightarrow> string" where
  "documentation type_of T =
     type_of T @ ''(name, nodes, **attributes)\<newline>'' @
     ''Construct a new component with a given name and list of nodes.\<newline>''"

definition constructorDef :: "(cpp_class \<Rightarrow> string) \<Rightarrow> cpp_class \<Rightarrow> string \<Rightarrow> string \<times> module_item" where
  "constructorDef type_of T name = (name, FunctionItem (createInstance_of T) (documentation type_of T))"

definition constructors :: "(cpp_class \<times> string) list" where
  "constructors =
     [([''DP'', ''Ph1'', ''Capacitor''], ''_dp_ph1_Capacitor''),
      ([''DP'', ''Ph1'', ''CurrentSource''], ''_dp_ph1_CurrentSource''),
      ([''DP'', ''Ph1'', ''Inductor''], ''_dp_ph1_Inductor''),
      ([''DP'', ''Ph1'', ''PQLoadCS''], ''_dp_ph1_PQLoadCS''),
      ([''DP'', ''Ph1'', ''PiLine''], ''_dp_ph1_PiLine''),
      ([''DP'', ''Ph1'', ''RXLoad''], ''_dp_ph1_RXLoad''),
      ([''DP'', ''Ph1'', ''Resistor''], ''_dp_ph1_Resistor''),
      ([''DP'', ''Ph1'', ''RxLine''], ''_dp_ph1_RxLine''),
      ([''DP'', ''Ph1'', ''Switch''], ''_dp_ph1_Switch''),
      ([''DP'', ''Ph1'', ''SynchronGeneratorIdeal''], ''_dp_ph1_SynchronGeneratorIdeal''),
      ([''DP'', ''Ph1'', ''SynchronGeneratorTrStab''], ''_dp_ph1_SynchronGeneratorTrStab''),
      ([''DP'', ''Ph1'', ''Transformer''], ''_dp_ph1_Transformer''),
      ([''DP'', ''Ph1'', ''VoltageSource''], ''_dp_ph1_VoltageSource''),
      ([''DP'', ''Ph1'', ''VoltageSourceFreq''], ''_dp_ph1_VoltageSourceFreq''),
      ([''DP'', ''Ph1'', ''VoltageSourceNorton''], ''_dp_ph1_VoltageSourceNorton''),
      ([''DP'', ''Ph3'', ''SeriesResistor''], ''_dp_ph3_SeriesResistor''),
      ([''DP'', ''Ph3'', ''SeriesSwitch''], ''_dp_ph3_SeriesSwitch''),
      ([''DP'', ''Ph3'', ''SynchronGeneratorDQ''], ''_dp_ph3_SynchronGeneratorDQ''),
      ([''EMT'', ''Ph1'', ''Capacitor''], ''_emt_ph1_Capacitor''),
      ([''EMT'', ''Ph1'', ''CurrentSource''], ''_emt_ph1_CurrentSource''),
      ([''EMT'', ''Ph1'', ''Inductor''], ''_emt_ph1_Inductor''),
      ([''EMT'', ''Ph1'', ''Resistor''], ''_emt_ph1_Resistor''),
      ([''EMT'', ''Ph1'', ''VoltageSource''], ''_emt_ph1_VoltageSource''),
      ([''EMT'', ''Ph1'', ''VoltageSourceFreq''], ''_emt_ph1_VoltageSourceFreq''),
      ([''EMT'', ''Ph1'', ''VoltageSourceNorton''], ''_emt_ph1_VoltageSourceNorton'')]"

definition dpsimModuleMethods :: "(cpp_class \<Rightarrow> string) \<Rightarrow> (string \<times> module_item) list" where
  "dpsimModuleMethods type_of =
     (''load_cim'', FunctionItem LoadCim_function DocLoadCim) # map (\<lambda>(T, name). constructorDef type_of T name) constructors"

text \<open>\<open>PyInit__dpsim\<close>: \<open>ready t\<close> is the result of \<open>PyType_Ready\<close>, \<open>created\<close> whether \<open>PyModule_Create\<close> succeeds;
  \<open>refs\<close> are the reference counts of the types. \<open>PyModule_AddObject\<close> takes over the new reference.\<close>

definition ready_types :: "bool \<Rightarrow> py_type list" where
  "ready_types shmem =
     [Component_type, Node_type False, Node_type True, Simulation_type, SystemTopology_type, Logger_type]
     @ (if shmem then [Interface_type] else [])"

definition added_types :: "bool \<Rightarrow> (string \<times> py_type) list" where
  "added_types shmem =
     [(''Simulation'', Simulation_type), (''SystemTopology'', SystemTopology_type), (''Logger'', Logger_type),
      (''Component'', Component_type)]
     @ (if shmem then [(''Interface'', Interface_type)] else [])
     @ [(''_dp_Node'', Node_type True), (''_emt_Node'', Node_type False)]"

definition PyInit__dpsim ::
    "bool \<Rightarrow> (py_type \<Rightarrow> int) \<Rightarrow> bool \<Rightarrow> (cpp_class \<Rightarrow> string) \<Rightarrow> (py_type \<Rightarrow> nat) \<Rightarrow> module_dict option \<times> (py_type \<Rightarrow> nat)" where
  "PyInit__dpsim shmem ready created type_of refs =
     (if list_ex (\<lambda>t. ready t < 0) (ready_types shmem) then (None, refs)
      else if \<not> created then (None, refs)
      else let m = fold (\<lambda>(name, it). AList.update name it) (dpsimModuleMethods type_of) [];
               (m, refs) = fold (\<lambda>(name, t) (m, refs). (AList.update name (TypeItem t) m, refs(t := Suc (refs t)))) (added_types shmem) (m, refs)
           in (Some m, refs))"

section \<open>The package\<close>

text \<open>What names of the package refer to: a module of \<open>sys.modules\<close>, something of the extension module, or a
  class defined in Python.\<close>

datatype pkg_item = ModuleRef string | Item module_item | PythonClass string

record package =
  pk_globals :: "string \<rightharpoonup> pkg_item"
  sys_modules :: "string \<rightharpoonup> (string \<rightharpoonup> pkg_item)"

text \<open>\<open>s.split(c)\<close> and \<open>c.join(parts)\<close>.\<close>

fun split_at :: "char \<Rightarrow> string \<Rightarrow> string list" where
  "split_at c [] = [[]]"
| "split_at c (x # xs) =
     (if x = c then [] # split_at c xs
      else case split_at c xs of [] \<Rightarrow> [[x]] | p # ps \<Rightarrow> (x # p) # ps)"

fun join_with :: "char \<Rightarrow> string list \<Rightarrow> string" where
  "join_with c [] = []"
| "join_with c [p] = p"
| "join_with c (p # ps) = p @ [c] @ join_with c ps"

text \<open>\<open>module.__dict__[name] = it\<close>.\<close>

definition set_name :: "string \<Rightarrow> string \<Rightarrow> pkg_item \<Rightarrow> package \<Rightarrow> package" where
  "set_name md name it p =
     p\<lparr>sys_modules := (sys_modules p)(md := map_option (\<lambda>d. d(name \<mapsto> it)) (sys_modules p md))\<rparr>"

text \<open>\<open>__get_module\<close>; \<open>None\<close> is the \<open>IndexError\<close> of \<open>parts[-1]\<close> on an empty list.\<close>

function get_module :: "string list \<Rightarrow> package \<Rightarrow> package option" where
  "get_module parts p =
     (if parts = [] then None
      else let full_name = join_with CHR ''.'' parts; name = last parts
           in if sys_modules p full_name \<noteq> None then Some p
              else let p = p\<lparr>sys_modules := (sys_modules p)(full_name \<mapsto> Map.empty)\<rparr>;
                       parent = join_with CHR ''.'' (butlast parts)
                   in if parent = [] then Some (p\<lparr>pk_globals := (pk_globals p)(name \<mapsto> ModuleRef full_name)\<rparr>)
                      else map_option (set_name parent name (ModuleRef full_name))
                             (if sys_modules p parent \<noteq> None then Some p else get_module (butlast parts) p))"
  by pat_completeness auto
termination by (relation "measure (\<lambda>(parts, p). length parts)") simp_all

declare get_module.simps [simp del]

definition is_constructor_name :: "string \<Rightarrow> bool" where
  "is_constructor_name name \<longleftrightarrow>
     take 3 name = ''_dp'' \<or> take 4 name = ''_emt'' \<or> take 7 name = ''_signal''"

text \<open>The body of the loop that registers the aliases.\<close>

definition register_alias :: "string \<times> module_item \<Rightarrow> package \<Rightarrow> package option" where
  "register_alias c p =
     (let (ctor, it) = c; parts = split_at CHR ''_'' ctor; module_parts = butlast (tl parts); name = last parts
      in map_option (set_name (join_with CHR ''.'' module_parts) name (Item it)) (get_module module_parts p))"

primrec register_aliases :: "(string \<times> module_item) list \<Rightarrow> package \<Rightarrow> package option" where
  "register_aliases [] p = Some p"
| "register_aliases (c # cs) p = Option.bind (register_alias c p) (register_aliases cs)"

text \<open>\<open>import dpsim\<close>; \<open>items\<close> are the entries of \<open>_dpsim.__dict__\<close> in their order, \<open>Inl\<close> is the name of the
  Python exception. The \<open>finally\<close> part of the import of \<open>Interface\<close> runs whether or not the module has it,
  and the class it defines has the one of the module as its base.\<close>

definition import_dpsim :: "(string \<times> module_item) list \<Rightarrow> package \<Rightarrow> string + package" where
  "import_dpsim items p =
     (let md = map_of items;
          bind = (\<lambda>name it p. p\<lparr>pk_globals := (pk_globals p)(name \<mapsto> it)\<rparr>)
      in if \<exists>name \<in> {''SystemTopology'', ''Logger'', ''load_cim''}. md name = None then Inl ''ImportError''
         else let p = fold (\<lambda>name. bind name (Item (the (md name)))) [''SystemTopology'', ''Logger'', ''load_cim''] p
         in if md ''Simulation'' = None then Inl ''AttributeError''
         else let p = fold (\<lambda>name. bind name (PythonClass name)) [''Simulation'', ''RealTimeSimulation'', ''EventChannel''] p
         in if md ''Interface'' = None then Inl ''AttributeError''
         else let p = bind ''Interface'' (PythonClass ''Interface'') p
         in case register_aliases (filter (\<lambda>c. is_constructor_name (fst c)) items) p of
              None \<Rightarrow> Inl ''IndexError'' | Some p \<Rightarrow> Inr p)"

definition all_names :: "string list" where
  "all_names = [''Component'', ''Interface'', ''Simulation'', ''SystemTopology'', ''Logger'', ''load_cim'']"

text \<open>\<open>from dpsim import *\<close> binds the names of \<open>__all__\<close>.\<close>

definition import_all :: "package \<Rightarrow> string + (string \<times> pkg_item) list" where
  "import_all p =
     (if list_all (\<lambda>name. pk_globals p name \<noteq> None) all_names
      then Inr (map (\<lambda>name. (name, the (pk_globals p name))) all_names) else Inl ''AttributeError'')"

text \<open>\<open>dpsim.a.b.c\<close>.\<close>

fun lookup_path :: "(string \<rightharpoonup> pkg_item) \<Rightarrow> package \<Rightarrow> string list \<Rightarrow> pkg_item option" where
  "lookup_path d p [] = None"
| "lookup_path d p [name] = d name"
| "lookup_path d p (name # path) =
     (case d name of
        Some (ModuleRef md) \<Rightarrow> (case sys_modules p md of None \<Rightarrow> None | Some d \<Rightarrow> lookup_path d p path)
      | _ \<Rightarrow> None)"

section \<open>Properties\<close>

text \<open>The public name of a class: its namespaces in small letters, and its name.\<close>

definition lower :: "char \<Rightarrow> char" where
  "lower c = (let n = of_char c :: nat in if 65 \<le> n \<and> n \<le> 90 then char_of (n + 32) else c)"

definition public_path :: "cpp_class \<Rightarrow> string list" where
  "public_path T = map (map lower) (butlast T) @ [last T]"

lemma constructor_names:
  "list_all (\<lambda>(T, name). tl (split_at CHR ''_'' name) = public_path T \<and> is_constructor_name name) constructors"
  by code_simp

lemma constructors_distinct: "distinct (map snd constructors)"
  by code_simp

lemma update_new: "k \<notin> fst ` set al \<Longrightarrow> AList.update k v al = al @ [(k, v)]"
  by (induction al) auto

lemma fold_update_new:
  assumes "distinct (map fst (al @ xs))"
  shows "fold (\<lambda>(name, it). AList.update name it) xs al = al @ xs"
  using assms by (induction xs arbitrary: al) (auto simp: update_new)

lemma fold_add_types:
  assumes "distinct (map fst al @ map fst ts)"
  shows "fold (\<lambda>(name, t) (m, refs). (AList.update name (TypeItem t) m, refs(t := Suc (refs t)))) ts (al, refs)
     = (al @ map (\<lambda>(name, t). (name, TypeItem t)) ts, fold (\<lambda>(name, t) refs. refs(t := Suc (refs t))) ts refs)"
  using assms by (induction ts arbitrary: al refs) (auto simp: update_new)

definition module_items :: "bool \<Rightarrow> (cpp_class \<Rightarrow> string) \<Rightarrow> module_dict" where
  "module_items shmem type_of = dpsimModuleMethods type_of @ map (\<lambda>(name, t). (name, TypeItem t)) (added_types shmem)"

lemma PyInit_items:
  assumes "\<forall>t. 0 \<le> ready t"
  shows "PyInit__dpsim shmem ready True type_of refs =
     (Some (module_items shmem type_of), fold (\<lambda>(name, t) refs. refs(t := Suc (refs t))) (added_types shmem) refs)"
proof -
  have names: "map fst (dpsimModuleMethods type_of) = ''load_cim'' # map snd constructors"
    by (simp add: dpsimModuleMethods_def constructorDef_def split_def)
  have "distinct ((''load_cim'' # map snd constructors) @ map fst (added_types shmem))"
    by (cases shmem; simp only:; code_simp)
  then have d: "distinct (map fst (dpsimModuleMethods type_of) @ map fst (added_types shmem))" by (simp only: names)
  then have "fold (\<lambda>(name, it). AList.update name it) (dpsimModuleMethods type_of) [] = dpsimModuleMethods type_of"
    by (subst fold_update_new) (simp_all only: distinct_append append_Nil)
  moreover have "\<not> list_ex (\<lambda>t. ready t < 0) (ready_types shmem)"
    using assms by (simp add: list_ex_iff not_less)
  ultimately show ?thesis
    by (simp only: PyInit__dpsim_def if_False if_True not_True_eq_False Let_def fold_add_types[OF d] module_items_def prod.case)
qed

text \<open>A block of constructors of one module: the module is created if it is not there, and gets the names.\<close>

definition module_of :: "string \<Rightarrow> string list" where
  "module_of ctor = butlast (tl (split_at CHR ''_'' ctor))"

definition alias_of :: "string \<Rightarrow> string" where
  "alias_of ctor = last (split_at CHR ''_'' ctor)"

definition add_aliases :: "(string \<times> module_item) list \<Rightarrow> (string \<rightharpoonup> pkg_item) \<Rightarrow> (string \<rightharpoonup> pkg_item)" where
  "add_aliases cs d = fold (\<lambda>(ctor, it) d. d(alias_of ctor \<mapsto> Item it)) cs d"

lemma add_aliases_Cons: "add_aliases ((ctor, it) # cs) d = add_aliases cs (d(alias_of ctor \<mapsto> Item it))"
  by (simp add: add_aliases_def)

lemma get_module_loaded: "parts \<noteq> [] \<Longrightarrow> sys_modules p (join_with CHR ''.'' parts) = Some d \<Longrightarrow> get_module parts p = Some p"
  by (simp add: get_module.simps)

lemma register_loaded:
  assumes "parts \<noteq> []" and "\<forall>c \<in> set cs. module_of (fst c) = parts" and "sys_modules p (join_with CHR ''.'' parts) = Some d"
  shows "register_aliases cs p = Some (p\<lparr>sys_modules := (sys_modules p)(join_with CHR ''.'' parts \<mapsto> add_aliases cs d)\<rparr>)"
  using assms(2,3)
proof (induction cs arbitrary: p d)
  case Nil
  then have "(sys_modules p)(join_with CHR ''.'' parts \<mapsto> d) = sys_modules p" by (simp add: fun_upd_idem)
  then show ?case by (simp add: add_aliases_def)
next
  case (Cons c cs)
  let ?md = "join_with CHR ''.'' parts"
  obtain ctor it where c: "c = (ctor, it)" by (cases c)
  let ?p = "set_name ?md (alias_of ctor) (Item it) p"
  have "register_alias c p = Some ?p"
    using Cons.prems get_module_loaded[OF assms(1), of p d]
    by (simp add: register_alias_def c Let_def module_of_def alias_of_def)
  moreover have k: "sys_modules ?p ?md = Some (d(alias_of ctor \<mapsto> Item it))"
    using Cons.prems(2) by (simp add: set_name_def)
  moreover have "register_aliases cs ?p =
      Some (?p\<lparr>sys_modules := (sys_modules ?p)(?md \<mapsto> add_aliases cs (d(alias_of ctor \<mapsto> Item it)))\<rparr>)"
    by (rule Cons.IH[OF _ k]) (use Cons.prems(1) in simp)
  moreover have "?p\<lparr>sys_modules := (sys_modules ?p)(?md \<mapsto> D)\<rparr> = p\<lparr>sys_modules := (sys_modules p)(?md \<mapsto> D)\<rparr>" for D
    by (simp add: set_name_def)
  ultimately show ?case by (simp only: c register_aliases.simps add_aliases_Cons bind.bind_lunit)
qed

lemma register_block:
  assumes "cs \<noteq> []" and "\<forall>c \<in> set cs. module_of (fst c) = parts" and "parts \<noteq> []"
    and "get_module parts p = Some p1" and "sys_modules p1 (join_with CHR ''.'' parts) = Some d"
  obtains q where "register_aliases cs p = Some q" and "pk_globals q = pk_globals p1"
    and "sys_modules q = (sys_modules p1)(join_with CHR ''.'' parts \<mapsto> add_aliases cs d)"
proof -
  obtain c cs' where cs: "cs = c # cs'" using assms(1) by (cases cs) auto
  have "register_alias c p = register_alias c p1"
    using assms(2-5) get_module_loaded[OF assms(3,5)] by (simp add: cs register_alias_def module_of_def split_def Let_def)
  then have eq: "register_aliases cs p = register_aliases cs p1" by (simp add: cs)
  show ?thesis
    by (rule that[of "p1\<lparr>sys_modules := (sys_modules p1)(join_with CHR ''.'' parts \<mapsto> add_aliases cs d)\<rparr>"])
      (simp_all add: eq register_loaded[OF assms(3,2,5)])
qed

lemma register_aliases_append:
  "register_aliases (as @ bs) p = Option.bind (register_aliases as p) (register_aliases bs)"
  by (induction as arbitrary: p) (simp_all split: Option.bind_split)

lemma add_aliases_other: "n \<notin> alias_of ` fst ` set cs \<Longrightarrow> add_aliases cs d n = d n"
  by (induction cs arbitrary: d) (auto simp: add_aliases_def)

lemma add_aliases_at:
  assumes "distinct (map (alias_of \<circ> fst) cs)" and "(ctor, it) \<in> set cs"
  shows "add_aliases cs d (alias_of ctor) = Some (Item it)"
  using assms
proof (induction cs arbitrary: d)
  case (Cons c cs)
  show ?case
  proof (cases "(ctor, it) = c")
    case True
    then have "alias_of ctor \<notin> alias_of ` fst ` set cs" using Cons.prems(1) by (auto simp: image_iff)
    then have "add_aliases cs (d(alias_of ctor \<mapsto> Item it)) (alias_of ctor) = Some (Item it)" by (simp add: add_aliases_other)
    then show ?thesis by (simp add: True[symmetric] add_aliases_def)
  next
    case False
    then show ?thesis using Cons by (simp add: add_aliases_def split_def)
  qed
qed simp

text \<open>The constructors by their namespaces.\<close>

definition in_namespace :: "string \<Rightarrow> string \<Rightarrow> (cpp_class \<times> string) list \<Rightarrow> bool" where
  "in_namespace a b cs \<longleftrightarrow>
     list_all (\<lambda>(T, name). module_of name = [a, b] \<and> public_path T = [a, b, alias_of name] \<and> is_constructor_name name) cs
   \<and> distinct (map (\<lambda>(T, name). alias_of name) cs)"

lemma constructors_by_namespace:
  "in_namespace ''dp'' ''ph1'' (take 15 constructors)" "in_namespace ''dp'' ''ph3'' (take 3 (drop 15 constructors))"
  "in_namespace ''emt'' ''ph1'' (drop 18 constructors)"
  by code_simp+

lemma nested_new:
  assumes "a \<noteq> []" and "sys_modules p (a @ CHR ''.'' # b) = None" and "sys_modules p a = None"
  shows "\<exists>p1. get_module [a, b] p = Some p1 \<and> pk_globals p1 = (pk_globals p)(a \<mapsto> ModuleRef a)
     \<and> sys_modules p1 = (sys_modules p)(a \<mapsto> [b \<mapsto> ModuleRef (a @ CHR ''.'' # b)], a @ CHR ''.'' # b \<mapsto> Map.empty)"
  using assms by (simp add: get_module.simps set_name_def fun_eq_iff Let_def del: not_None_eq)

lemma nested_sub:
  assumes "a \<noteq> []" and "sys_modules p (a @ CHR ''.'' # b) = None" and "sys_modules p a = Some d"
  shows "\<exists>p1. get_module [a, b] p = Some p1 \<and> pk_globals p1 = pk_globals p
     \<and> sys_modules p1 = (sys_modules p)(a \<mapsto> d(b \<mapsto> ModuleRef (a @ CHR ''.'' # b)), a @ CHR ''.'' # b \<mapsto> Map.empty)"
  using assms by (simp add: get_module.simps set_name_def fun_eq_iff Let_def del: not_None_eq)

text \<open>The state after the loop over the constructors and the two node types.\<close>

lemma aliases_registered:
  assumes none: "\<forall>md \<in> {''dp'', ''dp.ph1'', ''dp.ph3'', ''emt'', ''emt.ph1''}. sys_modules p md = None"
    and c1: "c1 \<noteq> []" "\<forall>c \<in> set c1. module_of (fst c) = [''dp'', ''ph1'']"
    and c2: "c2 \<noteq> []" "\<forall>c \<in> set c2. module_of (fst c) = [''dp'', ''ph3'']"
    and c3: "c3 \<noteq> []" "\<forall>c \<in> set c3. module_of (fst c) = [''emt'', ''ph1'']"
  shows "\<exists>p'. register_aliases (c1 @ c2 @ c3 @ [(''_dp_Node'', t1), (''_emt_Node'', t2)]) p = Some p'
     \<and> pk_globals p' = (pk_globals p)(''dp'' \<mapsto> ModuleRef ''dp'', ''emt'' \<mapsto> ModuleRef ''emt'')
     \<and> sys_modules p' ''dp'' = Some [''ph1'' \<mapsto> ModuleRef ''dp.ph1'', ''ph3'' \<mapsto> ModuleRef ''dp.ph3'', ''Node'' \<mapsto> Item t1]
     \<and> sys_modules p' ''emt'' = Some [''ph1'' \<mapsto> ModuleRef ''emt.ph1'', ''Node'' \<mapsto> Item t2]
     \<and> sys_modules p' ''dp.ph1'' = Some (add_aliases c1 Map.empty)
     \<and> sys_modules p' ''dp.ph3'' = Some (add_aliases c2 Map.empty)
     \<and> sys_modules p' ''emt.ph1'' = Some (add_aliases c3 Map.empty)"
proof -
  obtain p1 where p1: "get_module [''dp'', ''ph1''] p = Some p1" "pk_globals p1 = (pk_globals p)(''dp'' \<mapsto> ModuleRef ''dp'')"
      "sys_modules p1 = (sys_modules p)(''dp'' \<mapsto> [''ph1'' \<mapsto> ModuleRef ''dp.ph1''], ''dp.ph1'' \<mapsto> Map.empty)"
    using nested_new[of "''dp''" p "''ph1''"] none by auto
  obtain q1 where q1: "register_aliases c1 p = Some q1" "pk_globals q1 = pk_globals p1"
      "sys_modules q1 = (sys_modules p1)(''dp.ph1'' \<mapsto> add_aliases c1 Map.empty)"
    by (rule register_block[OF c1 _ p1(1), of Map.empty]) (simp_all add: p1(3))
  obtain p2 where p2: "get_module [''dp'', ''ph3''] q1 = Some p2" "pk_globals p2 = pk_globals q1"
      "sys_modules p2 = (sys_modules q1)(''dp'' \<mapsto> [''ph1'' \<mapsto> ModuleRef ''dp.ph1'', ''ph3'' \<mapsto> ModuleRef ''dp.ph3''], ''dp.ph3'' \<mapsto> Map.empty)"
    using nested_sub[of "''dp''" q1 "''ph3''"] none by (auto simp: q1 p1)
  obtain q2 where q2: "register_aliases c2 q1 = Some q2" "pk_globals q2 = pk_globals p2"
      "sys_modules q2 = (sys_modules p2)(''dp.ph3'' \<mapsto> add_aliases c2 Map.empty)"
    by (rule register_block[OF c2 _ p2(1), of Map.empty]) (simp_all add: p2(3))
  obtain p3 where p3: "get_module [''emt'', ''ph1''] q2 = Some p3" "pk_globals p3 = (pk_globals q2)(''emt'' \<mapsto> ModuleRef ''emt'')"
      "sys_modules p3 = (sys_modules q2)(''emt'' \<mapsto> [''ph1'' \<mapsto> ModuleRef ''emt.ph1''], ''emt.ph1'' \<mapsto> Map.empty)"
    using nested_new[of "''emt''" q2 "''ph1''"] none by (auto simp: q2 p2 q1 p1)
  obtain q3 where q3: "register_aliases c3 q2 = Some q3" "pk_globals q3 = pk_globals p3"
      "sys_modules q3 = (sys_modules p3)(''emt.ph1'' \<mapsto> add_aliases c3 Map.empty)"
    by (rule register_block[OF c3 _ p3(1), of Map.empty]) (simp_all add: p3(3))
  have n: "module_of ''_dp_Node'' = [''dp'']" "alias_of ''_dp_Node'' = ''Node''"
      "module_of ''_emt_Node'' = [''emt'']" "alias_of ''_emt_Node'' = ''Node''" by code_simp+
  note mods = q3(3) p3(3) q2(3) p2(3) q1(3) p1(3)
  obtain q4 where q4: "register_aliases [(''_dp_Node'', t1)] q3 = Some q4" "pk_globals q4 = pk_globals q3"
      "sys_modules q4 = (sys_modules q3)(''dp'' \<mapsto> [''ph1'' \<mapsto> ModuleRef ''dp.ph1'', ''ph3'' \<mapsto> ModuleRef ''dp.ph3'', ''Node'' \<mapsto> Item t1])"
    by (rule register_block[of "[(''_dp_Node'', t1)]" "[''dp'']" q3 q3]) (simp_all add: n mods add_aliases_def get_module_loaded)
  obtain q5 where q5: "register_aliases [(''_emt_Node'', t2)] q4 = Some q5" "pk_globals q5 = pk_globals q4"
      "sys_modules q5 = (sys_modules q4)(''emt'' \<mapsto> [''ph1'' \<mapsto> ModuleRef ''emt.ph1'', ''Node'' \<mapsto> Item t2])"
    by (rule register_block[of "[(''_emt_Node'', t2)]" "[''emt'']" q4 q4]) (simp_all add: n q4(3) mods add_aliases_def get_module_loaded)
  have "register_aliases (c1 @ c2 @ c3 @ [(''_dp_Node'', t1)] @ [(''_emt_Node'', t2)]) p = Some q5"
    by (simp only: register_aliases_append q1(1) q2(1) q3(1) q4(1) q5(1) bind.bind_lunit)
  then show ?thesis
    by (intro exI[of _ q5]) (simp add: q5(2,3) q4(2,3) q3(2) p3(2) q2(2) p2(2) q1(2) p1(2) mods)
qed

lemma lookup_constructors:
  assumes "in_namespace a b cs" and "(T, name) \<in> set cs" and "pk_globals p a = Some (ModuleRef a)" and "a \<noteq> []"
    and "sys_modules p a = Some d" and "d b = Some (ModuleRef md)"
    and "sys_modules p md = Some (add_aliases (map (\<lambda>(T, name). constructorDef type_of T name) cs) Map.empty)"
  shows "lookup_path (pk_globals p) p (public_path T) = Some (Item (FunctionItem (createInstance_of T) (documentation type_of T)))"
proof -
  let ?cs = "map (\<lambda>(T, name). constructorDef type_of T name) cs"
  have "public_path T = [a, b, alias_of name]" using assms(1,2) by (auto simp: in_namespace_def list_all_iff)
  moreover have "add_aliases ?cs Map.empty (alias_of name) = Some (Item (FunctionItem (createInstance_of T) (documentation type_of T)))"
  proof (rule add_aliases_at)
    show "distinct (map (alias_of \<circ> fst) ?cs)"
      using assms(1) by (simp add: in_namespace_def constructorDef_def comp_def split_def)
    show "(name, FunctionItem (createInstance_of T) (documentation type_of T)) \<in> set ?cs"
      using assms(2) by (force simp: constructorDef_def)
  qed
  ultimately show ?thesis using assms(3-7) by simp
qed

lemma module_item_names: "map fst (module_items shmem type_of) = ''load_cim'' # map snd constructors @ map fst (added_types shmem)"
  by (simp add: module_items_def dpsimModuleMethods_def constructorDef_def split_def)

lemma module_has:
  "map_of (module_items shmem type_of) name = None \<longleftrightarrow> name \<notin> set (''load_cim'' # map snd constructors @ map fst (added_types shmem))"
  unfolding map_of_eq_None_iff module_item_names[of shmem type_of, symmetric] by simp

lemma module_has_names:
  "\<forall>name \<in> {''SystemTopology'', ''Logger'', ''load_cim'', ''Simulation''}. map_of (module_items shmem type_of) name \<noteq> None"
  "map_of (module_items shmem type_of) ''Interface'' = None \<longleftrightarrow> \<not> shmem"
proof -
  have "''Interface'' \<notin> set (map snd constructors)" by code_simp
  then show "map_of (module_items shmem type_of) ''Interface'' = None \<longleftrightarrow> \<not> shmem"
    by (cases shmem) (auto simp: module_has added_types_def)
qed (simp add: module_has added_types_def)

lemma constructor_items:
  "filter (\<lambda>c. is_constructor_name (fst c)) (module_items shmem type_of) =
     map (\<lambda>(T, name). constructorDef type_of T name) constructors
     @ [(''_dp_Node'', TypeItem (Node_type True)), (''_emt_Node'', TypeItem (Node_type False))]"
proof -
  have "list_all (\<lambda>(T, name). is_constructor_name name) constructors" by code_simp
  then have "filter (\<lambda>c. is_constructor_name (fst c)) (map (\<lambda>(T, name). constructorDef type_of T name) constructors)
      = map (\<lambda>(T, name). constructorDef type_of T name) constructors"
    by (auto simp: filter_id_conv constructorDef_def list_all_iff)
  moreover have "filter (\<lambda>c. is_constructor_name (fst c)) (map (\<lambda>(name, t). (name, TypeItem t)) (added_types shmem))
      = [(''_dp_Node'', TypeItem (Node_type True)), (''_emt_Node'', TypeItem (Node_type False))]"
    by (cases shmem) (simp_all add: added_types_def is_constructor_name_def)
  moreover have "\<not> is_constructor_name ''load_cim''" by (simp add: is_constructor_name_def)
  ultimately show ?thesis by (simp add: module_items_def dpsimModuleMethods_def)
qed

lemma import_without_shmem: "import_dpsim (module_items False type_of) p = Inl ''AttributeError''"
  using module_has_names[of False type_of] by (simp add: import_dpsim_def Let_def)

lemma import_with_shmem:
  fixes type_of :: "cpp_class \<Rightarrow> string"
  assumes "\<forall>md \<in> {''dp'', ''dp.ph1'', ''dp.ph3'', ''emt'', ''emt.ph1''}. sys_modules p0 md = None" and "pk_globals p0 ''Component'' = None"
  defines "blk \<equiv> map (\<lambda>(T, name). constructorDef type_of T name)"
  shows "\<exists>p. import_dpsim (module_items True type_of) p0 = Inr p \<and> pk_globals p ''Component'' = None
     \<and> pk_globals p ''dp'' = Some (ModuleRef ''dp'') \<and> pk_globals p ''emt'' = Some (ModuleRef ''emt'')
     \<and> sys_modules p ''dp'' = Some [''ph1'' \<mapsto> ModuleRef ''dp.ph1'', ''ph3'' \<mapsto> ModuleRef ''dp.ph3'', ''Node'' \<mapsto> Item (TypeItem (Node_type True))]
     \<and> sys_modules p ''emt'' = Some [''ph1'' \<mapsto> ModuleRef ''emt.ph1'', ''Node'' \<mapsto> Item (TypeItem (Node_type False))]
     \<and> sys_modules p ''dp.ph1'' = Some (add_aliases (blk (take 15 constructors)) Map.empty)
     \<and> sys_modules p ''dp.ph3'' = Some (add_aliases (blk (take 3 (drop 15 constructors))) Map.empty)
     \<and> sys_modules p ''emt.ph1'' = Some (add_aliases (blk (drop 18 constructors)) Map.empty)"
proof -
  have mods: "\<forall>c \<in> set (blk cs). module_of (fst c) = [a, b]" if "in_namespace a b cs" for a b cs
    using that by (auto simp: in_namespace_def list_all_iff blk_def constructorDef_def)
  have parts: "map (\<lambda>(T, name). constructorDef type_of T name) constructors @ ns
      = blk (take 15 constructors) @ blk (take 3 (drop 15 constructors)) @ blk (drop 18 constructors) @ ns" for ns
    unfolding blk_def append_assoc[symmetric] map_append[symmetric] by (simp add: constructors_def)
  obtain p1 where p1: "import_dpsim (module_items True type_of) p0 =
      (case register_aliases (filter (\<lambda>c. is_constructor_name (fst c)) (module_items True type_of)) p1 of None \<Rightarrow> Inl ''IndexError'' | Some p \<Rightarrow> Inr p)"
      "sys_modules p1 = sys_modules p0" "pk_globals p1 ''Component'' = None"
    using module_has_names[of True type_of] assms(2) by (simp add: import_dpsim_def Let_def)
  have none: "\<forall>md \<in> {''dp'', ''dp.ph1'', ''dp.ph3'', ''emt'', ''emt.ph1''}. sys_modules p1 md = None" using assms(1) p1(2) by simp
  have "blk (take 15 constructors) \<noteq> []" "blk (take 3 (drop 15 constructors)) \<noteq> []" "blk (drop 18 constructors) \<noteq> []"
    by (simp_all add: blk_def constructors_def)
  from aliases_registered[OF none this(1) mods[OF constructors_by_namespace(1)] this(2) mods[OF constructors_by_namespace(2)]
      this(3) mods[OF constructors_by_namespace(3)], of "TypeItem (Node_type True)" "TypeItem (Node_type False)"]
  show ?thesis using p1(3) by (auto simp: p1(1) constructor_items parts)
qed

text \<open>C25: from a class of the component library to its public name, over the C++ module and the Python
  package. If the types are accepted and no module of the names \<open>dp\<close> and \<open>emt\<close> was there before, the module
  is created, the package can be imported, and every constructor of the table is reachable under the
  namespaces of its class in small letters: \<open>dpsim.dp.ph1.Resistor\<close> is \<open>createInstance<CPS::DP::Ph1::Resistor>\<close>.
  The node types are \<open>dpsim.dp.Node\<close> and \<open>dpsim.emt.Node\<close>, and every type has got the reference that the
  module holds. But \<open>from dpsim import *\<close> fails: \<open>__all__\<close> names \<open>Component\<close>, which the package does not
  import. In a build without shared memory the import itself fails.\<close>

theorem package_exports_constructors:
  assumes "\<forall>t. 0 \<le> ready t"
    and "\<forall>md \<in> {''dp'', ''dp.ph1'', ''dp.ph3'', ''emt'', ''emt.ph1''}. sys_modules p0 md = None" and "pk_globals p0 ''Component'' = None"
  shows "\<exists>items refs' p items2 refs2. PyInit__dpsim True ready True type_of refs = (Some items, refs') \<and> (\<forall>t. refs' t = refs t + 1)
     \<and> import_dpsim items p0 = Inr p
     \<and> (\<forall>(T, name) \<in> set constructors. lookup_path (pk_globals p) p (public_path T) =
          Some (Item (FunctionItem (createInstance_of T) (documentation type_of T))))
     \<and> lookup_path (pk_globals p) p [''dp'', ''Node''] = Some (Item (TypeItem (Node_type True)))
     \<and> lookup_path (pk_globals p) p [''emt'', ''Node''] = Some (Item (TypeItem (Node_type False)))
     \<and> import_all p = Inl ''AttributeError''
     \<and> PyInit__dpsim False ready True type_of refs = (Some items2, refs2) \<and> import_dpsim items2 p0 = Inl ''AttributeError''"
proof -
  have each: "fold (\<lambda>(name, t) refs. refs(t := Suc (refs t))) (added_types True) refs t = refs t + 1" for t
    by (cases t) (auto simp: added_types_def)
  obtain p where p: "import_dpsim (module_items True type_of) p0 = Inr p" "pk_globals p ''Component'' = None"
     "pk_globals p ''dp'' = Some (ModuleRef ''dp'')" "pk_globals p ''emt'' = Some (ModuleRef ''emt'')"
     "sys_modules p ''dp'' = Some [''ph1'' \<mapsto> ModuleRef ''dp.ph1'', ''ph3'' \<mapsto> ModuleRef ''dp.ph3'', ''Node'' \<mapsto> Item (TypeItem (Node_type True))]"
     "sys_modules p ''emt'' = Some [''ph1'' \<mapsto> ModuleRef ''emt.ph1'', ''Node'' \<mapsto> Item (TypeItem (Node_type False))]"
     "sys_modules p ''dp.ph1'' = Some (add_aliases (map (\<lambda>(T, name). constructorDef type_of T name) (take 15 constructors)) Map.empty)"
     "sys_modules p ''dp.ph3'' = Some (add_aliases (map (\<lambda>(T, name). constructorDef type_of T name) (take 3 (drop 15 constructors))) Map.empty)"
     "sys_modules p ''emt.ph1'' = Some (add_aliases (map (\<lambda>(T, name). constructorDef type_of T name) (drop 18 constructors)) Map.empty)"
    using import_with_shmem[OF assms(2,3), of type_of] by auto
  have "lookup_path (pk_globals p) p (public_path T) = Some (Item (FunctionItem (createInstance_of T) (documentation type_of T)))"
    if "(T, name) \<in> set constructors" for T name
  proof -
    have "constructors = take 15 constructors @ take 3 (drop 15 constructors) @ drop 18 constructors" by (simp add: constructors_def)
    then have "(T, name) \<in> set (take 15 constructors) \<or> (T, name) \<in> set (take 3 (drop 15 constructors)) \<or> (T, name) \<in> set (drop 18 constructors)"
      using that by (metis Un_iff set_append)
    then show ?thesis
      using lookup_constructors[OF constructors_by_namespace(1), of T name p _ _ type_of]
        lookup_constructors[OF constructors_by_namespace(2), of T name p _ _ type_of]
        lookup_constructors[OF constructors_by_namespace(3), of T name p _ _ type_of] p(3-9) by fastforce
  qed
  then show ?thesis
    using p each by (auto simp: PyInit_items[OF assms(1)] import_without_shmem import_all_def all_names_def)
qed

theorem package_exports_constructors_witness:
  "\<exists>p. import_dpsim (module_items True (\<lambda>T. last T)) \<lparr>pk_globals = Map.empty, sys_modules = [''sys'' \<mapsto> Map.empty]\<rparr> = Inr p
     \<and> lookup_path (pk_globals p) p [''dp'', ''ph1'', ''Resistor''] =
          Some (Item (FunctionItem (createInstance_of [''DP'', ''Ph1'', ''Resistor''])
            (documentation last [''DP'', ''Ph1'', ''Resistor''])))"
proof -
  let ?p0 = "\<lparr>pk_globals = Map.empty, sys_modules = [''sys'' \<mapsto> Map.empty]\<rparr> :: package"
  obtain items refs' p where items: "PyInit__dpsim True (\<lambda>_. 0) True last (\<lambda>_. 1) = (Some items, refs')" "import_dpsim items ?p0 = Inr p"
     and look: "\<forall>(T, name) \<in> set constructors. lookup_path (pk_globals p) p (public_path T) =
          Some (Item (FunctionItem (createInstance_of T) (documentation last T)))"
    using package_exports_constructors[of "\<lambda>_. 0" ?p0 last "\<lambda>_. 1"] by auto
  have "([''DP'', ''Ph1'', ''Resistor''], ''_dp_ph1_Resistor'') \<in> set constructors" by (simp add: constructors_def)
  moreover have "public_path [''DP'', ''Ph1'', ''Resistor''] = [''dp'', ''ph1'', ''Resistor'']" by code_simp
  moreover have "items = module_items True last" using items(1) PyInit_items[of "\<lambda>_. 0" True last "\<lambda>_. 1"] by simp
  ultimately show ?thesis using items(2) look by fastforce
qed

end
