(* ===== verification/Spec2Isabelle.thy ===== *)
theory Spec2Isabelle
  imports RealTimeSimulation MNAShape Switching Coupling ExampleExchange TimerTest DAESolver ODESolver PySimObject PyModule
begin

text \<open>
  A verification of DPsim, a real-time simulator for electric power systems
  (\<open>Source\<close> and \<open>Include/dpsim\<close> of the repository).

  \<^bold>\<open>The program.\<close> A \<open>Simulation\<close> owns a solver, a queue of events, the interfaces that exchange samples
  with other programs, and loggers. In every step it reads the interfaces, executes the events that
  are due, lets the solver compute the next state of the network, writes the interfaces and logs.
  \<open>MnaSolver\<close> solves the network equations by modified nodal analysis, with one factorised matrix per
  state of the switches; \<open>DAESolver\<close> and \<open>ODESolver\<close> hand residuals and derivatives to external
  integrators. \<open>RealTimeSimulation\<close>
  paces the steps with a \<open>Timer\<close>. \<open>CommandLineArgs\<close> reads the options of a program, with the platform's
  option parser or the one of \<open>Compat/getopt.h\<close>. The Python module wraps all of this; its simulation
  object runs the steps in a thread that calls from Python start, pause and stop.

  \<^bold>\<open>Which theory models what.\<close>
  \<^item> \<open>Prelude\<close>: C++ calls as \<open>outcome\<close>s (a state, or an exception with the state at the throw), loops that
    an exception leaves, calls that may not return (\<open>outcome option\<close>), rounding of floating point sums.
  \<^item> \<open>CpsLib\<close>: attributes and switches of the component library, an argument of the model.
  \<^item> \<open>PriorityQueue\<close>: the binary heap of \<open>std::priority_queue\<close>; locale \<open>prio_queue\<close>, interpreted on it.
  \<^item> \<open>Event\<close> (\<open>Event.cpp\<close>, \<open>Event.h\<close>): events and \<open>EventQueue::handleEvents\<close>; the loop is verified in
    the locale \<open>event_loop\<close> over any queue that keeps the contract, and interpreted on the heap.
  \<^item> \<open>Timer\<close> (\<open>Timer.cpp\<close>, \<open>Timer.h\<close>): both builds of \<open>Timer::sleep\<close>, with 64 bit counters.
  \<^item> \<open>TextOutput\<close>, \<open>DataLogger\<close> (\<open>DataLogger.cpp\<close>): the text of the log files and the registration of
    attributes.
  \<^item> \<open>Interface\<close> (\<open>Interface.cpp\<close>): samples, imports and exports over the VILLAS library, an argument.
  \<^item> \<open>MNASolver\<close> (\<open>MNASolver.cpp\<close>, \<open>MNASolver.h\<close>): numbering of nodes, virtual nodes, switched matrices,
    steady state initialisation, \<open>step\<close>. Indices are 32 bit words.
  \<^item> \<open>DAESolver\<close> (\<open>DAESolver.cpp\<close>): numbering, state vector, residual function.
  \<^item> \<open>ODESolver\<close> (\<open>ODESolver.cpp\<close>): \<open>solve\<close> with all its checks, and the destructor, over the integrator's
    library. The file is not part of the build; the names it uses and does not declare are arguments.
  \<^item> \<open>Simulation\<close> (\<open>Simulation.cpp\<close>): \<open>step\<close>, \<open>sync\<close> and \<open>run\<close>, over the virtual methods of a solver
    (\<open>sim_lib\<close>); the locale \<open>fixed_step\<close> is the contract of a solver whose clock advances by a constant
    time step and is interpreted on both solvers.
  \<^item> \<open>RealTimeSimulation\<close> (\<open>RealTimeSimulation.cpp\<close>): the paced loop. \<open>TimerTest\<close> (\<open>Tests/Timer.cpp\<close>): the
    test program of the timer.
  \<^item> \<open>Runs\<close>: whole runs of the simulation: its events and its log. \<open>MNAShape\<close>: the shapes of the vectors and
    matrices of the MNA solver through construction, initialisation and every step. \<open>StepCount\<close>: the number
    of steps of a run whose clock is rounded. \<open>Switching\<close>: the positions of the switches and the status words
    through a step and a run. These hold theorems about the definitions of the theories above, and the
    sizes in \<open>MNAShape\<close>.
  \<^item> \<open>Coupling\<close>: two simulations that exchange samples over a pair of channels, as a step relation over
    all interleavings of their actions; an action is a part of \<open>run\<close>, and a process left alone is \<open>run\<close>.
  \<^item> \<open>ExampleLib\<close>: what the example programs use (nodes, parts, topologies, the options they set).
    \<open>ExampleCircuits\<close>, \<open>ExampleShmem\<close>, \<open>ExampleCim\<close> (\<open>Examples/Cxx/Circuits\<close>, \<open>SynchronGenerator\<close>, \<open>Shmem\<close>,
    \<open>CIM\<close>, \<open>RealTime\<close>, \<open>Components\<close>): the programs that are built, one definition each, statement by
    statement. \<open>ExampleRuns\<close> and \<open>ExampleExchange\<close>: what these programs do.
  \<^item> \<open>Getopt\<close> (\<open>Compat/getopt.h\<close>): the option parser with its permutation of the argument vector.
  \<^item> \<open>CommandLineArgs\<close> (\<open>Utils.cpp\<close>): the option loop, over the locale \<open>option_parser\<close>, interpreted on
    \<open>Getopt\<close>.
  \<^item> \<open>PySimulation\<close> (\<open>Python/Simulation.cpp\<close>, \<open>EventChannel.cpp\<close>): the control of the simulation thread
    as a step relation over all interleavings of calls and threads.
  \<^item> \<open>PyHeap\<close>: Python objects with reference counts and the \<open>dealloc\<close> functions of the module.
  \<^item> \<open>PyObjects\<close> (\<open>Python/Node.cpp\<close>, \<open>Component.cpp\<close>, \<open>SystemTopology.cpp\<close>, \<open>Logger.cpp\<close>, \<open>LoadCim.cpp\<close>,
    \<open>Utils.cpp\<close>): the functions of the wrapped objects on that heap.
  \<^item> \<open>PyInterface\<close> (\<open>Python/Interface.cpp\<close> and the registering methods of \<open>Python/Simulation.cpp\<close>).
  \<^item> \<open>PySimObject\<close>: the references of the simulation object through \<open>newfunc\<close>, \<open>init\<close> and \<open>dealloc\<close>, and the
    representation of a topology as a picture, whose rendering is an argument.
  \<^item> \<open>PyModule\<close> (\<open>Python/Module.cpp\<close>, \<open>Python/Component.cpp\<close>, \<open>Python/dpsim/__init__.py\<close>): the table of
    constructors and what importing the package binds.

  \<^bold>\<open>What is shown.\<close>
  \<^item> Events: exactly the due events are executed, each once, in the order of time, before the solver
    steps; an event that throws stays queued.
  \<^item> Solver: node numbers are contiguous and both solvers agree on them; a step solves with the matrix
    of the switch positions read at the end of the previous step; with one or two switches every
    position has its matrix, with three or more some have none; initialisation fails exactly in the
    named cases; the steady state run ends. From a switch event to the matrix of the next step, over
    a whole run: the property at the end of this theory composes the queue, the simulation and the solver.
  \<^item> Simulation: \<open>run\<close> makes exactly the steps the rounded clock needs; logging obeys the downsampling;
    the real-time loop counts its ticks and overruns exactly; without interfaces the real-time run has
    the same outcome as the offline run, exceptions and endless runs included.
  \<^item> Whole runs: every event that is due within a run is executed once, in the step it belongs to; the log
    is one row per logged step; shapes never change; with sums and literals that are rounded within a
    relative error \<open>u\<close> and \<open>(N + 3)\<^sup>2 u \<le> 1\<close>, a run over \<open>N\<close> time steps makes \<open>N\<close> or \<open>N + 1\<close> steps.
  \<^item> Coupling: two simulations that are coupled by synchronous interfaces exchange their initial samples
    and then wait for each other forever: after four actions, in any order, neither can move.
  \<^item> Example programs: what is connected, logged, exchanged or switched belongs to the topology, with the
    exceptions the theorem names; the offline programs run to their end, one of them with a singular
    system matrix; what the programs with interfaces exchange has places of its own in the sample.
  \<^item> Interfaces: values survive export and import; bounds are checked; samples are released; a blocking
    read returns exactly when some attempt succeeds.
  \<^item> Option parsing: the cyclic permutation exchanges the blocks; every call makes progress, so parsing
    ends.
  \<^item> Control from Python: with one thread the object refines its contract (idle, active, halted,
    finished) and a paused simulation stands still; but calls can wait forever, two threads can be
    created, and a stopped simulation leaves its interfaces open.
  \<^item> Python objects: which functions keep the reference counts right and which do not. The package exports
    every constructor under the name of its class; \<open>from dpsim import *\<close> fails on a name it does not bind.
  \<^item> ODE solver: \<open>solve\<close> reports the integrator's flag; the objects of all calls but the last are lost.
  \<^item> Timer test: its loop ends, with the number of waits its options ask for.

  \<^bold>\<open>Loops.\<close> Loops that may not end are \<open>partial_function (option)\<close>, and that they return is proved
  (\<open>run_loop\<close>, \<open>rt_loop\<close>, \<open>steady_loop\<close>, \<open>catch_up\<close>, \<open>option_loop\<close>, \<open>integrate\<close>, \<open>tt_loop\<close>, the blocking
  read); all others are total. No fuel is used.

  \<^bold>\<open>Arguments of the model.\<close> The component library, Eigen's factorisation, SUNDIALS (IDA and
  ARKode), VILLAS, the CIM reader, the conversion of numbers to text, the rounding of floating point and the system clock are
  records or functions that the definitions take; the theorems name what they assume of them. Real
  numbers stand for \<open>double\<close>, with sums rounded by an argument where the number of steps depends on it.

  \<^bold>\<open>Not modelled.\<close> \<open>ConcurrentQueue.h\<close> and \<open>ReaderWriterQueue.h\<close> are third-party headers that nothing
  includes. The tables of types and methods for the Python interpreter, documentation strings, messages
  on the console and the text log of the solver have no logic of their own; the wrappers of the Python
  package that use \<open>asyncio\<close> are a library of another language around the module. The output of time
  points depends on the locale. The example programs that the build files leave out call functions
  that no longer exist in the library and have no meaning to model, except two circuits
  (\<open>DP_VS_PiLine_R\<close>, \<open>DP_VS_Trafo_R\<close>) that only use what is there and are included.
\<close>

section \<open>From a switch event to the system matrix, over a whole run\<close>

text \<open>C8: events, simulation and solver over a whole run. Without interfaces and with switch events only,
  the run executes the batches \<open>ess\<close>, every event in the first step that starts at its time or later, in
  order of time. The status word a step leaves, which selects the matrix of the step after it, has for
  every switch the position that the last event on it asked for among all events executed so far, or
  the position at the start of the run if there was none; so a switch event takes effect in the matrix
  one step after the step that executes it. The factorisations of the start of the run are still in
  place after every step.\<close>

theorem run_matrix_follows_events:
  fixes cps :: "('w, 'lu) cps_mna" and s :: "('lu mna, 'd, 'w, 'e) sim"
  assumes "Simulation_run (mna_lib cps rnd fmt vil toString) s = Some (Ok s')" and "heap_ok mTime (mEvents s)"
    and "mInterfaces s = []" and "\<forall>ev \<in> set (mEvents s). is_switch_event ev"
    and "switch_laws cps" and "length (mSwitches (mSolver s)) \<le> SWITCH_NUM"
  shows "\<exists>ss s2 ess. run_trace (mna_lib cps rnd fmt vil toString) s ss s2
     \<and> s' = flush_all (close_all (mna_lib cps rnd fmt vil toString) s2)
     \<and> at_first_step (map sim_mTime ss) ess \<and> sorted (map mTime (concat ess))
     \<and> mset (mEvents s) = mset (concat ess) + mset (mEvents s2)
     \<and> (\<forall>ev \<in> set (mEvents s2). \<forall>x \<in> set ss. sim_mTime x < mTime ev)
     \<and> (\<forall>k < length ss. holds_positions
          (\<lambda>c. switch_after c (concat (take (Suc k) ess)) (mnaIsClosed cps c (sim_world s)))
          (mSolver s) (mSolver ((ss @ [s2]) ! Suc k)))"
proof -
  let ?L = "mna_lib cps rnd fmt vil toString"
  obtain ss s2 where tr: "run_trace ?L s ss s2" and s': "s' = flush_all (close_all ?L s2)"
    by (rule run_without_interfaces[OF assms(1,3)])
  from run_trace_positions[OF tr assms(2-6)] show ?thesis using tr s' by blast
qed

text \<open>Closing switch 10 at time 0: the first of the two steps reads it, the second step uses its matrix.\<close>

theorem run_matrix_follows_events_witness:
  "\<exists>s' ss s2. Simulation_run demo_lib (demo_sim 2) = Some (Ok s') \<and> run_trace demo_lib (demo_sim 2) ss s2 \<and> length ss = 2
     \<and> \<not> bit (mCurrentSwitchStatus (mSolver (demo_sim 2))) 0 \<and> bit (mCurrentSwitchStatus (mSolver (ss ! 1))) 0"
proof -
  obtain s' where s': "Simulation_run demo_lib (demo_sim 2) = Some (Ok s')" "mTimeStepCount s' = 2" using demo_run by blast
  have q: "heap_ok mTime (mEvents (demo_sim 2))" "mInterfaces (demo_sim 2) = []" using demo_quiet[of 2] by (simp_all add: quiet_def)
  have sv: "mSolver (demo_sim 2) = demo_stepping"
    by (simp add: demo_sim_def addLogger_def sim_addEvent_def Simulation_new_def)
  have sw: "mSwitches demo_stepping = [10]" "mCurrentSwitchStatus demo_stepping = 0"
    by (simp_all add: demo_stepping_def demo_solver_def MnaSolver_new_def)
  have laws: "switch_laws demo_mna"
    by (auto simp: switch_laws_def demo_mna_def demo_cps_def cps_attrs.defs cps_mna.defs)
  obtain ss s2 ess where tr: "run_trace demo_lib (demo_sim 2) ss s2" and fl: "s' = flush_all (close_all demo_lib s2)"
    and ess: "at_first_step (map sim_mTime ss) ess" "{#SwitchEvent 0 10 True#} = mset (concat ess) + mset (mEvents s2)"
      "\<forall>ev \<in> set (mEvents s2). \<forall>x \<in> set ss. sim_mTime x < mTime ev"
    and pos: "\<forall>k < length ss. holds_positions
        (\<lambda>c. switch_after c (concat (take (Suc k) ess)) (mnaIsClosed demo_mna c (sim_world (demo_sim 2))))
          demo_stepping (mSolver ((ss @ [s2]) ! Suc k))"
    using run_matrix_follows_events[OF s'(1)[unfolded demo_lib_def] q _ laws]
    by (auto simp: demo_events sv sw(1) SWITCH_NUM_def demo_lib_def[symmetric])
  have "mTimeStepCount s' = mTimeStepCount s2" by (simp add: fl flush_all_def close_all_def)
  then have len: "length ss = 2" using run_trace_count[OF tr] s'(2) by simp
  then obtain x y where ss: "ss = [x, y]" by (auto simp: numeral_2_eq_2 length_Suc_conv)
  have x: "x = demo_sim 2" using tr by (simp add: ss run_trace_Cons)
  obtain a b where ab: "ess = [a, b]" using ess(1) by (auto simp: ss at_first_step_def length_Suc_conv)
  have "SwitchEvent 0 10 True \<notin> set b"
    using ess(1) by (auto simp: ss ab x at_first_step_Cons)
  moreover have "SwitchEvent 0 10 True \<notin> set (mEvents s2)" using ess(3) by (force simp: ss x)
  ultimately have "a = [SwitchEvent 0 10 True]"
    using ess(2) by (cases b; cases "mEvents s2") (auto simp: ab add_mset_eq_single single_is_union)
  then show ?thesis
    using s'(1) tr len spec[OF pos, of 0] by (intro exI[of _ s'] exI[of _ ss] exI[of _ s2])
      (auto simp: ss ab sv sw holds_positions_def switch_after_def)
qed

end
